(* ===== verification/Prelude.thy ===== *)
theory Prelude
  imports Main "HOL-Library.Word"
begin

text \<open>
  Shared vocabulary of the development: the types that name Go's bytes, durations and errors,
  the entropy source behind \<^verbatim>\<open>crypto/rand\<close>, and the generic lemmas the component theories use.

  Conventions. A Go string is a \<^typ>\<open>string\<close> whose characters are its bytes. A Go byte slice is
  a list of \<^typ>\<open>8 word\<close>. Go's \<^verbatim>\<open>int\<close> is the 64-bit one: it is an \<^typ>\<open>int\<close> here, and where an
  operation can overflow the wrap-around is written out with \<open>wrap64\<close>. A call that can fail
  returns \<open>go_error + 'a\<close>, with \<open>Inl\<close> for the error.
\<close>

section \<open>Bytes, results, errors\<close>

type_synonym byte = "8 word"
type_synonym bytes = "byte list"

text \<open>
  Error values. \<open>Errorf\<close> is \<^verbatim>\<open>fmt.Errorf\<close> or \<^verbatim>\<open>errors.New\<close> without \<^verbatim>\<open>%w\<close>: the format text of the
  source, abbreviated to its first clause where it is long, and the arguments. \<open>Wrapf\<close> is \<^verbatim>\<open>fmt.Errorf\<close> with \<^verbatim>\<open>%w\<close> (or any library error that unwraps, such
  as \<^verbatim>\<open>*url.Error\<close>). The other constructors are the typed and sentinel errors of libraries that the
  code tests for with \<^verbatim>\<open>errors.Is\<close> and \<^verbatim>\<open>errors.As\<close>; \<open>ExtErr\<close> is any other library error. The text of
  an error (\<^verbatim>\<open>err.Error()\<close>) is not rendered: a result field that holds such a text holds the error
  value, and the empty string is \<^const>\<open>None\<close>.
\<close>

datatype fmt_arg = S string | N int

datatype go_error =
    ExtErr string
  | CtxCanceled
  | CtxDeadlineExceeded
  | IOTimeout
  | GoECHRejection bytes
  | UECHRejection bytes
  | GoCertError string
  | UCertError string
  | Errorf string "fmt_arg list"
  | Wrapf string "fmt_arg list" go_error

fun err_root :: "go_error \<Rightarrow> go_error" where
  "err_root (Wrapf f a e) = err_root e"
| "err_root e = e"

definition errors_is :: "go_error \<Rightarrow> go_error \<Rightarrow> bool" where
  "errors_is e t = (err_root e = t)"

type_synonym 'a res = "go_error + 'a"

text \<open>A call that can panic (an index out of range, a nil dereference, a close of a closed channel).\<close>

datatype 'a gocall = Panic | Ret 'a

definition go_index :: "'a list \<Rightarrow> nat \<Rightarrow> 'a gocall" where
  "go_index xs i = (if i < length xs then Ret (xs ! i) else Panic)"

fun is_ok :: "'e + 'a \<Rightarrow> bool" where
  "is_ok (Inr _) = True"
| "is_ok (Inl _) = False"

section \<open>Machine integers and time\<close>

text \<open>Two's complement wrap-around of 64-bit arithmetic.\<close>

definition wrap64 :: "int \<Rightarrow> int" where
  "wrap64 x = (x + 2 ^ 63) mod 2 ^ 64 - 2 ^ 63"

definition in_int64 :: "int \<Rightarrow> bool" where
  "in_int64 x \<longleftrightarrow> - (2 ^ 63) \<le> x \<and> x < 2 ^ 63"

text \<open>Go's integer division truncates towards zero.\<close>

definition go_div :: "int \<Rightarrow> int \<Rightarrow> int" where
  "go_div a b = sgn a * sgn b * (\<bar>a\<bar> div \<bar>b\<bar>)"

text \<open>
  \<^verbatim>\<open>time.Duration\<close> and \<^verbatim>\<open>time.Time\<close> count nanoseconds (\<^verbatim>\<open>Time\<close> from its own zero value).
  \<^verbatim>\<open>Time.Sub\<close> saturates at the ends of the \<^verbatim>\<open>Duration\<close> range.
\<close>

type_synonym duration = int
type_synonym gotime = int

abbreviation millisecond :: duration where "millisecond \<equiv> 1000000"
abbreviation second :: duration where "second \<equiv> 1000000000"

definition time_sub :: "gotime \<Rightarrow> gotime \<Rightarrow> duration" where
  "time_sub a b = max (- (2 ^ 63)) (min (2 ^ 63 - 1) (a - b))"

section \<open>The entropy source\<close>

text \<open>
  \<^verbatim>\<open>crypto/rand\<close> is the finite list of bytes it will still deliver; a read that asks for more
  than is left fails, as a read from a starved source does.
\<close>

type_synonym entropy = bytes

definition rand_read :: "nat \<Rightarrow> entropy \<Rightarrow> bytes option \<times> entropy" where
  "rand_read n e = (if n \<le> length e then (Some (take n e), drop n e) else (None, e))"

fun bit_len :: "nat \<Rightarrow> nat" where
  "bit_len n = (if n = 0 then 0 else Suc (bit_len (n div 2)))"

declare bit_len.simps [simp del]

definition be_value :: "bytes \<Rightarrow> nat" where
  "be_value bs = foldl (\<lambda>acc b. acc * 256 + unat b) 0 bs"

text \<open>
  \<^verbatim>\<open>rand.Int(rand.Reader, max)\<close>: a uniform value below \<open>max\<close> by rejection. The top byte is masked
  to the bits that \<open>max - 1\<close> needs; a draw that is still too big is thrown away.
\<close>

definition mask_top :: "nat \<Rightarrow> bytes \<Rightarrow> bytes" where
  "mask_top b bs = (case bs of [] \<Rightarrow> [] | x # xs \<Rightarrow> take_bit b x # xs)"

function rand_draw :: "nat \<Rightarrow> nat \<Rightarrow> nat \<Rightarrow> entropy \<Rightarrow> nat option \<times> entropy" where
  "rand_draw k b mx e =
     (if k = 0 \<or> length e < k then (None, e)
      else let n = be_value (mask_top b (take k e))
           in if n < mx then (Some n, drop k e) else rand_draw k b mx (drop k e))"
  by pat_completeness auto
termination
  by (relation "measure (\<lambda>(k, b, mx, e). length e)") auto

declare rand_draw.simps [simp del]

definition rand_int :: "nat \<Rightarrow> entropy \<Rightarrow> nat option \<times> entropy" where
  "rand_int mx e =
     (let bl = bit_len (mx - 1) in
      if bl = 0 then (Some 0, e)
      else rand_draw ((bl + 7) div 8) (if bl mod 8 = 0 then 8 else bl mod 8) mx e)"

section \<open>Automation collections and shared lemmas\<close>

named_theorems go_simps "unfolding rules of the library model"
named_theorems go_bounds "range facts of the library model"

lemma is_ok_iff: "is_ok r \<longleftrightarrow> (\<exists>a. r = Inr a)"
  by (cases r) auto

lemma wrap64_id [simp]: "in_int64 x \<Longrightarrow> wrap64 x = x"
  by (simp add: wrap64_def in_int64_def)

lemma wrap64_range [go_bounds]: "in_int64 (wrap64 x)"
proof -
  have "0 \<le> (x + 2 ^ 63) mod 2 ^ 64" and "(x + 2 ^ 63) mod 2 ^ 64 < (2::int) ^ 64"
    by simp_all
  then show ?thesis by (simp add: wrap64_def in_int64_def)
qed

lemma err_root_not_wrapped: "err_root e \<noteq> Wrapf f a e'"
  by (induction e) auto

lemma rand_read_length [go_bounds]:
  "rand_read n e = (Some bs, e') \<Longrightarrow> length bs = n \<and> e = bs @ e'"
  by (auto simp: rand_read_def split: if_splits)

lemma rand_draw_bound [go_bounds]: "rand_draw k b mx e = (Some n, e') \<Longrightarrow> n < mx"
proof (induction k b mx e rule: rand_draw.induct)
  case (1 k b mx e)
  then show ?case
    by (subst (asm) (2) rand_draw.simps) (auto simp: Let_def split: if_splits)
qed

lemma rand_int_bound [go_bounds]: "0 < mx \<Longrightarrow> rand_int mx e = (Some n, e') \<Longrightarrow> n < mx"
  by (auto simp: rand_int_def Let_def dest: rand_draw_bound split: if_splits)

lemma nth_take_drop [simp]: "i < k \<Longrightarrow> n + i < length xs \<Longrightarrow> take k (drop n xs) ! i = xs ! (n + i)"
  by simp

end
