(* ===== verification/Go_Strings.thy ===== *)
theory Go_Strings
  imports Prelude
begin

text \<open>
  The functions of Go's \<^verbatim>\<open>strings\<close>, \<^verbatim>\<open>strconv\<close> and \<^verbatim>\<open>net\<close> packages that the program's parsers are
  built from, on byte strings. Unicode: \<^verbatim>\<open>TrimSpace\<close> knows every white-space code point in its UTF-8
  encoding; the case mappings cover ASCII and the code points outside ASCII whose mapping is an ASCII
  letter (U+0130, U+212A for \<^verbatim>\<open>ToLower\<close>, U+0131, U+017F for \<^verbatim>\<open>ToUpper\<close>, U+212A, U+017F for
  \<^verbatim>\<open>EqualFold\<close>). Every other non-ASCII code point maps to a non-ASCII one and is left as it is: the
  code only compares the results with ASCII texts.
\<close>

section \<open>strings\<close>

subsection \<open>TrimSpace\<close>

definition is_space_ascii :: "char \<Rightarrow> bool" where
  "is_space_ascii c = (of_char c \<in> {9, 10, 11, 12, 13, 32 :: nat})"

text \<open>
  The UTF-8 encodings of the non-ASCII code points with the White Space property: U+0085, U+00A0,
  U+1680, U+2000 to U+200A, U+2028, U+2029, U+202F, U+205F, U+3000.
\<close>

definition wide_spaces :: "nat list list" where
  "wide_spaces =
     [[0xC2, 0x85], [0xC2, 0xA0], [0xE1, 0x9A, 0x80]]
     @ map (\<lambda>k. [0xE2, 0x80, k]) ([0x80..<0x8B] @ [0xA8, 0xA9, 0xAF])
     @ [[0xE2, 0x81, 0x9F], [0xE3, 0x80, 0x80]]"

definition wide_space :: "string \<Rightarrow> bool" where
  "wide_space s = List.member wide_spaces (map of_char s)"

text \<open>The length of the white-space code point a string starts with, 0 if it starts with none.\<close>

definition space_len :: "string \<Rightarrow> nat" where
  "space_len s =
     (case s of [] \<Rightarrow> 0
      | c # _ \<Rightarrow> if is_space_ascii c then 1
          else if wide_space (take 2 s) then 2
          else if wide_space (take 3 s) then 3 else 0)"

definition space_len_rev :: "string \<Rightarrow> nat" where
  "space_len_rev s =
     (case s of [] \<Rightarrow> 0
      | c # _ \<Rightarrow> if is_space_ascii c then 1
          else if wide_space (rev (take 2 s)) then 2
          else if wide_space (rev (take 3 s)) then 3 else 0)"

function trim_left :: "string \<Rightarrow> string" where
  "trim_left s = (let k = space_len s in if k = 0 \<or> s = [] then s else trim_left (drop k s))"
  by pat_completeness auto
termination
  by (relation "measure length") auto

function trim_left_rev :: "string \<Rightarrow> string" where
  "trim_left_rev s =
     (let k = space_len_rev s in if k = 0 \<or> s = [] then s else trim_left_rev (drop k s))"
  by pat_completeness auto
termination
  by (relation "measure length") auto

declare trim_left.simps [simp del] trim_left_rev.simps [simp del]

definition trim_space :: "string \<Rightarrow> string" where
  "trim_space s = rev (trim_left_rev (rev (trim_left s)))"

subsection \<open>Case mapping\<close>

definition lower_char :: "char \<Rightarrow> char" where
  "lower_char c =
     (let n = (of_char c :: nat) in if 65 \<le> n \<and> n \<le> 90 then char_of (n + 32) else c)"

definition upper_char :: "char \<Rightarrow> char" where
  "upper_char c =
     (let n = (of_char c :: nat) in if 97 \<le> n \<and> n \<le> 122 then char_of (n - 32) else c)"

definition b2 :: "string \<Rightarrow> nat \<Rightarrow> nat \<Rightarrow> bool" where
  "b2 s m n = (map of_char (take 2 s) = [m, n])"

definition b3 :: "string \<Rightarrow> nat \<Rightarrow> nat \<Rightarrow> nat \<Rightarrow> bool" where
  "b3 s m n k = (map of_char (take 3 s) = [m, n, k])"

function to_lower :: "string \<Rightarrow> string" where
  "to_lower s =
     (if s = [] then []
      else if b2 s 0xC4 0xB0 then CHR ''i'' # to_lower (drop 2 s)
      else if b3 s 0xE2 0x84 0xAA then CHR ''k'' # to_lower (drop 3 s)
      else lower_char (hd s) # to_lower (tl s))"
  by pat_completeness auto
termination
  by (relation "measure length") auto

function to_upper :: "string \<Rightarrow> string" where
  "to_upper s =
     (if s = [] then []
      else if b2 s 0xC4 0xB1 then CHR ''I'' # to_upper (drop 2 s)
      else if b2 s 0xC5 0xBF then CHR ''S'' # to_upper (drop 2 s)
      else upper_char (hd s) # to_upper (tl s))"
  by pat_completeness auto
termination
  by (relation "measure length") auto

function fold_case :: "string \<Rightarrow> string" where
  "fold_case s =
     (if s = [] then []
      else if b2 s 0xC5 0xBF then CHR ''s'' # fold_case (drop 2 s)
      else if b3 s 0xE2 0x84 0xAA then CHR ''k'' # fold_case (drop 3 s)
      else lower_char (hd s) # fold_case (tl s))"
  by pat_completeness auto
termination
  by (relation "measure length") auto

declare to_lower.simps [simp del] to_upper.simps [simp del] fold_case.simps [simp del]

definition equal_fold :: "string \<Rightarrow> string \<Rightarrow> bool" where
  "equal_fold s t = (fold_case s = fold_case t)"

subsection \<open>Searching and splitting\<close>

definition has_prefix :: "string \<Rightarrow> string \<Rightarrow> bool" where
  "has_prefix s p = (take (length p) s = p)"

definition trim_prefix :: "string \<Rightarrow> string \<Rightarrow> string" where
  "trim_prefix s p = (if has_prefix s p then drop (length p) s else s)"

definition trim_suffix :: "string \<Rightarrow> string \<Rightarrow> string" where
  "trim_suffix s p =
     (if length p \<le> length s \<and> drop (length s - length p) s = p
      then take (length s - length p) s else s)"

fun split_on :: "char \<Rightarrow> string \<Rightarrow> string list" where
  "split_on c [] = [[]]"
| "split_on c (x # xs) =
     (if x = c then [] # split_on c xs
      else case split_on c xs of [] \<Rightarrow> [[x]] | p # ps \<Rightarrow> (x # p) # ps)"

text \<open>\<^verbatim>\<open>strings.LastIndex(s, c)\<close> as the pair of what is before and after the last \<open>c\<close>.\<close>

definition split_last :: "char \<Rightarrow> string \<Rightarrow> (string \<times> string) option" where
  "split_last c s =
     (if c \<in> set s
      then Some (rev (tl (dropWhile (\<lambda>x. x \<noteq> c) (rev s))), rev (takeWhile (\<lambda>x. x \<noteq> c) (rev s)))
      else None)"

definition contains_any :: "string \<Rightarrow> string \<Rightarrow> bool" where
  "contains_any s cs = list_ex (\<lambda>x. x \<in> set cs) s"

fun join_with :: "string \<Rightarrow> string list \<Rightarrow> string" where
  "join_with sep [] = []"
| "join_with sep [x] = x"
| "join_with sep (x # y # ys) = x @ sep @ join_with sep (y # ys)"

section \<open>strconv\<close>

definition is_digit :: "char \<Rightarrow> bool" where
  "is_digit c = (48 \<le> (of_char c :: nat) \<and> (of_char c :: nat) \<le> 57)"

definition digit_val :: "char \<Rightarrow> nat" where
  "digit_val c = of_char c - 48"

definition dec_value :: "string \<Rightarrow> nat" where
  "dec_value s = foldl (\<lambda>acc c. acc * 10 + digit_val c) 0 s"

text \<open>\<^verbatim>\<open>strconv.Atoi\<close> with a 64-bit \<^verbatim>\<open>int\<close>: an optional sign, at least one digit, digits only, in range.\<close>

definition atoi :: "string \<Rightarrow> int option" where
  "atoi s =
     (let neg = (case s of c # _ \<Rightarrow> c = CHR ''-'' | [] \<Rightarrow> False);
          ds = (case s of c # cs \<Rightarrow> if c = CHR ''-'' \<or> c = CHR ''+'' then cs else s | [] \<Rightarrow> []);
          v = (if neg then - int (dec_value ds) else int (dec_value ds))
      in if ds \<noteq> [] \<and> list_all is_digit ds \<and> in_int64 v then Some v else None)"

text \<open>\<^verbatim>\<open>%d\<close> of a non-negative number.\<close>

fun show_nat :: "nat \<Rightarrow> string" where
  "show_nat n = (if n < 10 then [char_of (48 + n)] else show_nat (n div 10) @ [char_of (48 + n mod 10)])"

declare show_nat.simps [simp del]

section \<open>net\<close>

text \<open>\<^verbatim>\<open>net.SplitHostPort\<close>, on every branch; the errors are \<^verbatim>\<open>*net.AddrError\<close> values.\<close>

definition addr_err :: "string \<Rightarrow> string \<Rightarrow> go_error" where
  "addr_err why hostport = ExtErr (''address '' @ hostport @ '': '' @ why)"

definition split_host_port :: "string \<Rightarrow> (string \<times> string) res" where
  "split_host_port hp =
     (case split_last (CHR '':'') hp of
        None \<Rightarrow> Inl (addr_err ''missing port in address'' hp)
      | Some (before, port) \<Rightarrow>
          if hd hp = CHR ''['' then
            (if CHR '']'' \<notin> set hp then Inl (addr_err ''missing ']' in address'' hp)
             else let host = takeWhile (\<lambda>x. x \<noteq> CHR '']'') (tl hp);
                      end = Suc (length host)
                  in if Suc end = length hp then Inl (addr_err ''missing port in address'' hp)
                     else if Suc end = length before then
                       (if CHR ''['' \<in> set (drop 1 hp) then Inl (addr_err ''unexpected '[' in address'' hp)
                        else if CHR '']'' \<in> set (drop (Suc end) hp) then Inl (addr_err ''unexpected ']' in address'' hp)
                        else Inr (host, port))
                     else if hp ! Suc end = CHR '':'' then Inl (addr_err ''too many colons in address'' hp)
                     else Inl (addr_err ''missing port in address'' hp))
          else if CHR '':'' \<in> set before then Inl (addr_err ''too many colons in address'' hp)
          else if CHR ''['' \<in> set hp then Inl (addr_err ''unexpected '[' in address'' hp)
          else if CHR '']'' \<in> set hp then Inl (addr_err ''unexpected ']' in address'' hp)
          else Inr (before, port))"

definition join_host_port :: "string \<Rightarrow> string \<Rightarrow> string" where
  "join_host_port host port =
     (if CHR '':'' \<in> set host then ''['' @ host @ '']:'' @ port else host @ '':'' @ port)"

subsection \<open>ParseIP\<close>

text \<open>
  Whether \<^verbatim>\<open>net.ParseIP\<close> accepts a text: \<^verbatim>\<open>netip.ParseAddr\<close> without a zone. Which parser runs is
  decided by the first of \<^verbatim>\<open>.\<close>, \<^verbatim>\<open>:\<close> and \<^verbatim>\<open>%\<close> in the text. A dotted quad has four decimal fields
  of at most 255 without leading zeros. The IPv6 loop reads groups of one to four hex digits; \<open>i\<close>
  counts the bytes already filled, \<open>el\<close> says whether the ellipsis has been seen.
\<close>

definition valid_octet :: "string \<Rightarrow> bool" where
  "valid_octet f = (f \<noteq> [] \<and> list_all is_digit f \<and> dec_value f \<le> 255 \<and> (length f > 1 \<longrightarrow> hd f \<noteq> CHR ''0''))"

definition valid_ipv4 :: "string \<Rightarrow> bool" where
  "valid_ipv4 s = (let fs = split_on (CHR ''.'') s in length fs = 4 \<and> list_all valid_octet fs)"

definition is_hex_digit :: "char \<Rightarrow> bool" where
  "is_hex_digit c =
     (let n = (of_char c :: nat) in (48 \<le> n \<and> n \<le> 57) \<or> (97 \<le> n \<and> n \<le> 102) \<or> (65 \<le> n \<and> n \<le> 70))"

fun ipv6_groups :: "nat \<Rightarrow> nat \<Rightarrow> bool \<Rightarrow> string \<Rightarrow> bool" where
  "ipv6_groups 0 i el s = (s = [] \<and> (if i < 16 then el else \<not> el))"
| "ipv6_groups (Suc fuel) i el s =
     (if 16 \<le> i then s = [] \<and> \<not> el
      else let ds = takeWhile is_hex_digit s; r = dropWhile is_hex_digit s
      in if ds = [] \<or> length ds > 4 then False
         else case r of
             [] \<Rightarrow> (if i + 2 < 16 then el else \<not> el)
           | c # r' \<Rightarrow>
               if c = CHR ''.'' then
                 (el \<or> i = 12) \<and> i + 4 \<le> 16 \<and> valid_ipv4 s \<and> (if i + 4 < 16 then el else \<not> el)
               else if c \<noteq> CHR '':'' \<or> r' = [] then False
               else if hd r' = CHR '':'' then
                 (if el then False
                  else if tl r' = [] then i + 2 < 16
                  else ipv6_groups fuel (i + 2) True (tl r'))
               else ipv6_groups fuel (i + 2) el r')"

definition valid_ipv6 :: "string \<Rightarrow> bool" where
  "valid_ipv6 s =
     (CHR ''%'' \<notin> set s \<and>
      (if take 2 s = ''::'' then drop 2 s = [] \<or> ipv6_groups 8 0 True (drop 2 s)
       else ipv6_groups 8 0 False s))"

definition valid_ip :: "string \<Rightarrow> bool" where
  "valid_ip s =
     (case filter (\<lambda>c. c \<in> set ''.:%'') s of
        [] \<Rightarrow> False
      | c # _ \<Rightarrow> if c = CHR ''.'' then valid_ipv4 s else if c = CHR '':'' then valid_ipv6 s else False)"

section \<open>Lemmas\<close>

subsection \<open>Trimming and case mapping\<close>

text \<open>A plain character is an ASCII one that is not white space: trimming stops at it.\<close>

definition plain_char :: "char \<Rightarrow> bool" where
  "plain_char c = ((of_char c :: nat) < 128 \<and> \<not> is_space_ascii c)"

lemma wide_space_bytes:
  "wide_space (c # s) \<Longrightarrow> 128 \<le> (of_char c :: nat)"
  "wide_space (s @ [c]) \<Longrightarrow> 128 \<le> (of_char c :: nat)"
  by (auto simp: wide_space_def wide_spaces_def upt_rec append_eq_Cons_conv)

lemma space_len_plain: "plain_char c \<Longrightarrow> space_len (c # s) = 0"
  using wide_space_bytes(1)[of c "take 1 s"] wide_space_bytes(1)[of c "take 2 s"]
  by (auto simp: space_len_def plain_char_def numeral_2_eq_2 numeral_3_eq_3)

lemma space_len_rev_plain: "plain_char c \<Longrightarrow> space_len_rev (c # s) = 0"
  using wide_space_bytes(2)[of "rev (take 1 s)" c] wide_space_bytes(2)[of "rev (take 2 s)" c]
  by (auto simp: space_len_rev_def plain_char_def numeral_2_eq_2 numeral_3_eq_3)

lemma trim_left_Nil [simp]: "trim_left [] = []"
  by (simp add: trim_left.simps)

lemma trim_left_rev_Nil [simp]: "trim_left_rev [] = []"
  by (simp add: trim_left_rev.simps)

lemma trim_space_Nil [simp]: "trim_space [] = []"
  by (simp add: trim_space_def)

lemma trim_space_plain:
  assumes "s \<noteq> []" and "plain_char (hd s)" and "plain_char (last s)"
  shows "trim_space s = s"
proof -
  obtain c t where s: "s = c # t" using assms(1) by (cases s) auto
  obtain d u where r: "rev s = d # u" using assms(1) by (cases "rev s") auto
  have "d = last s" using r by (metis hd_rev list.sel(1))
  then have "trim_left_rev (rev s) = rev s"
    using assms(3) space_len_rev_plain[of d u] by (simp add: trim_left_rev.simps r)
  moreover have "trim_left s = s"
    using assms(2) space_len_plain[of c t] by (simp add: trim_left.simps s)
  ultimately show ?thesis by (simp add: trim_space_def)
qed

lemma trim_space_all_plain: "list_all plain_char s \<Longrightarrow> trim_space s = s"
  by (cases "s = []") (auto simp: trim_space_plain list_all_iff)

lemma length_trim_left: "length (trim_left s) \<le> length s"
proof (induction s rule: trim_left.induct)
  case (1 s)
  then show ?case by (subst trim_left.simps) (fastforce simp: Let_def)
qed

lemma to_lower_Nil [simp]: "to_lower [] = []"
  by (simp add: to_lower.simps)

lemma to_lower_ascii: "list_all (\<lambda>c. (of_char c :: nat) < 128) s \<Longrightarrow> to_lower s = map lower_char s"
proof (induction s rule: length_induct)
  case (1 s)
  show ?case
  proof (cases s)
    case (Cons a t)
    with 1 have "to_lower t = map lower_char t" and "(of_char a :: nat) < 128" by simp_all
    then show ?thesis
      unfolding Cons by (subst to_lower.simps) (auto simp: b2_def b3_def numeral_2_eq_2 numeral_3_eq_3)
  qed simp
qed

subsection \<open>Splitting and decimal texts\<close>

lemma split_on_nonempty [simp]: "split_on c s \<noteq> []"
  by (induction s) (auto split: list.splits)

lemma split_on_none [simp]: "c \<notin> set s \<Longrightarrow> split_on c s = [s]"
  by (induction s) auto

lemma split_on_append [simp]: "c \<notin> set a \<Longrightarrow> split_on c (a @ c # s) = a # split_on c s"
  by (induction a) auto

lemma join_split_on: "join_with [c] (split_on c s) = s"
proof (induction s)
  case (Cons x xs)
  then show ?case
    by (cases "split_on c xs"; cases "tl (split_on c xs)") (auto split: list.splits)
qed simp

lemma split_last_append: "c \<notin> set b \<Longrightarrow> split_last c (a @ c # b) = Some (a, b)"
proof -
  assume c: "c \<notin> set b"
  then have "takeWhile (\<lambda>x. x \<noteq> c) (rev b @ c # rev a) = rev b"
    and "dropWhile (\<lambda>x. x \<noteq> c) (rev b @ c # rev a) = c # rev a"
    by (simp_all add: takeWhile_append dropWhile_append)
  then show ?thesis by (simp add: split_last_def)
qed

lemma split_last_Some: "split_last c s = Some (a, b) \<Longrightarrow> s = a @ c # b \<and> c \<notin> set b"
proof -
  assume h: "split_last c s = Some (a, b)"
  then have "c \<in> set s" by (auto simp: split_last_def split: if_splits)
  then obtain x y where s: "s = x @ c # y" "c \<notin> set y" by (meson split_list_last)
  then have "split_last c s = Some (x, y)" by (simp add: split_last_append)
  with h s show ?thesis by simp
qed

lemma split_last_None [simp]: "split_last c s = None \<longleftrightarrow> c \<notin> set s"
  by (simp add: split_last_def)

lemma of_char_digit: "n < 10 \<Longrightarrow> (of_char (char_of (48 + n) :: char) :: nat) = 48 + n"
  by simp

lemma show_nat_digits: "list_all is_digit (show_nat n)"
proof (induction n rule: show_nat.induct)
  case (1 n)
  have d: "is_digit (char_of (48 + k))" if "k < 10" for k :: nat
    using that by (simp add: is_digit_def)
  show ?case using 1 by (subst show_nat.simps) (auto simp: d)
qed

lemma show_nat_nonempty [simp]: "show_nat n \<noteq> []"
  by (subst show_nat.simps) simp

lemma dec_value_show_nat [simp]: "dec_value (show_nat n) = n"
proof (induction n rule: show_nat.induct)
  case (1 n)
  then show ?case by (subst show_nat.simps) (auto simp: dec_value_def digit_val_def)
qed

lemma show_nat_chars: "c \<in> set (show_nat n) \<Longrightarrow> is_digit c"
  using show_nat_digits[of n] by (auto simp: list_all_iff)

lemma digit_not_sign: "is_digit c \<Longrightarrow> c \<noteq> CHR ''-'' \<and> c \<noteq> CHR ''+'' \<and> c \<noteq> CHR '','' \<and> plain_char c"
  by (auto simp: is_digit_def plain_char_def is_space_ascii_def)

lemma atoi_show_nat:
  assumes "int n < 2 ^ 63"
  shows "atoi (show_nat n) = Some (int n)"
proof -
  obtain c cs where s: "show_nat n = c # cs" using show_nat_nonempty by (meson neq_Nil_conv)
  then have "c \<noteq> CHR ''-'' \<and> c \<noteq> CHR ''+''" using show_nat_chars digit_not_sign by (metis list.set_intros(1))
  then show ?thesis
    using assms s show_nat_digits[of n] dec_value_show_nat[of n] by (simp add: atoi_def Let_def in_int64_def)
qed

lemma trim_show_nat [simp]: "trim_space (show_nat n) = show_nat n"
  using show_nat_chars digit_not_sign by (auto intro!: trim_space_all_plain simp: list_all_iff)

lemma atoi_range [go_bounds]: "atoi s = Some v \<Longrightarrow> in_int64 v"
  by (auto simp: atoi_def Let_def split: if_splits)

subsection \<open>Host and port\<close>

theorem split_join_host_port:
  assumes "set host \<inter> {CHR ''['', CHR '']''} = {}" and "set port \<inter> {CHR '':'', CHR ''['', CHR '']''} = {}"
  shows "split_host_port (join_host_port host port) = Inr (host, port)"
proof (cases "CHR '':'' \<in> set host")
  case True
  let ?b = "''['' @ host @ '']''"
  have j: "join_host_port host port = ?b @ CHR '':'' # port" using True by (simp add: join_host_port_def)
  have sl: "split_last (CHR '':'') (?b @ CHR '':'' # port) = Some (?b, port)"
    using assms(2) by (intro split_last_append) auto
  have tw: "takeWhile (\<lambda>x. x \<noteq> CHR '']'') (host @ CHR '']'' # CHR '':'' # port) = host"
    using assms(1) by (subst takeWhile_append2) auto
  show ?thesis
    unfolding j split_host_port_def sl using assms tw by (simp add: Let_def)
next
  case False
  then have "split_last (CHR '':'') (host @ CHR '':'' # port) = Some (host, port)"
    using assms(2) by (intro split_last_append) auto
  moreover have "hd (host @ CHR '':'' # port) \<noteq> CHR ''[''"
    using assms(1) by (cases host) auto
  ultimately show ?thesis
    using False assms by (auto simp: split_host_port_def join_host_port_def)
qed

end
