(* ===== verification/Go_Codec.thy ===== *)
theory Go_Codec
  imports Go_Strings
begin

text \<open>
  The byte codecs of Go's standard library that the program uses: \<^verbatim>\<open>encoding/hex\<close>, the four
  \<^verbatim>\<open>encoding/base64\<close> encodings, and the big- and little-endian integers of \<^verbatim>\<open>encoding/binary\<close>; with their
  round trips.
\<close>

section \<open>encoding/hex\<close>

definition hex_val :: "char \<Rightarrow> nat option" where
  "hex_val c =
     (let n = (of_char c :: nat) in
      if 48 \<le> n \<and> n \<le> 57 then Some (n - 48)
      else if 97 \<le> n \<and> n \<le> 102 then Some (n - 87)
      else if 65 \<le> n \<and> n \<le> 70 then Some (n - 55) else None)"

fun hex_decode :: "string \<Rightarrow> bytes res" where
  "hex_decode [] = Inr []"
| "hex_decode [c] =
     (if hex_val c = None then Inl (ExtErr ''encoding/hex: invalid byte'')
      else Inl (ExtErr ''encoding/hex: odd length hex string''))"
| "hex_decode (c # d # s) =
     (case (hex_val c, hex_val d) of
        (Some h, Some l) \<Rightarrow>
          (case hex_decode s of Inr bs \<Rightarrow> Inr (of_nat (16 * h + l) # bs) | Inl e \<Rightarrow> Inl e)
      | _ \<Rightarrow> Inl (ExtErr ''encoding/hex: invalid byte''))"

definition hex_char :: "nat \<Rightarrow> char" where
  "hex_char n = char_of (if n < 10 then 48 + n else 87 + n)"

fun hex_encode :: "bytes \<Rightarrow> string" where
  "hex_encode [] = []"
| "hex_encode (b # bs) = hex_char (unat b div 16) # hex_char (unat b mod 16) # hex_encode bs"

section \<open>encoding/base64\<close>

text \<open>
  An encoding is its alphabet (standard or URL) and whether it pads. The decoder skips carriage
  returns and newlines wherever they stand, is not strict about trailing bits, and accepts padding in
  the last quantum only.
\<close>

record b64_enc =
  b64_url :: bool
  b64_pad :: bool

definition StdEncoding :: b64_enc where "StdEncoding = \<lparr>b64_url = False, b64_pad = True\<rparr>"
definition RawStdEncoding :: b64_enc where "RawStdEncoding = \<lparr>b64_url = False, b64_pad = False\<rparr>"
definition URLEncoding :: b64_enc where "URLEncoding = \<lparr>b64_url = True, b64_pad = True\<rparr>"
definition RawURLEncoding :: b64_enc where "RawURLEncoding = \<lparr>b64_url = True, b64_pad = False\<rparr>"

definition b64_val :: "b64_enc \<Rightarrow> char \<Rightarrow> nat option" where
  "b64_val enc c =
     (let n = (of_char c :: nat) in
      if 65 \<le> n \<and> n \<le> 90 then Some (n - 65)
      else if 97 \<le> n \<and> n \<le> 122 then Some (n - 71)
      else if 48 \<le> n \<and> n \<le> 57 then Some (n + 4)
      else if c = (if b64_url enc then CHR ''-'' else CHR ''+'') then Some 62
      else if c = (if b64_url enc then CHR ''_'' else CHR ''/'') then Some 63 else None)"

definition b64_char :: "b64_enc \<Rightarrow> nat \<Rightarrow> char" where
  "b64_char enc v =
     (if v < 26 then char_of (65 + v) else if v < 52 then char_of (71 + v)
      else if v < 62 then char_of (v - 4)
      else if v = 62 then (if b64_url enc then CHR ''-'' else CHR ''+'')
      else (if b64_url enc then CHR ''_'' else CHR ''/''))"

definition byte1 :: "nat \<Rightarrow> nat \<Rightarrow> byte" where "byte1 a b = of_nat (a * 4 + b div 16)"
definition byte2 :: "nat \<Rightarrow> nat \<Rightarrow> byte" where "byte2 b c = of_nat (b mod 16 * 16 + c div 4)"
definition byte3 :: "nat \<Rightarrow> nat \<Rightarrow> byte" where "byte3 c d = of_nat (c mod 4 * 64 + d)"

fun b64_quanta :: "b64_enc \<Rightarrow> string \<Rightarrow> bytes option" where
  "b64_quanta enc [] = Some []"
| "b64_quanta enc [p] = None"
| "b64_quanta enc [p, q] =
     (if b64_pad enc then None
      else case (b64_val enc p, b64_val enc q) of (Some a, Some b) \<Rightarrow> Some [byte1 a b] | _ \<Rightarrow> None)"
| "b64_quanta enc [p, q, r] =
     (if b64_pad enc then None
      else case (b64_val enc p, b64_val enc q, b64_val enc r) of
          (Some a, Some b, Some c) \<Rightarrow> Some [byte1 a b, byte2 b c] | _ \<Rightarrow> None)"
| "b64_quanta enc (p # q # r # t # s) =
     (case (b64_val enc p, b64_val enc q) of
        (Some a, Some b) \<Rightarrow>
          (case b64_val enc r of
             None \<Rightarrow>
               if b64_pad enc \<and> r = CHR ''='' \<and> t = CHR ''='' \<and> s = [] then Some [byte1 a b] else None
           | Some c \<Rightarrow>
               (case b64_val enc t of
                  None \<Rightarrow>
                    if b64_pad enc \<and> t = CHR ''='' \<and> s = [] then Some [byte1 a b, byte2 b c] else None
                | Some d \<Rightarrow>
                    map_option (\<lambda>bs. byte1 a b # byte2 b c # byte3 c d # bs) (b64_quanta enc s)))
      | _ \<Rightarrow> None)"

definition b64_decode :: "b64_enc \<Rightarrow> string \<Rightarrow> bytes res" where
  "b64_decode enc s =
     (case b64_quanta enc (filter (\<lambda>c. (of_char c :: nat) \<noteq> 10 \<and> (of_char c :: nat) \<noteq> 13) s) of
        None \<Rightarrow> Inl (ExtErr ''illegal base64 data'') | Some bs \<Rightarrow> Inr bs)"

fun b64_encode :: "b64_enc \<Rightarrow> bytes \<Rightarrow> string" where
  "b64_encode enc [] = []"
| "b64_encode enc [x] =
     b64_char enc (unat x div 4) # b64_char enc (unat x mod 4 * 16)
     # (if b64_pad enc then ''=='' else [])"
| "b64_encode enc [x, y] =
     b64_char enc (unat x div 4) # b64_char enc (unat x mod 4 * 16 + unat y div 16)
     # b64_char enc (unat y mod 16 * 4) # (if b64_pad enc then ''='' else [])"
| "b64_encode enc (x # y # z # bs) =
     b64_char enc (unat x div 4) # b64_char enc (unat x mod 4 * 16 + unat y div 16)
     # b64_char enc (unat y mod 16 * 4 + unat z div 64) # b64_char enc (unat z mod 64)
     # b64_encode enc bs"

section \<open>encoding/binary\<close>

definition be16 :: "nat \<Rightarrow> bytes" where
  "be16 n = [of_nat (n div 256), of_nat n]"

definition be16_value :: "byte \<Rightarrow> byte \<Rightarrow> nat" where
  "be16_value h l = 256 * unat h + unat l"

definition le32 :: "32 word \<Rightarrow> bytes" where
  "le32 w =
     (let n = unat w in [of_nat n, of_nat (n div 256), of_nat (n div 65536), of_nat (n div 16777216)])"

definition le32_value :: "bytes \<Rightarrow> 32 word" where
  "le32_value bs =
     of_nat (unat (bs ! 0) + 256 * unat (bs ! 1) + 65536 * unat (bs ! 2) + 16777216 * unat (bs ! 3))"

section \<open>Round trips\<close>

lemma unat_byte_less [simp]: "unat (b :: byte) < 256"
  using unsigned_less[of b] by simp

lemma unat_of_nat_byte: "unat (of_nat n :: byte) = n mod 256"
  by (simp add: unat_of_nat)

lemma of_nat_byte_eq: "n = unat b \<Longrightarrow> (of_nat n :: byte) = b"
  by simp

lemma hex_val_char [simp]: "n < 16 \<Longrightarrow> hex_val (hex_char n) = Some n"
  by (auto simp: hex_val_def hex_char_def Let_def)

lemma hex_decode_encode [simp]: "hex_decode (hex_encode bs) = Inr bs"
proof (induction bs)
  case (Cons b bs)
  have "unat b div 16 < 16" "unat b mod 16 < 16" using unat_byte_less[of b] by linarith+
  moreover have "16 * (unat b div 16) + unat b mod 16 = unat b" by simp
  ultimately show ?case using Cons by (simp add: of_nat_byte_eq)
qed simp

lemma b64_val_char [simp]: "v < 64 \<Longrightarrow> b64_val enc (b64_char enc v) = Some v"
  by (auto simp: b64_val_def b64_char_def Let_def)

lemma b64_val_pad [simp]: "b64_val enc (CHR ''='') = None"
  by (simp add: b64_val_def)

lemma b64_char_not_newline:
  "v < 64 \<Longrightarrow> (of_char (b64_char enc v) :: nat) \<noteq> 10 \<and> (of_char (b64_char enc v) :: nat) \<noteq> 13"
  by (auto simp: b64_char_def)

lemma byte_parts:
  "unat (x :: byte) div 4 < 64" "unat x mod 4 * 16 + unat (y :: byte) div 16 < 64"
  "unat y mod 16 * 4 + unat (z :: byte) div 64 < 64" "unat x mod 4 * 16 < 64" "unat y mod 16 * 4 < 64"
  "unat z mod 64 < 64"
  using unat_byte_less[of x] unat_byte_less[of y] unat_byte_less[of z] by linarith+

lemma byte_joins:
  "byte1 (unat x div 4) (unat x mod 4 * 16 + unat (y :: byte) div 16) = x"
  "byte1 (unat x div 4) (unat x mod 4 * 16) = x"
  "byte2 (unat x mod 4 * 16 + unat y div 16) (unat y mod 16 * 4 + unat (z :: byte) div 64) = y"
  "byte2 (unat x mod 4 * 16 + unat y div 16) (unat y mod 16 * 4) = y"
  "byte3 (unat y mod 16 * 4 + unat z div 64) (unat z mod 64) = z"
proof -
  have y: "unat y div 16 < 16" and z: "unat z div 64 < 4"
    using unat_byte_less[of y] unat_byte_less[of z] by linarith+
  have q: "(m * 16 + k) div 16 = m" "(m * 16 + k) mod 16 = k" if "k < 16" for m k :: nat
    using that by simp_all
  have r: "(m * 4 + k) div 4 = m" "(m * 4 + k) mod 4 = k" if "k < 4" for m k :: nat
    using that by simp_all
  have s4: "m * 4 div 4 = m" for m :: nat by simp
  show "byte1 (unat x div 4) (unat x mod 4 * 16 + unat y div 16) = x"
    unfolding byte1_def by (rule of_nat_byte_eq) (simp only: q[OF y] div_mult_mod_eq)
  show "byte1 (unat x div 4) (unat x mod 4 * 16) = x"
    unfolding byte1_def by (rule of_nat_byte_eq) simp
  show "byte2 (unat x mod 4 * 16 + unat y div 16) (unat y mod 16 * 4 + unat z div 64) = y"
    unfolding byte2_def by (rule of_nat_byte_eq) (simp only: q[OF y] r[OF z] div_mult_mod_eq)
  show "byte2 (unat x mod 4 * 16 + unat y div 16) (unat y mod 16 * 4) = y"
    unfolding byte2_def by (rule of_nat_byte_eq) (simp only: q[OF y] s4 div_mult_mod_eq)
  show "byte3 (unat y mod 16 * 4 + unat z div 64) (unat z mod 64) = z"
    unfolding byte3_def by (rule of_nat_byte_eq) (simp only: r[OF z] div_mult_mod_eq)
qed

lemma b64_quanta_encode [simp]: "b64_quanta enc (b64_encode enc bs) = Some bs"
  by (induction enc bs rule: b64_encode.induct) (simp_all add: byte_parts byte_joins)

lemma b64_encode_no_newline:
  "filter (\<lambda>c. (of_char c :: nat) \<noteq> 10 \<and> (of_char c :: nat) \<noteq> 13) (b64_encode enc bs) = b64_encode enc bs"
  by (induction enc bs rule: b64_encode.induct) (simp_all add: byte_parts b64_char_not_newline)

lemma b64_decode_encode [simp]: "b64_decode enc (b64_encode enc bs) = Inr bs"
  by (simp add: b64_decode_def b64_encode_no_newline)

lemma length_be16 [simp]: "length (be16 n) = 2"
  by (simp add: be16_def)

lemma be16_value_be16 [simp]: "n < 65536 \<Longrightarrow> be16_value (be16 n ! 0) (be16 n ! Suc 0) = n"
  by (simp add: be16_value_def be16_def unat_of_nat)

lemma be16_value_bound [go_bounds]: "be16_value h l < 65536"
proof -
  have "unat h \<le> 255" "unat l \<le> 255" using unat_byte_less[of h] unat_byte_less[of l] by linarith+
  then show ?thesis by (simp add: be16_value_def)
qed

lemma length_le32 [simp]: "length (le32 w) = 4"
  by (simp add: le32_def Let_def)

lemma le32_value_le32 [simp]: "le32_value (le32 w) = w"
proof -
  define n where "n = unat w"
  have lt: "n < 4294967296" using unsigned_less[of w] by (simp add: n_def)
  have "n mod 256 + 256 * (n div 256 mod 256) = n mod 65536"
    using mod_mult2_eq[of n 256 256] by simp
  moreover have "n mod 65536 + 65536 * (n div 65536 mod 256) = n mod 16777216"
    using mod_mult2_eq[of n 65536 256] by simp
  moreover have "n mod 16777216 + 16777216 * (n div 16777216 mod 256) = n mod 4294967296"
    using mod_mult2_eq[of n 16777216 256] by simp
  moreover have "n mod 4294967296 = n" using lt by simp
  ultimately have "n mod 256 + 256 * (n div 256 mod 256) + 65536 * (n div 65536 mod 256)
      + 16777216 * (n div 16777216 mod 256) = n" by simp
  then have "(of_nat (n mod 256 + 256 * (n div 256 mod 256) + 65536 * (n div 65536 mod 256)
      + 16777216 * (n div 16777216 mod 256)) :: 32 word) = w"
    by (simp only: n_def of_nat_unat ucast_id)
  moreover have "le32_value (le32 w) = of_nat (n mod 256 + 256 * (n div 256 mod 256)
      + 65536 * (n div 65536 mod 256) + 16777216 * (n div 16777216 mod 256))"
    unfolding le32_value_def le32_def Let_def n_def[symmetric]
    by (simp only: numeral_2_eq_2 numeral_3_eq_3 One_nat_def nth_Cons_0 nth_Cons_Suc unat_of_nat_byte)
  ultimately show ?thesis by simp
qed

end
