(* ===== verification/Transport_Options.thy ===== *)
theory Transport_Options
  imports Go_Codec
begin

text \<open>
  The option structs of \<^verbatim>\<open>libv2ray_fetch.go\<close> (lines 76 to 205): \<^verbatim>\<open>echOptions\<close>, \<^verbatim>\<open>transportOptions\<close>,
  \<^verbatim>\<open>fetchOptions\<close> and \<^verbatim>\<open>dohOptions\<close>, with the two accessors that only read them. A field keeps its Go name after
  the record's prefix. A pointer is an \<^typ>\<open>'a option\<close>. The fragment mask is xray's own type: it is
  carried as the JSON text it is parsed from and handed to xray's \<^verbatim>\<open>Build\<close> later. A Go map is the list
  of its entries in one iteration order.
\<close>

type_synonym fragmentMask = string

record echOptions =
  ech_Domain :: string
  ech_DoH :: string
  ech_ConfigList :: string
  ech_Probe :: string

record transportOptions =
  opt_Proxy :: string
  opt_IP :: string
  opt_Timeout :: int
  opt_AllowInsecure :: bool
  opt_ServerName :: string
  opt_DisableChromeParrot :: bool
  opt_ALPN :: string
  opt_QUICVersion :: string
  opt_WNoise :: string
  opt_WNoiseCount :: string
  opt_WNoiseDelay :: string
  opt_WPayloadSize :: string
  opt_Fingerprint :: string
  opt_Fragment :: "fragmentMask option"
  opt_Ech :: "echOptions option"
  opt_Browser :: string
  opt_Variant :: string
  opt_UserAgent :: string
  opt_Headers :: "(string \<times> string) list"

record fetchOptions = transportOptions +
  fo_URL :: string
  fo_Method :: string
  fo_Data :: string

record dohOptions = transportOptions +
  do_Domain :: string
  do_Type :: string
  do_Server :: string

text \<open>Go's zero value of the struct: what an options JSON that sets no key decodes to.\<close>

definition zeroOptions :: transportOptions where
  "zeroOptions =
     \<lparr>opt_Proxy = '''', opt_IP = '''', opt_Timeout = 0, opt_AllowInsecure = False,
      opt_ServerName = '''', opt_DisableChromeParrot = False, opt_ALPN = '''', opt_QUICVersion = '''',
      opt_WNoise = '''', opt_WNoiseCount = '''', opt_WNoiseDelay = '''', opt_WPayloadSize = '''',
      opt_Fingerprint = '''', opt_Fragment = None, opt_Ech = None, opt_Browser = '''',
      opt_Variant = '''', opt_UserAgent = '''', opt_Headers = []\<rparr>"

definition defaultTimeoutMs :: int where "defaultTimeoutMs = 8000"

definition timeout :: "('a transportOptions_scheme) \<Rightarrow> duration" where
  "timeout o' =
     (if opt_Timeout o' \<le> 0 then defaultTimeoutMs * millisecond
      else wrap64 (opt_Timeout o' * millisecond))"

definition echEnabled :: "('a transportOptions_scheme) \<Rightarrow> bool" where
  "echEnabled o' =
     (case opt_Ech o' of None \<Rightarrow> False
      | Some e \<Rightarrow> ech_DoH e \<noteq> '''' \<or> ech_ConfigList e \<noteq> '''' \<or> ech_Probe e \<noteq> '''')"

text \<open>
  The timeout of every request is positive for every requested number of milliseconds up to
  9223372036854 (about 292 years), the default included, and is then exactly the requested one.
\<close>

theorem timeout_positive:
  assumes "opt_Timeout o' \<le> 9223372036854"
  shows "0 < timeout o' \<and> timeout o' = (if opt_Timeout o' \<le> 0 then 8000 else opt_Timeout o') * millisecond"
proof (cases "opt_Timeout o' \<le> 0")
  case False
  then have "in_int64 (opt_Timeout o' * millisecond)" using assms by (simp add: in_int64_def)
  with False show ?thesis by (simp add: timeout_def)
qed (simp add: timeout_def defaultTimeoutMs_def)

theorem timeout_positive_witness:
  "opt_Timeout (zeroOptions\<lparr>opt_Timeout := 1500\<rparr>) \<le> 9223372036854
   \<and> timeout (zeroOptions\<lparr>opt_Timeout := 1500\<rparr>) = 1500000000"
  using timeout_positive[of "zeroOptions\<lparr>opt_Timeout := 1500\<rparr>"] by simp

end
