(* ===== verification/Dialing.thy ===== *)
theory Dialing
  imports Transport_Options
begin

text \<open>
  The dialing half of \<^verbatim>\<open>libv2ray_fetch.go\<close> (lines 339 to 470 and 908 to 918): \<open>rawDial\<close>, \<open>dialViaProxy\<close>,
  \<open>proxyConnect\<close>, \<open>fragmentConfig\<close> and \<open>canonicalAddr\<close>.

  The network is seen through a history: the list of everything the program has done so far, oldest
  first. What the network answers to an action is an argument of the model that may depend on the whole
  history, so a statement about every environment covers peers that change their mind. A connection is
  named by the position of the event that opened it, which makes names fresh. xray's fragment package
  and the SOCKS5 client of \<^verbatim>\<open>golang.org/x/net/proxy\<close> are parameters; the type \<open>'f\<close> stands for
  xray's fragment configuration.
\<close>

section \<open>Events\<close>

text \<open>The fields of \<^verbatim>\<open>tls.Config\<close> and \<^verbatim>\<open>utls.Config\<close> the program sets. An absent list or name is empty.\<close>

record tls_config =
  tc_ServerName :: string
  tc_InsecureSkipVerify :: bool
  tc_NextProtos :: "string list"
  tc_EchConfigList :: bytes
  tc_MinTLS13 :: bool
  tc_NameToVerify :: string
  tc_RejectionVerifySkipped :: bool
  tc_Capture :: bool

type_synonym connid = nat

datatype event =
    TcpDial string duration bool
  | SocksDial string "(string \<times> string) option" string bool
  | ConnWrite connid string
  | ReadResponse connid
  | SetDeadline connid "gotime option"
  | FragConn connid
  | ConnClose connid
  | StdHandshake connid tls_config
  | UtlsHandshake connid string tls_config
  | LockKey string
  | UnlockKey string
  | ListenUDP bool
  | NoiseBurst connid string "(bytes \<times> int) list"
  | QuicDial connid string tls_config bool
  | QuicClose connid
  | UdpClose connid
  | HttpConn connid
  | HttpDo string string "(string \<times> string list) list" string

type_synonym history = "event list"

text \<open>A parsed URL: what \<^verbatim>\<open>url.Parse\<close> leaves in the fields the program reads.\<close>

record url =
  u_Scheme :: string
  u_Host :: string
  u_User :: "(string \<times> string) option"

text \<open>\<^verbatim>\<open>URL.Hostname\<close> and \<^verbatim>\<open>URL.Port\<close>: the host text without its brackets and port, and the port.\<close>

definition url_split :: "string \<Rightarrow> string \<times> string" where
  "url_split h =
     (let (host, port) =
        (case split_last (CHR '':'') h of
           None \<Rightarrow> (h, [])
         | Some (before, after) \<Rightarrow> if list_all is_digit after then (before, after) else (h, []))
      in (if host \<noteq> [] \<and> hd host = CHR ''['' \<and> last host = CHR '']'' then butlast (tl host) else host, port))"

definition Hostname :: "url \<Rightarrow> string" where "Hostname u = fst (url_split (u_Host u))"
definition Port :: "url \<Rightarrow> string" where "Port u = snd (url_split (u_Host u))"

definition canonicalAddr :: "url \<Rightarrow> string" where
  "canonicalAddr u =
     (let port = (if Port u = [] then (if u_Scheme u = ''https'' then ''443'' else ''80'') else Port u)
      in join_host_port (Hostname u) port)"

section \<open>The model\<close>

text \<open>
  What is outside: \<open>url_parse\<close> is \<^verbatim>\<open>url.Parse\<close>, \<open>env_deadline\<close> the deadline of the context, \<open>env_tcp\<close> the outcome
  of a TCP dial, \<open>env_socks_new\<close>, \<open>env_socks_dial\<close> the SOCKS5 client, \<open>env_write\<close> and \<open>env_resp\<close> the outcome of
  writing the CONNECT request and of \<^verbatim>\<open>http.ReadResponse\<close> (the status code, the status text and how
  many bytes are left in the buffer), \<open>env_fragbuild\<close> is xray's \<^verbatim>\<open>FragmentMask.Build\<close> (an error, a
  message of another type, or a configuration), \<open>env_fragconn\<close> its \<^verbatim>\<open>NewConnClient\<close>.
\<close>

record 'f dial_env =
  url_parse :: "string \<Rightarrow> url res"
  env_now :: "history \<Rightarrow> gotime"
  env_deadline :: "gotime option"
  env_tcp :: "history \<Rightarrow> string \<Rightarrow> go_error option"
  env_socks_new :: "string \<Rightarrow> (string \<times> string) option \<Rightarrow> go_error option"
  env_socks_dial :: "history \<Rightarrow> string \<Rightarrow> (string \<times> string) option \<Rightarrow> string \<Rightarrow> go_error option"
  env_write :: "history \<Rightarrow> connid \<Rightarrow> string \<Rightarrow> go_error option"
  env_resp :: "history \<Rightarrow> connid \<Rightarrow> (int \<times> string \<times> nat) res"
  env_fragbuild :: "fragmentMask \<Rightarrow> (string + 'f) res"
  env_fragconn :: "'f \<Rightarrow> connid \<Rightarrow> go_error option"

definition fragmentConfig :: "('f, 'z) dial_env_scheme \<Rightarrow> ('a transportOptions_scheme) \<Rightarrow> 'f option res" where
  "fragmentConfig env o' =
     (case opt_Fragment o' of
        None \<Rightarrow> Inr None
      | Some fm \<Rightarrow>
          (case env_fragbuild env fm of
             Inl err \<Rightarrow> Inl (Wrapf ''invalid fragment: %w'' [] err)
           | Inr (Inl typ) \<Rightarrow> Inl (Errorf ''invalid fragment: unexpected config type %T'' [S typ])
           | Inr (Inr cfg) \<Rightarrow> Inr (Some cfg)))"

definition tcp_dial :: "('f, 'z) dial_env_scheme \<Rightarrow> duration \<Rightarrow> string \<Rightarrow> history \<Rightarrow> connid res \<times> history" where
  "tcp_dial env t addr tr =
     (case env_tcp env tr addr of
        Some err \<Rightarrow> (Inl err, tr @ [TcpDial addr t False])
      | None \<Rightarrow> (Inr (length tr), tr @ [TcpDial addr t True]))"

definition socks_dial :: "('f, 'z) dial_env_scheme \<Rightarrow> string \<Rightarrow> (string \<times> string) option \<Rightarrow> string \<Rightarrow> history
    \<Rightarrow> connid res \<times> history" where
  "socks_dial env host auth addr tr =
     (case env_socks_dial env tr host auth addr of
        Some err \<Rightarrow> (Inl err, tr @ [SocksDial host auth addr False])
      | None \<Rightarrow> (Inr (length tr), tr @ [SocksDial host auth addr True]))"

definition crlf :: string where "crlf = [CHR 0x0D, CHR 0x0A]"

definition connect_request :: "url \<Rightarrow> string \<Rightarrow> string" where
  "connect_request pu addr =
     ''CONNECT '' @ addr @ '' HTTP/1.1'' @ crlf @ ''Host: '' @ addr @ crlf
     @ (case u_User pu of
          None \<Rightarrow> []
        | Some (user, pw) \<Rightarrow>
            ''Proxy-Authorization: Basic ''
            @ b64_encode StdEncoding (map of_char (user @ '':'' @ pw)) @ crlf)
     @ crlf"

definition proxyConnect :: "('f, 'z) dial_env_scheme \<Rightarrow> connid \<Rightarrow> url \<Rightarrow> string \<Rightarrow> history
    \<Rightarrow> go_error option \<times> history" where
  "proxyConnect env conn pu addr tr =
     (let req = connect_request pu addr;
          tr0 = (case env_deadline env of None \<Rightarrow> tr | Some dl \<Rightarrow> tr @ [SetDeadline conn (Some dl)]);
          leave = (\<lambda>err t. (err, case env_deadline env of None \<Rightarrow> t | Some _ \<Rightarrow> t @ [SetDeadline conn None]));
          tr1 = tr0 @ [ConnWrite conn req];
          tr2 = tr1 @ [ReadResponse conn]
      in case env_write env tr0 conn req of
           Some err \<Rightarrow> leave (Some err) tr1
         | None \<Rightarrow>
             (case env_resp env tr1 conn of
                Inl err \<Rightarrow> leave (Some err) tr2
              | Inr (code, status, buffered) \<Rightarrow>
                  if code \<noteq> 200 then leave (Some (Errorf ''proxy CONNECT %s: %s'' [S addr, S status])) tr2
                  else if buffered > 0 then
                    leave (Some (Errorf ''proxy sent %d unexpected bytes after CONNECT'' [N (int buffered)])) tr2
                  else leave None tr2))"

definition dialViaProxy :: "('f, 'z) dial_env_scheme \<Rightarrow> ('a transportOptions_scheme) \<Rightarrow> string \<Rightarrow> history
    \<Rightarrow> connid res \<times> history" where
  "dialViaProxy env o' addr tr =
     (case url_parse env (opt_Proxy o') of
        Inl err \<Rightarrow> (Inl (Wrapf ''bad proxy url: %w'' [] err), tr)
      | Inr pu \<Rightarrow>
          let scheme = to_lower (u_Scheme pu) in
          if scheme = ''socks5'' \<or> scheme = ''socks5h'' then
            (case env_socks_new env (u_Host pu) (u_User pu) of
               Some err \<Rightarrow> (Inl err, tr)
             | None \<Rightarrow> socks_dial env (u_Host pu) (u_User pu) addr tr)
          else if scheme = ''http'' then
            (case tcp_dial env (timeout o') (u_Host pu) tr of
               (Inl err, tr1) \<Rightarrow> (Inl err, tr1)
             | (Inr conn, tr1) \<Rightarrow>
                 (case proxyConnect env conn pu addr tr1 of
                    (Some err, tr2) \<Rightarrow> (Inl err, tr2 @ [ConnClose conn])
                  | (None, tr2) \<Rightarrow> (Inr conn, tr2)))
          else (Inl (Errorf ''unsupported proxy scheme %q'' [S (u_Scheme pu)]), tr))"

text \<open>The address a dial goes to: the pinned IP replaces the host and keeps the port.\<close>

definition pin_addr :: "('a transportOptions_scheme) \<Rightarrow> string \<Rightarrow> string res" where
  "pin_addr o' addr =
     (if opt_IP o' \<noteq> [] then
        (case split_host_port addr of
           Inl serr \<Rightarrow> Inl (Wrapf ''cannot pin ip for %q: %w'' [S addr] serr)
         | Inr (_, port) \<Rightarrow> Inr (join_host_port (opt_IP o') port))
      else Inr addr)"

definition rawDial :: "('f, 'z) dial_env_scheme \<Rightarrow> ('a transportOptions_scheme) \<Rightarrow> string \<Rightarrow> 'f option \<Rightarrow> history
    \<Rightarrow> connid res \<times> history" where
  "rawDial env o' addr frag tr =
     (case pin_addr o' addr of
        Inl err \<Rightarrow> (Inl err, tr)
      | Inr addr' \<Rightarrow>
          (case (if opt_Proxy o' = [] then tcp_dial env (timeout o') addr' tr
                 else dialViaProxy env o' addr' tr) of
             (Inl err, tr1) \<Rightarrow> (Inl err, tr1)
           | (Inr conn, tr1) \<Rightarrow>
               (case frag of
                  None \<Rightarrow> (Inr conn, tr1)
                | Some fcfg \<Rightarrow>
                    (case env_fragconn env fcfg conn of
                       Some ferr \<Rightarrow> (Inl ferr, tr1 @ [FragConn conn, ConnClose conn])
                     | None \<Rightarrow> (Inr conn, tr1 @ [FragConn conn])))))"

section \<open>Connections that are open\<close>

fun opens :: "event \<Rightarrow> bool" where
  "opens (TcpDial _ _ b) = b"
| "opens (SocksDial _ _ _ b) = b"
| "opens (QuicDial _ _ _ b) = b"
| "opens (ListenUDP b) = b"
| "opens _ = False"

fun closes :: "event \<Rightarrow> nat set" where
  "closes (ConnClose i) = {i}"
| "closes (QuicClose i) = {i}"
| "closes (UdpClose i) = {i}"
| "closes (HttpConn i) = {i}"
| "closes _ = {}"

text \<open>
  The connections and sockets that are open and the program's to close, by the position of the event that
  opened them. \<open>HttpConn\<close> hands a connection over to the HTTP client, which closes it.
\<close>

definition open_conns :: "history \<Rightarrow> nat list" where
  "open_conns tr = filter (\<lambda>i. opens (tr ! i) \<and> \<not> list_ex (\<lambda>e. i \<in> closes e) tr) [0..<length tr]"

text \<open>Nothing is closed before it exists.\<close>

definition wf_history :: "history \<Rightarrow> bool" where
  "wf_history tr \<longleftrightarrow> (\<forall>e \<in> set tr. \<forall>i \<in> closes e. i < length tr)"

lemma wf_history_Nil [simp]: "wf_history []"
  by (simp add: wf_history_def)

lemma wf_history_append1: "wf_history tr \<Longrightarrow> \<forall>i \<in> closes e. i < length tr \<Longrightarrow> wf_history (tr @ [e])"
  by (auto simp: wf_history_def less_Suc_eq)

lemma open_conns_append1:
  assumes "wf_history tr"
  shows "set (open_conns (tr @ [e])) = set (open_conns tr) - closes e \<union> (if opens e then {length tr} else {})"
proof -
  have "\<not> list_ex (\<lambda>e. length tr \<in> closes e) tr" using assms by (auto simp: wf_history_def list_ex_iff)
  moreover have "length tr \<notin> closes e" if "opens e" using that by (cases e) auto
  ultimately show ?thesis
    by (auto simp: open_conns_def nth_append less_Suc_eq list_ex_iff)
qed

text \<open>
  The contract of everything that dials: the history only grows; a failed dial leaves no connection
  open that was not open before, a successful one leaves open exactly one more, the one it returns.
\<close>

definition dial_contract :: "history \<Rightarrow> connid res \<Rightarrow> history \<Rightarrow> bool" where
  "dial_contract tr r tr' \<longleftrightarrow>
     (\<exists>t. tr' = tr @ t)
     \<and> (wf_history tr \<longrightarrow>
          wf_history tr'
          \<and> (case r of
               Inl _ \<Rightarrow> set (open_conns tr') = set (open_conns tr)
             | Inr c \<Rightarrow> c \<notin> set (open_conns tr) \<and> c < length tr' \<and> set (open_conns tr') = insert c (set (open_conns tr))))"

text \<open>Events that neither open nor close a connection.\<close>

definition quiet :: "event \<Rightarrow> bool" where
  "quiet e \<longleftrightarrow> \<not> opens e \<and> closes e = {}"

lemma quiet_simps [simp]:
  "quiet (ConnWrite c s)" "quiet (ReadResponse c)" "quiet (SetDeadline c d)" "quiet (FragConn c)"
  "quiet (StdHandshake c cfg)" "quiet (UtlsHandshake c fp cfg)" "quiet (LockKey k)" "quiet (UnlockKey k)"
  "quiet (ListenUDP False)" "quiet (NoiseBurst c a ps)" "quiet (QuicDial c a cfg False)" "quiet (HttpDo m ur hs b)"
  "quiet (TcpDial a t False)" "quiet (SocksDial h u a False)"
  by (simp_all add: quiet_def)

lemma quiet_append:
  assumes "wf_history tr" and "list_all quiet t"
  shows "wf_history (tr @ t) \<and> set (open_conns (tr @ t)) = set (open_conns tr)"
  using assms(2)
proof (induction t rule: rev_induct)
  case (snoc e t)
  then have IH: "wf_history (tr @ t)" "set (open_conns (tr @ t)) = set (open_conns tr)" and q: "quiet e" by auto
  have "wf_history ((tr @ t) @ [e])" using q by (intro wf_history_append1 IH) (simp add: quiet_def)
  moreover have "set (open_conns ((tr @ t) @ [e])) = set (open_conns tr)"
    using q open_conns_append1[OF IH(1), of e] IH(2) by (simp add: quiet_def)
  ultimately show ?case by simp
qed (simp add: assms(1))

lemma open_conns_bound: "c \<in> set (open_conns tr) \<Longrightarrow> c < length tr"
  by (simp add: open_conns_def)

lemma contract_refuse: "dial_contract tr (Inl err) tr"
  by (auto simp: dial_contract_def)

lemma contract_refuse_quiet: "list_all quiet t \<Longrightarrow> dial_contract tr (Inl err) (tr @ t)"
  using quiet_append[of tr t] by (auto simp: dial_contract_def)

lemma contract_open: "opens e \<Longrightarrow> closes e = {} \<Longrightarrow> dial_contract tr (Inr (length tr)) (tr @ [e])"
  using open_conns_append1[of tr e] wf_history_append1[of tr e]
  by (auto simp: dial_contract_def dest: open_conns_bound)

lemma contract_quiet:
  assumes "dial_contract tr r tr'" and "list_all quiet t"
  shows "dial_contract tr r (tr' @ t)"
proof -
  have "wf_history tr' \<Longrightarrow> wf_history (tr' @ t) \<and> set (open_conns (tr' @ t)) = set (open_conns tr')"
    using quiet_append[OF _ assms(2)] by blast
  with assms(1) show ?thesis by (auto simp: dial_contract_def split: sum.splits)
qed

lemma contract_close_by:
  assumes "dial_contract tr (Inr c) tr'" and "list_all quiet t" and "closes e = {c}" and "\<not> opens e"
  shows "dial_contract tr (Inl err) (tr' @ t @ [e])"
proof -
  have q: "dial_contract tr (Inr c) (tr' @ t)" by (rule contract_quiet[OF assms(1,2)])
  then obtain t' where t': "tr' @ t = tr @ t'" by (auto simp: dial_contract_def)
  have "wf_history (tr' @ t @ [e]) \<and> set (open_conns (tr' @ t @ [e])) = set (open_conns tr)"
    if "wf_history tr"
    using q that assms(3,4) wf_history_append1[of "tr' @ t" e] open_conns_append1[of "tr' @ t" e]
    by (auto simp: dial_contract_def)
  moreover have "\<exists>t''. tr' @ t @ [e] = tr @ t''" using t' by (metis append.assoc)
  ultimately show ?thesis by (auto simp: dial_contract_def)
qed

lemma contract_close:
  "dial_contract tr (Inr c) tr' \<Longrightarrow> list_all quiet t \<Longrightarrow> dial_contract tr (Inl err) (tr' @ t @ [ConnClose c])"
  by (rule contract_close_by) simp_all

lemma tcp_dial_contract: "tcp_dial env t addr tr = (r, tr') \<Longrightarrow> dial_contract tr r tr'"
  by (auto simp: tcp_dial_def contract_open contract_refuse_quiet split: option.splits)

lemma socks_dial_contract: "socks_dial env h auth addr tr = (r, tr') \<Longrightarrow> dial_contract tr r tr'"
  by (auto simp: socks_dial_def contract_open contract_refuse_quiet split: option.splits)

lemma proxyConnect_quiet:
  "proxyConnect env conn pu addr tr = (r, tr') \<Longrightarrow> \<exists>t. tr' = tr @ t \<and> list_all quiet t"
  by (auto simp: proxyConnect_def Let_def split: option.splits sum.splits if_splits prod.splits)

lemma dialViaProxy_contract: "dialViaProxy env o' addr tr = (r, tr') \<Longrightarrow> dial_contract tr r tr'"
proof -
  assume h: "dialViaProxy env o' addr tr = (r, tr')"
  show ?thesis
  proof (cases "url_parse env (opt_Proxy o')")
    case (Inl err)
    with h show ?thesis by (auto simp: dialViaProxy_def contract_refuse)
  next
    case (Inr pu)
    obtain r1 tr1 where d: "tcp_dial env (timeout o') (u_Host pu) tr = (r1, tr1)" by fastforce
    have c1: "dial_contract tr r1 tr1" by (rule tcp_dial_contract[OF d])
    obtain e2 tr2 where p: "proxyConnect env (case r1 of Inr c \<Rightarrow> c | Inl _ \<Rightarrow> 0) pu addr tr1 = (e2, tr2)"
      by fastforce
    obtain t where t: "tr2 = tr1 @ t" "list_all quiet t" using proxyConnect_quiet[OF p] by blast
    show ?thesis
    proof (cases "to_lower (u_Scheme pu) = ''http''")
      case True
      have "dial_contract tr (Inr c) (tr1 @ t)" "dial_contract tr (Inl err) (tr1 @ t @ [ConnClose c])" if "r1 = Inr c" for c err
        using contract_quiet[of tr "Inr c" tr1 t] contract_close[of tr c tr1 t] c1 t(2) that by auto
      with h True Inr d p c1 t show ?thesis
        by (auto simp: dialViaProxy_def Let_def split: sum.splits option.splits)
    next
      case False
      with h Inr show ?thesis
        by (auto simp: dialViaProxy_def Let_def contract_refuse dest: socks_dial_contract split: if_splits option.splits)
    qed
  qed
qed

lemma rawDial_contract:
  assumes "rawDial env o' addr frag tr = (r, tr')"
  shows "dial_contract tr r tr'"
proof (cases "pin_addr o' addr")
  case (Inl err)
  with assms show ?thesis by (auto simp: rawDial_def contract_refuse)
next
  case (Inr a)
  obtain r1 tr1 where d: "(if opt_Proxy o' = [] then tcp_dial env (timeout o') a tr else dialViaProxy env o' a tr) = (r1, tr1)"
    by fastforce
  then have c: "dial_contract tr r1 tr1"
    by (auto split: if_splits dest: tcp_dial_contract dialViaProxy_contract)
  show ?thesis
  proof (cases r1)
    case Inl
    with assms Inr d c show ?thesis by (auto simp: rawDial_def)
  next
    case (Inr conn)
    then have "dial_contract tr (Inr conn) (tr1 @ [FragConn conn])"
      "dial_contract tr (Inl err) (tr1 @ [FragConn conn, ConnClose conn])" for err
      using c contract_quiet[of tr "Inr conn" tr1 "[FragConn conn]"] contract_close[of tr conn tr1 "[FragConn conn]"]
      by simp_all
    with assms \<open>pin_addr o' addr = Inr a\<close> d c Inr show ?thesis
      by (auto simp: rawDial_def split: option.splits)
  qed
qed

section \<open>Dialers as an interface\<close>

text \<open>
  What a transport gets from the code: a function that dials a target, with some state of its own that may
  hold connections back (\<open>held\<close>). The contract, relative to what is held: a failed dial changes nothing
  for the outside, a successful one adds exactly the connection it returns.
\<close>

definition held_contract :: "nat set \<Rightarrow> history \<Rightarrow> connid res \<Rightarrow> nat set \<Rightarrow> history \<Rightarrow> bool" where
  "held_contract h tr r h' tr' \<longleftrightarrow>
     (\<exists>t. tr' = tr @ t)
     \<and> (wf_history tr \<and> h \<subseteq> set (open_conns tr) \<longrightarrow>
          wf_history tr' \<and> h' \<subseteq> set (open_conns tr')
          \<and> (case r of
               Inl _ \<Rightarrow> set (open_conns tr') - h' = set (open_conns tr) - h
             | Inr c \<Rightarrow> c \<notin> set (open_conns tr) - h
                 \<and> set (open_conns tr') - h' = insert c (set (open_conns tr) - h)))"

lemma held_frame: "dial_contract tr r tr' \<Longrightarrow> held_contract h tr r h tr'"
  by (auto simp: dial_contract_def held_contract_def split: sum.splits)

fun dial_all :: "('h \<Rightarrow> 's \<Rightarrow> history \<Rightarrow> connid res \<times> 's \<times> history) \<Rightarrow> 'h list \<Rightarrow> 's \<Rightarrow> history
    \<Rightarrow> connid list \<times> go_error option \<times> 's \<times> history" where
  "dial_all dial [] s tr = ([], None, s, tr)"
| "dial_all dial (a # as) s tr =
     (case dial a s tr of
        (Inl err, s1, tr1) \<Rightarrow> ([], Some err, s1, tr1)
      | (Inr c, s1, tr1) \<Rightarrow>
          (case dial_all dial as s1 tr1 of (cs, e, s2, tr2) \<Rightarrow> (c # cs, e, s2, tr2)))"

locale dialer =
  fixes dial :: "'h \<Rightarrow> 's \<Rightarrow> history \<Rightarrow> connid res \<times> 's \<times> history"
    and held :: "'s \<Rightarrow> nat set"
  assumes contract: "dial addr s tr = (r, s', tr') \<Longrightarrow> held_contract (held s) tr r (held s') tr'"
begin

lemma dial_all_holds:
  assumes "wf_history tr" and "held s \<subseteq> set (open_conns tr)" and "dial_all dial addrs s tr = (cs, e, s', tr')"
  shows "wf_history tr' \<and> held s' \<subseteq> set (open_conns tr') \<and> distinct cs
    \<and> set cs \<inter> (set (open_conns tr) - held s) = {}
    \<and> set (open_conns tr') - held s' = (set (open_conns tr) - held s) \<union> set cs \<and> (\<exists>t. tr' = tr @ t)"
  using assms
proof (induction addrs arbitrary: s tr cs)
  case (Cons a as)
  obtain r s1 tr1 where d: "dial a s tr = (r, s1, tr1)" by (rule prod_cases3)
  note C = contract[OF d, unfolded held_contract_def]
  show ?case
  proof (cases r)
    case (Inl err)
    with Cons.prems d C show ?thesis by auto
  next
    case (Inr c)
    obtain cs1 where rec: "dial_all dial as s1 tr1 = (cs1, e, s', tr')" "cs = c # cs1"
      using Cons.prems(3) d Inr by (auto split: prod.splits)
    have w: "wf_history tr1" "held s1 \<subseteq> set (open_conns tr1)"
      "set (open_conns tr1) - held s1 = insert c (set (open_conns tr) - held s)" "c \<notin> set (open_conns tr) - held s"
      "\<exists>t. tr1 = tr @ t"
      using C Cons.prems(1,2) Inr by auto
    show ?thesis using Cons.IH[OF w(1,2) rec(1)] w(3-5) rec(2) by auto
  qed
qed simp

end

definition raw_dialer :: "('f, 'z) dial_env_scheme \<Rightarrow> ('a transportOptions_scheme) \<Rightarrow> 'f option
    \<Rightarrow> string \<Rightarrow> 's \<Rightarrow> history \<Rightarrow> connid res \<times> 's \<times> history" where
  "raw_dialer env o' frag addr s tr = (case rawDial env o' addr frag tr of (r, tr') \<Rightarrow> (r, s, tr'))"

interpretation raw: dialer "raw_dialer env o' frag" "\<lambda>_. {}"
  by unfold_locales (auto simp: raw_dialer_def split: prod.splits dest!: rawDial_contract intro: held_frame)

text \<open>
  C27: opening connections never leaks one. Whatever the network, the proxy and xray's fragment writer
  answer, a raw dial that fails has closed everything it opened (a refused CONNECT and a refused
  fragment configuration included), and one that succeeds returns the only new open connection. So
  after any sequence of dials the open connections are the earlier ones and those handed out.
\<close>

theorem rawDial_no_leak:
  assumes "wf_history tr" and "dial_all (raw_dialer env o' frag) addrs () tr = (cs, e, s', tr')"
  shows "distinct cs \<and> set cs \<inter> set (open_conns tr) = {} \<and> set (open_conns tr') = set (open_conns tr) \<union> set cs"
  using raw.dial_all_holds[OF assms(1) _ assms(2)] by auto

definition demo_net :: "unit dial_env" where
  "demo_net = \<lparr>url_parse = (\<lambda>_. Inr \<lparr>u_Scheme = ''http'', u_Host = ''10.0.0.1:8080'', u_User = Some (''u'', ''p'')\<rparr>),
     env_now = (\<lambda>_. 0), env_deadline = Some 9, env_tcp = (\<lambda>_ _. None), env_socks_new = (\<lambda>_ _. None),
     env_socks_dial = (\<lambda>_ _ _ _. None), env_write = (\<lambda>_ _ _. None),
     env_resp = (\<lambda>tr _. if length tr < 5 then Inr (200, ''200 OK'', 0) else Inr (407, ''407'', 0)),
     env_fragbuild = (\<lambda>_. Inr (Inr ())), env_fragconn = (\<lambda>_ _. None)\<rparr>"

theorem rawDial_no_leak_witness:
  "set (open_conns (snd (snd (snd (dial_all (raw_dialer demo_net (zeroOptions\<lparr>opt_Proxy := ''http://p''\<rparr>) None)
      [''a:443'', ''b:443''] () []))))) = {0}"
proof -
  let ?R = "dial_all (raw_dialer demo_net (zeroOptions\<lparr>opt_Proxy := ''http://p''\<rparr>) None) [''a:443'', ''b:443''] () []"
  have f: "fst ?R = [0]" by code_simp
  obtain cs e s' tr' where R: "?R = (cs, e, s', tr')" by (metis prod_cases4)
  have "set (open_conns tr') = set (open_conns []) \<union> set cs"
    using rawDial_no_leak[OF wf_history_Nil R] by blast
  with f R show ?thesis by (simp add: open_conns_def)
qed

section \<open>Pinned addresses and proxies\<close>

text \<open>
  The specification of where a dial goes. Without a proxy the only thing shown to the network is the
  address itself; with one, the network sees the proxy's address, and the proxy is told the address.
\<close>

fun goes_to :: "url option \<Rightarrow> string \<Rightarrow> event \<Rightarrow> bool" where
  "goes_to None addr (TcpDial a _ _) = (a = addr)"
| "goes_to None addr (SocksDial _ _ _ _) = False"
| "goes_to None addr (ConnWrite _ _) = False"
| "goes_to (Some pu) addr (TcpDial a _ _) = (a = u_Host pu)"
| "goes_to (Some pu) addr (SocksDial h auth a _) = (h = u_Host pu \<and> auth = u_User pu \<and> a = addr)"
| "goes_to (Some pu) addr (ConnWrite _ s) = (s = connect_request pu addr)"
| "goes_to _ addr _ = True"

lemma goes_to_other [simp]:
  "goes_to p addr (SetDeadline c d)" "goes_to p addr (ReadResponse c)" "goes_to p addr (FragConn c)"
  "goes_to p addr (ConnClose c)"
  by (cases p; simp)+

lemma proxyConnect_goes_to:
  "proxyConnect env conn pu addr tr = (r, tr') \<Longrightarrow> \<exists>t. tr' = tr @ t \<and> list_all (goes_to (Some pu) addr) t"
  by (auto simp: proxyConnect_def Let_def split: option.splits sum.splits if_splits prod.splits)

lemma dialViaProxy_goes_to:
  assumes "url_parse env (opt_Proxy o') = Inr pu" and "dialViaProxy env o' addr tr = (r, tr')"
  shows "\<exists>t. tr' = tr @ t \<and> list_all (goes_to (Some pu) addr) t"
proof (cases "to_lower (u_Scheme pu) = ''http''")
  case True
  obtain r1 tr1 where d: "tcp_dial env (timeout o') (u_Host pu) tr = (r1, tr1)" by fastforce
  then obtain b where tr1: "tr1 = tr @ [TcpDial (u_Host pu) (timeout o') b]"
    by (auto simp: tcp_dial_def split: option.splits)
  show ?thesis
  proof (cases r1)
    case Inl
    with assms d True tr1 show ?thesis by (auto simp: dialViaProxy_def Let_def)
  next
    case (Inr conn)
    obtain e2 tr2 where p: "proxyConnect env conn pu addr tr1 = (e2, tr2)" by fastforce
    from proxyConnect_goes_to[OF p] assms d True tr1 Inr p show ?thesis
      by (auto simp: dialViaProxy_def Let_def split: option.splits)
  qed
next
  case False
  with assms show ?thesis
    by (auto simp: dialViaProxy_def socks_dial_def Let_def split: if_splits option.splits)
qed

definition proxy_url_ok :: "('f, 'z) dial_env_scheme \<Rightarrow> ('a transportOptions_scheme) \<Rightarrow> url option \<Rightarrow> bool" where
  "proxy_url_ok env o' p =
     (case p of None \<Rightarrow> opt_Proxy o' = [] | Some pu \<Rightarrow> opt_Proxy o' \<noteq> [] \<and> url_parse env (opt_Proxy o') = Inr pu)"

lemma rawDial_goes_to:
  assumes "proxy_url_ok env o' p" and "pin_addr o' addr = Inr a" and "rawDial env o' addr frag tr = (r, tr')"
  shows "\<exists>t. tr' = tr @ t \<and> list_all (goes_to p a) t"
proof -
  obtain r1 tr1 where d: "(if opt_Proxy o' = [] then tcp_dial env (timeout o') a tr else dialViaProxy env o' a tr) = (r1, tr1)"
    by fastforce
  have "\<exists>t. tr1 = tr @ t \<and> list_all (goes_to p a) t"
  proof (cases p)
    case None
    with assms(1) d show ?thesis by (auto simp: proxy_url_ok_def tcp_dial_def split: option.splits)
  next
    case (Some pu)
    with assms(1) d dialViaProxy_goes_to[of env o' pu a tr r1 tr1] show ?thesis by (simp add: proxy_url_ok_def)
  qed
  with assms(2,3) d show ?thesis
    by (auto simp: rawDial_def split: sum.splits option.splits)
qed



text \<open>
  A CONNECT is accepted on exactly one condition: the request was written, the proxy answered 200,
  and nothing followed its response, so no byte of the tunnelled stream can have been swallowed by the
  reader. A deadline that was set on the connection is removed again on every path.
\<close>

theorem proxyConnect_accepts:
  "(fst (proxyConnect env conn pu addr tr) = None) =
     (let tr0 = (case env_deadline env of None \<Rightarrow> tr | Some dl \<Rightarrow> tr @ [SetDeadline conn (Some dl)]);
          req = connect_request pu addr
      in env_write env tr0 conn req = None
         \<and> (case env_resp env (tr0 @ [ConnWrite conn req]) conn of
              Inl _ \<Rightarrow> False
            | Inr (code, status, buffered) \<Rightarrow> code = 200 \<and> buffered = 0))
   \<and> (env_deadline env = None \<or> last (snd (proxyConnect env conn pu addr tr)) = SetDeadline conn None)"
  unfolding proxyConnect_def Let_def
  by (cases "env_deadline env") (auto split: option.splits sum.splits)

lemma digit_not_bracket: "\<not> is_digit (CHR '']'')"
  by (simp add: is_digit_def)

lemma url_split_host:
  assumes "set host \<inter> {CHR ''['', CHR '']''} = {}" and "CHR '':'' \<notin> set host \<or> v6"
    and "list_all is_digit port"
    and "h = (if v6 then ''['' @ host @ '']'' else host) @ (if port = [] then [] else '':'' @ port)"
  shows "url_split h = (host, port)"
proof (cases "port = []")
  case False
  have "CHR '':'' \<notin> set port" using assms(3) by (auto simp: list_all_iff is_digit_def)
  then have "split_last (CHR '':'') ((if v6 then ''['' @ host @ '']'' else host) @ CHR '':'' # port)
      = Some (if v6 then ''['' @ host @ '']'' else host, port)"
    by (rule split_last_append)
  then have "split_last (CHR '':'') h = Some (if v6 then ''['' @ host @ '']'' else host, port)"
    using assms(4) False by simp
  then show ?thesis using assms(1,3) by (cases host) (auto simp: url_split_def)
next
  case True
  show ?thesis
  proof (cases "split_last (CHR '':'') h")
    case None
    have "url_split h = (if h \<noteq> [] \<and> hd h = CHR ''['' \<and> last h = CHR '']'' then butlast (tl h) else h, [])"
      unfolding url_split_def None by simp
    then show ?thesis using assms(1,4) True by (cases host) auto
  next
    case (Some ba)
    obtain b a where ba: "ba = (b, a)" by fastforce
    then have h: "h = b @ CHR '':'' # a" "CHR '':'' \<notin> set a" using split_last_Some Some by auto
    have v6: v6 using Some assms(2,4) True by (metis append_Nil2 option.distinct(1) split_last_None)
    then have "last h = CHR '']''" using assms(4) True by simp
    then have "a \<noteq> [] \<and> last a = CHR '']''" using h by (cases a) auto
    then have "\<not> list_all is_digit a"
      by (metis (no_types, lifting) Ball_set digit_not_bracket last_in_set)
    then show ?thesis using Some ba v6 assms(4) True by (simp add: url_split_def)
  qed
qed

text \<open>
  The address a request dials is its host and its explicit port, or the default port of its
  scheme, and a dialer reads exactly these back from it, for host names, IPv4 and bracketed IPv6
  addresses.
\<close>

theorem canonicalAddr_roundtrip:
  assumes "set host \<inter> {CHR ''['', CHR '']''} = {}" and "CHR '':'' \<notin> set host \<or> v6"
    and "list_all is_digit port"
    and "u_Host u = (if v6 then ''['' @ host @ '']'' else host) @ (if port = [] then [] else '':'' @ port)"
  shows "Hostname u = host
    \<and> split_host_port (canonicalAddr u)
      = Inr (host, if port \<noteq> [] then port else if u_Scheme u = ''https'' then ''443'' else ''80'')"
proof -
  have pd: "set port \<inter> {CHR '':'', CHR ''['', CHR '']''} = {}"
    using assms(3) by (auto simp: list_all_iff is_digit_def)
  have "url_split (u_Host u) = (host, port)"
    by (rule url_split_host[OF assms])
  then show ?thesis
    using assms(1) pd by (auto simp: Hostname_def Port_def canonicalAddr_def Let_def intro!: split_join_host_port)
qed

theorem canonicalAddr_roundtrip_witness:
  "split_host_port (canonicalAddr \<lparr>u_Scheme = ''https'', u_Host = ''[2606:4700::1]'', u_User = None\<rparr>)
   = Inr (''2606:4700::1'', ''443'')"
  using canonicalAddr_roundtrip[of "''2606:4700::1''" True "[]"
      "\<lparr>u_Scheme = ''https'', u_Host = ''[2606:4700::1]'', u_User = None\<rparr>"]
  by simp

end
