(* ===== verification/Noise.thy ===== *)
theory Noise
  imports Transport_Options
begin

unbundle bit_operations_syntax

text \<open>
  \<^verbatim>\<open>libv2ray_fetch_noise.go\<close>: the junk datagrams sent on a UDP socket before the handshake. The plan is
  the record \<open>noiseConfig\<close>; \<open>build_noiseConfig\<close> is the method \<^verbatim>\<open>noiseConfig()\<close> that parses it from the options.
  Randomness comes from the entropy list of the prelude, consumed in the order of the code's reads.
  \<open>send\<close> takes the outcomes of the outside world as functions of the datagram's number: what
  \<^verbatim>\<open>WriteToUDP\<close> answers and whether the context ends during the pause.
\<close>

section \<open>The model\<close>

definition noiseNone :: string where "noiseNone = ''none''"
definition noiseQUIC :: string where "noiseQUIC = ''quic''"
definition noiseQUICv1 :: string where "noiseQUICv1 = ''quicv1''"
definition noiseRandom :: string where "noiseRandom = ''random''"
definition noiseInit :: string where "noiseInit = ''quicinit''"

definition quicInitSize :: nat where "quicInitSize = 1200"

definition noiseMaxCount :: int where "noiseMaxCount = 50"
definition noiseMaxDelayMs :: int where "noiseMaxDelayMs = 100"
definition noiseMaxPayload :: int where "noiseMaxPayload = 100"
definition noiseMaxHeaderLen :: nat where "noiseMaxHeaderLen = 50"

definition quicNoiseVersion2 :: bytes where "quicNoiseVersion2 = [0x6B, 0x33, 0x43, 0xCF]"
definition quicNoiseVersion1 :: bytes where "quicNoiseVersion1 = [0x00, 0x00, 0x00, 0x01]"

record noiseConfig =
  nc_mode :: string
  nc_header :: "bytes option"
  nc_countFrom :: int
  nc_countTo :: int
  nc_delayFrom :: int
  nc_delayTo :: int
  nc_sizeFrom :: int
  nc_sizeTo :: int

definition noiseRand :: "int \<Rightarrow> int \<Rightarrow> entropy \<Rightarrow> int \<times> entropy" where
  "noiseRand mn0 mx0 e =
     (let mn = (if mn0 > mx0 then mx0 else mn0); mx = (if mn0 > mx0 then mn0 else mx0)
      in if mx \<le> mn then (mn, e)
         else case rand_int (nat (mx - mn + 1)) e of
             (None, e') \<Rightarrow> (mn, e')
           | (Some n, e') \<Rightarrow> (int n + mn, e'))"

fun parse_bounds :: "string list \<Rightarrow> int list option" where
  "parse_bounds [] = Some []"
| "parse_bounds (p # ps) =
     (case atoi (trim_space p) of
        None \<Rightarrow> None
      | Some v \<Rightarrow> if v < 0 then None else map_option (Cons v) (parse_bounds ps))"

definition parseNoiseRange :: "string \<Rightarrow> string \<Rightarrow> int \<Rightarrow> int \<Rightarrow> int \<Rightarrow> (int \<times> int) res" where
  "parseNoiseRange value0 name defFrom defTo limit =
     (let value = trim_space value0 in
      if value = '''' then Inr (defFrom, defTo)
      else let parts = split_on (CHR ''-'') value in
      if length parts > 2 then
        Inl (Errorf ''%s %q must be a number or a from-to range'' [S name, S value])
      else case parse_bounds parts of
        None \<Rightarrow> Inl (Errorf ''%s %q must be a non-negative number or a from-to range'' [S name, S value])
      | Some bounds \<Rightarrow>
          let from0 = bounds ! 0;
              to0 = (if length bounds = 2 then bounds ! 1 else bounds ! 0);
              from1 = (if from0 > to0 then to0 else from0);
              to1 = (if from0 > to0 then from0 else to0)
          in Inr (if from1 > limit then limit else from1, if to1 > limit then limit else to1))"

definition build_noiseConfig :: "('a transportOptions_scheme) \<Rightarrow> noiseConfig option res" where
  "build_noiseConfig o' =
     (let mode = to_lower (trim_space (opt_WNoise o')) in
      case parseNoiseRange (opt_WNoiseCount o') ''wnoisecount'' 5 5 noiseMaxCount of Inl err \<Rightarrow> Inl err
      | Inr (cf, ct) \<Rightarrow>
      (case parseNoiseRange (opt_WNoiseDelay o') ''wnoisedelay'' 5 5 noiseMaxDelayMs of Inl err \<Rightarrow> Inl err
      | Inr (df, dt) \<Rightarrow>
      (case parseNoiseRange (opt_WPayloadSize o') ''wpayloadsize'' 5 10 noiseMaxPayload of Inl err \<Rightarrow> Inl err
      | Inr (sf, st) \<Rightarrow>
      let n = \<lparr>nc_mode = mode, nc_header = None, nc_countFrom = cf, nc_countTo = ct,
               nc_delayFrom = df, nc_delayTo = dt, nc_sizeFrom = sf, nc_sizeTo = st\<rparr> in
      if mode = '''' \<or> mode = noiseNone then Inr None
      else if mode = noiseQUIC \<or> mode = noiseQUICv1 \<or> mode = noiseRandom \<or> mode = noiseInit then Inr (Some n)
      else if length mode mod 2 \<noteq> 0 then
        Inl (Errorf ''wnoise %q has an odd number of hex digits'' [S (opt_WNoise o')])
      else case hex_decode mode of
          Inl err \<Rightarrow> Inl (Wrapf ''wnoise %q is neither a preset nor a hex string: %w'' [S (opt_WNoise o')] err)
        | Inr header \<Rightarrow>
            if length header = 0 then Inl (Errorf ''wnoise is empty: use none to disable noise'' [])
            else if length header > noiseMaxHeaderLen then
              Inl (Errorf ''wnoise is %d bytes, more than the %d-byte maximum''
                    [N (int (length header)), N (int noiseMaxHeaderLen)])
            else Inr (Some (n\<lparr>nc_mode := ''hex'', nc_header := Some header\<rparr>)))))"

definition clist :: bytes where
  "clist = [0xDC, 0xDE, 0xD3, 0xD9, 0xD0, 0xEC, 0xEE, 0xE3]"

definition quicNoiseHeader :: "bytes \<Rightarrow> entropy \<Rightarrow> bytes option \<times> entropy" where
  "quicNoiseHeader version e =
     (case rand_read 8 e of
        (None, e1) \<Rightarrow> (None, e1)
      | (Some dcid, e1) \<Rightarrow>
          (case noiseRand 0 (int (length clist) - 1) e1 of
             (i, e2) \<Rightarrow> (Some ([clist ! nat i] @ version @ [0x08] @ dcid @ [0x00, 0x00, 0x44, 0xD0]), e2)))"

definition quicInitPacket :: "entropy \<Rightarrow> bytes option \<times> entropy" where
  "quicInitPacket e =
     (case rand_read quicInitSize e of
        (None, e1) \<Rightarrow> (None, e1)
      | (Some p0, e1) \<Rightarrow>
          let p1 = p0[0 := 0xC0 OR (p0 ! 0 AND 0x0F)];
              p2 = take 1 p1 @ quicNoiseVersion2 @ drop 5 p1;
              p3 = p2[5 := 8];
              p4 = p3[14 := 8];
              p5 = p4[23 := 0x00];
              p6 = p5[24 := 0x44, 25 := 0x00]
          in (Some p6, e1))"

definition nextHeader :: "noiseConfig \<Rightarrow> entropy \<Rightarrow> bytes option \<times> entropy" where
  "nextHeader n e =
     (if nc_mode n = noiseQUIC then quicNoiseHeader quicNoiseVersion2 e
      else if nc_mode n = noiseQUICv1 then quicNoiseHeader quicNoiseVersion1 e
      else if nc_mode n = noiseRandom then rand_read 18 e
      else (nc_header n, e))"

definition nextPacket :: "noiseConfig \<Rightarrow> entropy \<Rightarrow> bytes res \<times> entropy" where
  "nextPacket n e =
     (if nc_mode n = noiseInit then
        (case quicInitPacket e of
           (None, e1) \<Rightarrow> (Inl (Errorf ''wnoise: cannot read random bytes'' []), e1)
         | (Some p, e1) \<Rightarrow> (Inr p, e1))
      else case nextHeader n e of
        (None, e1) \<Rightarrow> (Inl (Errorf ''wnoise: cannot read random bytes'' []), e1)
      | (Some header, e1) \<Rightarrow>
          (case noiseRand (nc_sizeFrom n) (nc_sizeTo n) e1 of
             (sz, e2) \<Rightarrow>
               if sz > 0 then
                 (case rand_read (nat sz) e2 of
                    (None, e3) \<Rightarrow> (Inl (Wrapf ''wnoise: cannot read random bytes: %w'' [] (ExtErr ''rand'')), e3)
                  | (Some payload, e3) \<Rightarrow> (Inr (header @ payload), e3))
               else (Inr header, e2)))"

text \<open>
  The loop of \<^verbatim>\<open>send\<close>: \<open>i\<close> is the loop variable and \<open>k\<close> the iterations left. The first component of the
  result is what reached the socket, each datagram with the pause chosen after it, in milliseconds.
\<close>

fun send_loop :: "noiseConfig \<Rightarrow> string \<Rightarrow> (nat \<Rightarrow> go_error option) \<Rightarrow> (nat \<Rightarrow> go_error option)
    \<Rightarrow> nat \<Rightarrow> nat \<Rightarrow> entropy \<Rightarrow> (bytes \<times> int) list \<times> unit res \<times> entropy" where
  "send_loop n dst wr dn i 0 e = ([], Inr (), e)"
| "send_loop n dst wr dn i (Suc k) e =
     (case nextPacket n e of
        (Inl err, e1) \<Rightarrow> ([], Inl err, e1)
      | (Inr packet, e1) \<Rightarrow>
          (case wr i of
             Some err \<Rightarrow> ([], Inl (Wrapf ''wnoise: cannot send noise to %s: %w'' [S dst] err), e1)
           | None \<Rightarrow>
               (case noiseRand (nc_delayFrom n) (nc_delayTo n) e1 of
                  (delay, e2) \<Rightarrow>
                    if delay = 0 then
                      (case send_loop n dst wr dn (Suc i) k e2 of (ps, r, e3) \<Rightarrow> ((packet, delay) # ps, r, e3))
                    else (case dn i of
                        Some err \<Rightarrow> ([(packet, delay)], Inl err, e2)
                      | None \<Rightarrow>
                          (case send_loop n dst wr dn (Suc i) k e2 of
                             (ps, r, e3) \<Rightarrow> ((packet, delay) # ps, r, e3))))))"

definition send :: "noiseConfig \<Rightarrow> string \<Rightarrow> (nat \<Rightarrow> go_error option) \<Rightarrow> (nat \<Rightarrow> go_error option)
    \<Rightarrow> entropy \<Rightarrow> (bytes \<times> int) list \<times> unit res \<times> entropy" where
  "send n dst wr dn e =
     (case noiseRand (nc_countFrom n) (nc_countTo n) e of
        (count, e1) \<Rightarrow> send_loop n dst wr dn 0 (nat count) e1)"

section \<open>Well-formed plans\<close>

text \<open>
  What the rest of the code relies on: non-negative ordered ranges below the ceilings, and a header
  of one to fifty bytes exactly in the hex mode.
\<close>

definition preset_mode :: "string \<Rightarrow> bool" where
  "preset_mode m = (m = noiseQUIC \<or> m = noiseQUICv1 \<or> m = noiseRandom \<or> m = noiseInit)"

definition range_ok :: "int \<Rightarrow> int \<Rightarrow> int \<Rightarrow> bool" where
  "range_ok limit a b = (0 \<le> a \<and> a \<le> b \<and> b \<le> limit)"

definition noise_wf :: "noiseConfig \<Rightarrow> bool" where
  "noise_wf n \<longleftrightarrow>
     range_ok noiseMaxCount (nc_countFrom n) (nc_countTo n)
     \<and> range_ok noiseMaxDelayMs (nc_delayFrom n) (nc_delayTo n)
     \<and> range_ok noiseMaxPayload (nc_sizeFrom n) (nc_sizeTo n)
     \<and> (case nc_header n of
          None \<Rightarrow> preset_mode (nc_mode n)
        | Some h \<Rightarrow> nc_mode n = ''hex'' \<and> 1 \<le> length h \<and> length h \<le> noiseMaxHeaderLen)"

lemmas noise_mode_defs = noiseNone_def noiseQUIC_def noiseQUICv1_def noiseRandom_def noiseInit_def

lemma parse_bounds_nonneg: "parse_bounds ps = Some bs \<Longrightarrow> length bs = length ps \<and> (\<forall>b \<in> set bs. 0 \<le> b)"
  by (induction ps arbitrary: bs) (auto split: option.splits if_splits)

lemma parseNoiseRange_ok:
  assumes "parseNoiseRange v name df dt limit = Inr (a, b)" and "range_ok limit df dt"
  shows "range_ok limit a b"
proof (cases "trim_space v = ''''")
  case True
  with assms show ?thesis by (simp add: parseNoiseRange_def)
next
  case False
  let ?ps = "split_on (CHR ''-'') (trim_space v)"
  from False assms(1) obtain bs where bs: "parse_bounds ?ps = Some bs" and len: "length ?ps \<le> 2"
    by (auto simp: parseNoiseRange_def Let_def split: if_splits option.splits)
  note nn = parse_bounds_nonneg[OF bs]
  have "0 < length bs" using nn by simp
  then have "0 \<le> bs ! 0" using nn nth_mem by blast
  moreover have "length bs = 2 \<Longrightarrow> 0 \<le> bs ! 1" using nn nth_mem[of 1 bs] by simp
  ultimately show ?thesis
    using False assms bs len by (auto simp: parseNoiseRange_def Let_def range_ok_def split: if_splits)
qed

lemma noiseRand_range [go_bounds]:
  assumes "noiseRand a b e = (v, e')"
  shows "min a b \<le> v \<and> v \<le> max a b"
proof -
  have "int n + mn \<le> mx" if "rand_int (nat (mx - mn + 1)) e = (Some n, e')" "mn < mx" for n and mn mx :: int
    using rand_int_bound[OF _ that(1)] that(2) by (simp add: nat_less_iff)
  then show ?thesis
    using assms by (auto simp: noiseRand_def Let_def min_def max_def split: if_splits prod.splits option.splits)
qed

lemma build_noiseConfig_ok:
  assumes "build_noiseConfig o' = Inr (Some n)"
  shows "noise_wf n"
proof -
  have lims: "range_ok noiseMaxCount 5 5" "range_ok noiseMaxDelayMs 5 5" "range_ok noiseMaxPayload 5 10"
    by (simp_all add: range_ok_def noiseMaxCount_def noiseMaxDelayMs_def noiseMaxPayload_def)
  show ?thesis
    using assms unfolding build_noiseConfig_def Let_def
    by (auto simp: noise_wf_def preset_mode_def not_less Suc_le_eq
        dest!: parseNoiseRange_ok[OF _ lims(1)] parseNoiseRange_ok[OF _ lims(2)] parseNoiseRange_ok[OF _ lims(3)]
        split: sum.splits if_splits)
qed

text \<open>
  C31: whatever the options say, a noise plan that is accepted is within the ceilings: at most 50
  datagrams, pauses of at most 100 ms, payloads of at most 100 bytes, non-negative ordered ranges, and a
  custom header of 1 to 50 bytes exactly when no preset was named.
\<close>

theorem noiseConfig_wf: "build_noiseConfig o' = Inr (Some n) \<Longrightarrow> noise_wf n"
  by (rule build_noiseConfig_ok)

theorem noiseConfig_wf_witness:
  "noise_wf \<lparr>nc_mode = ''hex'', nc_header = Some [0xd0, 0x6b], nc_countFrom = 3, nc_countTo = 50,
     nc_delayFrom = 5, nc_delayTo = 5, nc_sizeFrom = 5, nc_sizeTo = 10\<rparr>"
proof (rule noiseConfig_wf)
  show "build_noiseConfig (zeroOptions\<lparr>opt_WNoise := '' D06b'', opt_WNoiseCount := ''70 - 3''\<rparr>)
    = Inr (Some \<lparr>nc_mode = ''hex'', nc_header = Some [0xd0, 0x6b], nc_countFrom = 3, nc_countTo = 50,
     nc_delayFrom = 5, nc_delayTo = 5, nc_sizeFrom = 5, nc_sizeTo = 10\<rparr>)"
    by code_simp
qed

section \<open>The datagrams\<close>

text \<open>
  The shape each mode promises. Bytes 1 to 4 carry the version; a \<^verbatim>\<open>quicinit\<close> datagram is a whole
  1200-byte packet whose first byte is in 0xC0 to 0xCF; every other one is a header followed by
  \<^verbatim>\<open>wpayloadsize\<close> bytes.
\<close>

definition payload_ok :: "noiseConfig \<Rightarrow> nat \<Rightarrow> bytes \<Rightarrow> bool" where
  "payload_ok n h p = (int h + nc_sizeFrom n \<le> int (length p) \<and> int (length p) \<le> int h + nc_sizeTo n)"

definition version_of :: "bytes \<Rightarrow> bytes" where
  "version_of p = take 4 (drop 1 p)"

definition packet_ok :: "noiseConfig \<Rightarrow> bytes \<Rightarrow> bool" where
  "packet_ok n p =
     (if nc_mode n = noiseInit then
        length p = quicInitSize \<and> hd p AND 0xF0 = 0xC0 \<and> version_of p = quicNoiseVersion2
      else if nc_mode n = noiseQUIC then
        payload_ok n 18 p \<and> hd p \<in> set clist \<and> version_of p = quicNoiseVersion2
      else if nc_mode n = noiseQUICv1 then
        payload_ok n 18 p \<and> hd p \<in> set clist \<and> version_of p = quicNoiseVersion1
      else if nc_mode n = noiseRandom then payload_ok n 18 p
      else (case nc_header n of None \<Rightarrow> False
            | Some h \<Rightarrow> payload_ok n (length h) p \<and> take (length h) p = h))"

definition random_error :: "go_error \<Rightarrow> bool" where
  "random_error err =
     (err = Errorf ''wnoise: cannot read random bytes'' []
      \<or> err = Wrapf ''wnoise: cannot read random bytes: %w'' [] (ExtErr ''rand''))"

lemma initial_first_byte: "(0xC0 OR (x AND 0x0F)) AND 0xF0 = (0xC0 :: byte)"
proof -
  have "(x AND 0x0F) AND 0xF0 = x AND (0x0F AND (0xF0 :: byte))" by (rule and.assoc)
  then have "(x AND 0x0F) AND 0xF0 = (0 :: byte)" by simp
  then show ?thesis by (simp add: bit.conj_disj_distrib2)
qed

lemma quicInitPacket_ok:
  assumes "quicInitPacket e = (Some p, e')"
  shows "length p = quicInitSize \<and> hd p AND 0xF0 = 0xC0 \<and> version_of p = quicNoiseVersion2"
proof -
  obtain p0 where p0: "rand_read quicInitSize e = (Some p0, e')"
    and p: "p = (take 1 (p0[0 := 0xC0 OR (p0 ! 0 AND 0x0F)]) @ quicNoiseVersion2
        @ drop 5 (p0[0 := 0xC0 OR (p0 ! 0 AND 0x0F)]))[5 := 8, 14 := 8, 23 := 0, 24 := 0x44, 25 := 0]"
    using assms by (auto simp: quicInitPacket_def Let_def split: prod.splits option.splits)
  have "length p0 = 1200" using rand_read_length[OF p0] by (simp add: quicInitSize_def)
  then obtain x xs where x: "p0 = x # xs" by (cases p0) auto
  have l: "length xs = 1199" using \<open>length p0 = 1200\<close> x by simp
  then have q: "p = (0xC0 OR (x AND 0x0F)) # 0x6B # 0x33 # 0x43 # 0xCF
      # (drop 4 xs)[0 := 8, 9 := 8, 18 := 0, 19 := 0x44, 20 := 0]"
    by (simp add: p x quicNoiseVersion2_def eval_nat_numeral)
  then show ?thesis
    using l initial_first_byte[of x] by (simp add: version_of_def quicNoiseVersion2_def quicInitSize_def)
qed

lemma quicNoiseHeader_ok:
  assumes "quicNoiseHeader v e = (Some h, e')" and "length v = 4"
  shows "length h = 18 \<and> hd h \<in> set clist \<and> version_of h = v"
proof -
  obtain d e1 i where d: "rand_read 8 e = (Some d, e1)" and i: "noiseRand 0 7 e1 = (i, e')"
    and h: "h = [clist ! nat i] @ v @ [0x08] @ d @ [0x00, 0x00, 0x44, 0xD0]"
    using assms(1) by (auto simp: quicNoiseHeader_def clist_def split: prod.splits option.splits)
  have "0 \<le> i \<and> i \<le> 7" using noiseRand_range[OF i] by simp
  then have "nat i < 8" by linarith
  then have "nat i < length clist" by (simp add: clist_def)
  then have "clist ! nat i \<in> set clist" by simp
  then show ?thesis using assms(2) rand_read_length[OF d] by (simp add: h version_of_def)
qed

lemma nextHeader_ok:
  assumes "nextHeader n e = (Some h, e')" and "noise_wf n" and "nc_mode n \<noteq> noiseInit"
  shows "1 \<le> length h \<and> (payload_ok n (length h) (h @ t) \<longrightarrow> packet_ok n (h @ t))"
proof -
  have "version_of (h @ t) = version_of h" "hd (h @ t) = hd h" if "length h = 18"
    using that by (simp_all add: version_of_def hd_append) (cases h; simp)
  then show ?thesis
    using assms quicNoiseHeader_ok[of quicNoiseVersion2 e h e'] quicNoiseHeader_ok[of quicNoiseVersion1 e h e']
    by (auto simp: nextHeader_def packet_ok_def noise_wf_def preset_mode_def quicNoiseVersion2_def
        quicNoiseVersion1_def dest!: rand_read_length split: if_splits option.splits)
qed

lemma nextPacket_ok:
  assumes "nextPacket n e = (Inr p, e')" and wf: "noise_wf n"
  shows "packet_ok n p"
proof (cases "nc_mode n = noiseInit")
  case True
  then show ?thesis
    using assms quicInitPacket_ok by (auto simp: nextPacket_def packet_ok_def split: prod.splits option.splits)
next
  case False
  obtain h e1 sz e2 where h: "nextHeader n e = (Some h, e1)" and s: "noiseRand (nc_sizeFrom n) (nc_sizeTo n) e1 = (sz, e2)"
    using assms(1) False by (auto simp: nextPacket_def split: prod.splits option.splits)
  have sz: "nc_sizeFrom n \<le> sz \<and> sz \<le> nc_sizeTo n \<and> 0 \<le> sz"
    using noiseRand_range[OF s] wf by (simp add: noise_wf_def range_ok_def)
  obtain t where t: "p = h @ t" "int (length t) = sz"
  proof (cases "sz > 0")
    case True
    then obtain t where "rand_read (nat sz) e2 = (Some t, e')" "p = h @ t"
      using assms(1) False h s by (auto simp: nextPacket_def split: prod.splits option.splits)
    then show ?thesis using that rand_read_length True by auto
  next
    case small: False
    then have "p = h @ []" using assms(1) False h s by (auto simp: nextPacket_def split: prod.splits option.splits)
    then show ?thesis using that small sz by auto
  qed
  have "payload_ok n (length h) (h @ t)" using sz t by (simp add: payload_ok_def)
  then show ?thesis using nextHeader_ok[OF h wf False, of t] t by simp
qed

lemma nextPacket_error: "nextPacket n e = (Inl err, e') \<Longrightarrow> random_error err"
  by (auto simp: nextPacket_def random_error_def split: if_splits prod.splits option.splits)

section \<open>The burst\<close>

lemma send_loop_ok:
  assumes "send_loop n dst wr dn i k e = (ps, r, e')" and "noise_wf n"
  shows "length ps \<le> k \<and> (r = Inr () \<longrightarrow> length ps = k)
    \<and> (\<forall>(p, d) \<in> set ps. packet_ok n p \<and> nc_delayFrom n \<le> d \<and> d \<le> nc_delayTo n)
    \<and> (\<forall>err. r = Inl err \<longrightarrow> random_error err \<or> (\<exists>j. dn j = Some err)
         \<or> (\<exists>j w. wr j = Some w \<and> err = Wrapf ''wnoise: cannot send noise to %s: %w'' [S dst] w))"
  using assms(1)
proof (induction k arbitrary: i e ps r e')
  case (Suc k)
  show ?case
  proof (cases "nextPacket n e")
    case (Pair pr e1)
    show ?thesis
    proof (cases pr)
      case (Inl err)
      then show ?thesis using Suc.prems Pair nextPacket_error[of n e err e1] by auto
    next
      case (Inr p)
      have pk: "packet_ok n p" using nextPacket_ok[of n e p e1] Pair Inr assms(2) by simp
      obtain d e2 where d: "noiseRand (nc_delayFrom n) (nc_delayTo n) e1 = (d, e2)" by fastforce
      have dr: "nc_delayFrom n \<le> d \<and> d \<le> nc_delayTo n"
        using noiseRand_range[OF d] assms(2) by (simp add: noise_wf_def range_ok_def)
      obtain qs r1 e3 where rec: "send_loop n dst wr dn (Suc i) k e2 = (qs, r1, e3)"
        by (metis prod_cases3)
      show ?thesis
        using Suc.prems Pair Inr d rec Suc.IH[OF rec] pk dr
        by (auto split: option.splits if_splits)
    qed
  qed
qed auto


text \<open>A plan of one quicinit-free burst, evaluated: two datagrams of the v1 preset with no payload.\<close>

definition demo_options :: transportOptions where
  "demo_options = zeroOptions\<lparr>opt_WNoise := ''QUICv1'', opt_WNoiseCount := ''2'', opt_WNoiseDelay := ''0'',
     opt_WPayloadSize := ''0''\<rparr>"

definition demo_plan :: noiseConfig where
  "demo_plan = \<lparr>nc_mode = ''quicv1'', nc_header = None, nc_countFrom = 2, nc_countTo = 2,
     nc_delayFrom = 0, nc_delayTo = 0, nc_sizeFrom = 0, nc_sizeTo = 0\<rparr>"

lemma demo_plan_built: "build_noiseConfig demo_options = Inr (Some demo_plan)"
  by code_simp

lemma demo_burst:
  "send demo_plan ''d'' (\<lambda>_. None) (\<lambda>_. None) (replicate 18 7)
   = ([([0xE3, 0, 0, 0, 1, 8, 7, 7, 7, 7, 7, 7, 7, 7, 0, 0, 0x44, 0xD0], 0),
       ([0xE3, 0, 0, 0, 1, 8, 7, 7, 7, 7, 7, 7, 7, 7, 0, 0, 0x44, 0xD0], 0)], Inr (), [])"
  by code_simp


lemma hex_encode_chars: "c \<in> set (hex_encode bs) \<Longrightarrow> lower_char c = c \<and> plain_char c"
proof (induction bs)
  case (Cons b bs)
  have h: "lower_char (hex_char k) = hex_char k \<and> plain_char (hex_char k)" if "k < 16" for k
    using that by (auto simp: hex_char_def lower_char_def plain_char_def is_space_ascii_def Let_def)
  have "unat b div 16 < 16" using unat_byte_less[of b] by linarith
  then show ?case using Cons h[of "unat b div 16"] h[of "unat b mod 16"] by auto
qed simp

lemma length_hex_encode [simp]: "length (hex_encode bs) = 2 * length bs"
  by (induction bs) auto

text \<open>
  A custom wnoise header round-trips: writing any 1 to 50 bytes in hex as the wnoise option gives
  a plan whose every datagram starts with exactly those bytes.
\<close>

theorem wnoise_hex_roundtrip:
  assumes "1 \<le> length h" and "length h \<le> 50"
    and "build_noiseConfig (o'\<lparr>opt_WNoise := []\<rparr>) = Inr None"
  shows "\<exists>n. build_noiseConfig (o'\<lparr>opt_WNoise := hex_encode h\<rparr>) = Inr (Some n)
    \<and> (\<forall>e p e'. nextPacket n e = (Inr p, e') \<longrightarrow> take (length h) p = h)"
proof -
  have m: "to_lower (trim_space (hex_encode h)) = hex_encode h"
  proof -
    have "trim_space (hex_encode h) = hex_encode h"
      by (rule trim_space_all_plain) (simp add: list_all_iff hex_encode_chars)
    moreover have "to_lower (hex_encode h) = map lower_char (hex_encode h)"
      by (rule to_lower_ascii) (use hex_encode_chars in \<open>auto simp: list_all_iff plain_char_def\<close>)
    moreover have "map lower_char (hex_encode h) = hex_encode h"
      by (simp add: hex_encode_chars map_idI)
    ultimately show ?thesis by simp
  qed
  have np: "hex_encode h \<noteq> m" if "hex_decode m \<noteq> Inr h" for m
    using that hex_decode_encode[of h] by auto
  have "hex_encode h \<noteq> []" using assms(1) by (cases h) auto
  moreover have "hex_encode h \<noteq> noiseNone" "hex_encode h \<noteq> noiseQUIC" "hex_encode h \<noteq> noiseQUICv1"
    "hex_encode h \<noteq> noiseRandom" "hex_encode h \<noteq> noiseInit"
    by (intro np; simp add: noise_mode_defs hex_val_def)+
  moreover have "h \<noteq> []" "\<not> noiseMaxHeaderLen < length h" using assms by (auto simp: noiseMaxHeaderLen_def)
  ultimately obtain n where n: "build_noiseConfig (o'\<lparr>opt_WNoise := hex_encode h\<rparr>) = Inr (Some n)"
    and h: "nc_mode n = ''hex''" "nc_header n = Some h"
    using assms(3) by (auto simp: build_noiseConfig_def m Let_def split: sum.splits)
  have "take (length h) p = h" if "nextPacket n e = (Inr p, e')" for e p e'
    using nextPacket_ok[OF that build_noiseConfig_ok[OF n]] h by (simp add: packet_ok_def noise_mode_defs)
  with n show ?thesis by blast
qed

theorem wnoise_hex_roundtrip_witness:
  "\<exists>n. build_noiseConfig (zeroOptions\<lparr>opt_WNoise := hex_encode [0xd0, 0x6b, 0x33]\<rparr>) = Inr (Some n)
    \<and> (\<forall>e p e'. nextPacket n e = (Inr p, e') \<longrightarrow> take 3 p = [0xd0, 0x6b, 0x33])"
proof -
  have "build_noiseConfig (zeroOptions\<lparr>opt_WNoise := []\<rparr>) = Inr None" by code_simp
  from wnoise_hex_roundtrip[OF _ _ this, of "[0xd0, 0x6b, 0x33]"] show ?thesis by (simp add: numeral_3_eq_3)
qed

text \<open>
  A range option round-trips through its decimal text: writing "m-n" parses to the two numbers in
  ascending order, each clamped to the ceiling, whatever the order they were written in.
\<close>

theorem parseNoiseRange_roundtrip:
  assumes "int m < 2 ^ 63" and "int n < 2 ^ 63"
  shows "parseNoiseRange (show_nat m @ ''-'' @ show_nat n) name df dt limit
    = Inr (min limit (int (min m n)), min limit (int (max m n)))"
proof -
  have dash: "CHR ''-'' \<notin> set (show_nat k)" for k using show_nat_chars digit_not_sign by blast
  have tr: "trim_space (show_nat m @ ''-'' @ show_nat n) = show_nat m @ ''-'' @ show_nat n"
    using show_nat_chars digit_not_sign
    by (intro trim_space_all_plain) (auto simp: list_all_iff plain_char_def is_space_ascii_def)
  have sp: "split_on (CHR ''-'') (show_nat m @ ''-'' @ show_nat n) = [show_nat m, show_nat n]"
    using dash by simp
  show ?thesis
    unfolding parseNoiseRange_def tr Let_def sp
    using assms by (auto simp: atoi_show_nat min_def max_def)
qed

theorem parseNoiseRange_roundtrip_witness:
  "parseNoiseRange (show_nat 120 @ ''-'' @ show_nat 3) ''wnoisecount'' 5 5 50 = Inr (3, 50)"
  using parseNoiseRange_roundtrip[of 120 3 "''wnoisecount''" 5 5 50] by simp

end
