(* ===== verification/Ech_Probe.thy ===== *)
theory Ech_Probe
  imports Transport_Options
begin

text \<open>
  The pure part of \<^verbatim>\<open>libv2ray_fetch_probe.go\<close>: the probe spec parser, the framing check on an
  ECHConfigList, the bogus list a probe offers, and the test for a rejection among error values. The
  network exchange \<^verbatim>\<open>echProbe\<close> is in \<open>Tls_Dial\<close>. The length-prefixed writer is the builder of
  \<^verbatim>\<open>golang.org/x/crypto/cryptobyte\<close>: a parameter of the model with its documented behaviour as a hypothesis.
\<close>

section \<open>The model\<close>

definition echProbeScheme :: string where "echProbeScheme = ''probe''"
definition echProbeDefaultName :: string where "echProbeDefaultName = ''cloudflare-ech.com''"
definition echProbeDefaultPort :: string where "echProbeDefaultPort = ''443''"
definition echProbeTTL :: "32 word" where "echProbeTTL = 1800"
definition echProbeTimeout :: duration where "echProbeTimeout = 12 * second"
definition echConfigVersion :: nat where "echConfigVersion = 0xfe0d"
definition echKemX25519 :: nat where "echKemX25519 = 0x0020"
definition echKdfSHA256 :: nat where "echKdfSHA256 = 0x0001"
definition echAeadAES128 :: nat where "echAeadAES128 = 0x0001"
definition echX25519KeyLen :: nat where "echX25519KeyLen = 32"

definition bad_name_len :: "string \<Rightarrow> bool" where
  "bad_name_len name = (length name = 0 \<or> length name > 255)"

definition strip_scheme :: "string \<Rightarrow> string" where
  "strip_scheme spec =
     (let s = trim_space spec in
      if equal_fold s echProbeScheme then []
      else if has_prefix (to_lower s) (echProbeScheme @ ''://'')
      then trim_space (drop (length echProbeScheme + length ''://'') s)
      else s)"

definition probe_target :: "string \<Rightarrow> (string \<times> string) res" where
  "probe_target s =
     (case (case split_last (CHR ''@'') s of
              None \<Rightarrow> ([], s)
            | Some (before, after) \<Rightarrow> (trim_space after, trim_space before)) of
        (hostPort, s1) \<Rightarrow>
          let publicName = (if s1 \<noteq> [] then s1 else echProbeDefaultName) in
          if contains_any publicName '':/ '' then
            Inl (Errorf ''ECH probe public name %q must be a bare domain'' [S publicName])
          else if bad_name_len publicName then
            Inl (Errorf ''ECH probe public name has invalid length: %d'' [N (int (length publicName))])
          else if hostPort = [] then Inr (publicName, join_host_port publicName echProbeDefaultPort)
          else case split_host_port hostPort of
              Inl _ \<Rightarrow> Inr (publicName, join_host_port hostPort echProbeDefaultPort)
            | Inr _ \<Rightarrow> Inr (publicName, hostPort))"

definition parseECHProbe :: "string \<Rightarrow> (string \<times> string) res" where
  "parseECHProbe spec = probe_target (strip_scheme spec)"

record cryptobyte =
  cb_u16_prefixed :: "bytes \<Rightarrow> bytes"
  cb_u8_prefixed :: "bytes \<Rightarrow> bytes"

definition string_bytes :: "string \<Rightarrow> bytes" where
  "string_bytes s = map of_char s"

definition bogusECHConfigList :: "cryptobyte \<Rightarrow> string \<Rightarrow> entropy \<Rightarrow> bytes res \<times> entropy" where
  "bogusECHConfigList cb publicName e =
     (if bad_name_len publicName then
        (Inl (Errorf ''ECH probe public name has invalid length: %d'' [N (int (length publicName))]), e)
      else case rand_read echX25519KeyLen e of
          (None, e1) \<Rightarrow> (Inl (ExtErr ''rand''), e1)
        | (Some key, e1) \<Rightarrow>
            (case rand_read 1 e1 of
               (None, e2) \<Rightarrow> (Inl (ExtErr ''rand''), e2)
             | (Some configID, e2) \<Rightarrow>
                 (Inr (cb_u16_prefixed cb
                    (be16 echConfigVersion
                     @ cb_u16_prefixed cb
                         ([configID ! 0]
                          @ be16 echKemX25519
                          @ cb_u16_prefixed cb key
                          @ cb_u16_prefixed cb (be16 echKdfSHA256 @ be16 echAeadAES128)
                          @ [0]
                          @ cb_u8_prefixed cb (string_bytes publicName)
                          @ cb_u16_prefixed cb []))), e2)))"

text \<open>The loop over the configs: how many it counts, or \<^const>\<open>None\<close> where it returns false.\<close>

function count_configs :: "bytes \<Rightarrow> nat \<Rightarrow> nat option" where
  "count_configs s configs =
     (if length s > 0 then
        if length s < 4 then None
        else let len = be16_value (s ! 2) (s ! 3) in
          if length s < 4 + len then None else count_configs (drop (4 + len) s) (Suc configs)
      else Some configs)"
  by pat_completeness auto
termination
  by (relation "measure (\<lambda>(s, _). length s)") auto

declare count_configs.simps [simp del]

definition looksLikeECHConfigList :: "bytes \<Rightarrow> bool" where
  "looksLikeECHConfigList b =
     (if length b < 2 \<or> be16_value (b ! 0) (b ! 1) \<noteq> length b - 2 then False
      else case count_configs (drop 2 b) 0 of None \<Rightarrow> False | Some configs \<Rightarrow> configs > 0)"

definition echRejected :: "go_error \<Rightarrow> bool" where
  "echRejected err =
     (case err_root err of
        GoECHRejection _ \<Rightarrow> True
      | UECHRejection _ \<Rightarrow> True
      | GoCertError _ \<Rightarrow> True
      | UCertError _ \<Rightarrow> True
      | _ \<Rightarrow> False)"

section \<open>The wire format of an ECHConfigList\<close>

text \<open>
  The specification: a two-byte length, then one or more configs, each a two-byte version and a
  length-prefixed body.
\<close>

type_synonym ech_config = "bytes \<times> bytes"

definition config_ok :: "ech_config \<Rightarrow> bool" where
  "config_ok c = (length (fst c) = 2 \<and> length (snd c) < 65536)"

definition config_bytes :: "ech_config \<Rightarrow> bytes" where
  "config_bytes c = fst c @ be16 (length (snd c)) @ snd c"

definition list_bytes :: "ech_config list \<Rightarrow> bytes" where
  "list_bytes cs = be16 (length (concat (map config_bytes cs))) @ concat (map config_bytes cs)"

lemma config_bytes_nth:
  assumes "config_ok c"
  shows "be16_value ((config_bytes c @ t) ! 2) ((config_bytes c @ t) ! 3) = length (snd c)"
proof -
  have "(config_bytes c @ t) ! 2 = be16 (length (snd c)) ! 0" "(config_bytes c @ t) ! 3 = be16 (length (snd c)) ! 1"
    using assms by (simp_all add: config_bytes_def config_ok_def nth_append)
  then show ?thesis using assms by (simp add: config_ok_def)
qed

lemma length_config_bytes: "config_ok c \<Longrightarrow> length (config_bytes c) = 4 + length (snd c)"
  by (simp add: config_bytes_def config_ok_def)

lemma count_configs_step:
  assumes "config_ok c"
  shows "count_configs (config_bytes c @ t) k = count_configs t (Suc k)"
proof -
  have "drop (4 + length (snd c)) (config_bytes c @ t) = t"
    using length_config_bytes[OF assms] by simp
  then show ?thesis
    using length_config_bytes[OF assms] config_bytes_nth[OF assms, of t]
    by (subst count_configs.simps) (simp add: Let_def)
qed

lemma count_configs_concat:
  "list_all config_ok cs \<Longrightarrow> count_configs (concat (map config_bytes cs)) k = Some (k + length cs)"
proof (induction cs arbitrary: k)
  case Nil
  then show ?case by (simp add: count_configs.simps)
qed (simp add: count_configs_step)

lemma be16_of_bytes: "be16 (be16_value a b) = [a, b]"
proof -
  have "(256 * unat a + unat b) div 256 = unat a" using unat_byte_less[of b] by simp
  moreover have "(of_nat (256 * unat a + unat b) :: byte) = b"
    by (simp only: word_unat_eq_iff unat_of_nat_byte) (simp add: mod_less[OF unat_byte_less])
  ultimately show ?thesis by (simp add: be16_def be16_value_def)
qed

lemma split_config:
  assumes "4 + be16_value (s ! 2) (s ! 3) \<le> length s"
  shows "\<exists>c. config_ok c \<and> s = config_bytes c @ drop (4 + be16_value (s ! 2) (s ! 3)) s"
proof -
  let ?l = "be16_value (s ! 2) (s ! 3)"
  let ?c = "(take 2 s, take ?l (drop 4 s))"
  have ok: "config_ok ?c" using assms be16_value_bound[of "s ! 2" "s ! 3"] by (simp add: config_ok_def)
  have "length (snd ?c) = ?l" using assms by simp
  then have "config_bytes ?c = take 2 s @ [s ! 2, s ! 3] @ take ?l (drop 4 s)"
    by (simp add: config_bytes_def be16_of_bytes)
  also have "\<dots> = take 4 s @ take ?l (drop 4 s)"
    using assms by (simp add: take_Suc_conv_app_nth numeral_eq_Suc)
  also have "\<dots> = take (4 + ?l) s" by (simp add: take_add)
  finally have "s = config_bytes ?c @ drop (4 + ?l) s" by simp
  with ok show ?thesis by blast
qed

lemma count_configs_Some:
  "count_configs s k = Some n \<Longrightarrow> \<exists>cs. list_all config_ok cs \<and> s = concat (map config_bytes cs) \<and> n = k + length cs"
proof (induction s k rule: count_configs.induct)
  case (1 s k)
  let ?l = "be16_value (s ! 2) (s ! 3)"
  show ?case
  proof (cases "s = []")
    case True
    then show ?thesis using "1.prems" by (intro exI[of _ "[]"]) (simp add: count_configs.simps)
  next
    case False
    with "1.prems" have l: "\<not> length s < 4" "4 + ?l \<le> length s"
      and r: "count_configs (drop (4 + ?l) s) (Suc k) = Some n"
      by (auto simp: count_configs.simps[of s k] Let_def split: if_splits)
    obtain cs where cs: "list_all config_ok cs" "drop (4 + ?l) s = concat (map config_bytes cs)" "n = Suc k + length cs"
      using "1.IH"[OF _ l(1) refl _ r] False l(2) by auto
    obtain c where "config_ok c" "s = config_bytes c @ drop (4 + ?l) s" using split_config[OF l(2)] by blast
    with cs show ?thesis by (intro exI[of _ "c # cs"]) auto
  qed
qed

text \<open>
  C33: the framing check accepts exactly the well-formed ECHConfigLists: a byte string passes iff it
  is the encoding of a non-empty sequence of version-tagged, length-prefixed configs whose total length
  fits the outer prefix. Nothing with trailing or missing bytes passes.
\<close>

theorem looksLike_iff:
  "looksLikeECHConfigList b \<longleftrightarrow>
     (\<exists>cs. cs \<noteq> [] \<and> list_all config_ok cs \<and> length (concat (map config_bytes cs)) < 65536 \<and> b = list_bytes cs)"
proof
  assume h: "looksLikeECHConfigList b"
  then have l: "2 \<le> length b" "be16_value (b ! 0) (b ! 1) = length b - 2"
    by (auto simp: looksLikeECHConfigList_def split: if_splits)
  from h obtain n where "count_configs (drop 2 b) 0 = Some n" "n > 0"
    by (auto simp: looksLikeECHConfigList_def split: if_splits option.splits)
  then obtain cs where cs: "list_all config_ok cs" "drop 2 b = concat (map config_bytes cs)" "cs \<noteq> []"
    using count_configs_Some by fastforce
  have len: "length (concat (map config_bytes cs)) = be16_value (b ! 0) (b ! 1)"
    using l cs(2) by (metis length_drop)
  have "b = [b ! 0, b ! 1] @ drop 2 b"
    using l(1) by (cases b; cases "tl b") auto
  also have "\<dots> = list_bytes cs" by (simp only: list_bytes_def len be16_of_bytes cs(2))
  finally show "\<exists>cs. cs \<noteq> [] \<and> list_all config_ok cs \<and> length (concat (map config_bytes cs)) < 65536 \<and> b = list_bytes cs"
    using cs len be16_value_bound by auto
next
  assume "\<exists>cs. cs \<noteq> [] \<and> list_all config_ok cs \<and> length (concat (map config_bytes cs)) < 65536 \<and> b = list_bytes cs"
  then obtain cs where cs: "cs \<noteq> []" "list_all config_ok cs" "length (concat (map config_bytes cs)) < 65536"
    "b = list_bytes cs" by blast
  let ?r = "concat (map config_bytes cs)"
  have "drop 2 b = ?r" "length b - 2 = length ?r" "2 \<le> length b" by (simp_all add: cs(4) list_bytes_def)
  moreover have "b ! 0 = be16 (length ?r) ! 0" "b ! 1 = be16 (length ?r) ! 1"
    by (simp_all add: cs(4) list_bytes_def nth_append)
  ultimately show "looksLikeECHConfigList b"
    using cs by (simp add: looksLikeECHConfigList_def count_configs_concat)
qed

section \<open>The bogus list\<close>

text \<open>
  The documented behaviour of the builder: a length-prefixed child is the big-endian length of its
  content followed by the content, as long as the length fits the prefix.
\<close>

definition cryptobyte_spec :: "cryptobyte \<Rightarrow> bool" where
  "cryptobyte_spec cb \<longleftrightarrow>
     (\<forall>b. length b < 65536 \<longrightarrow> cb_u16_prefixed cb b = be16 (length b) @ b)
     \<and> (\<forall>b. length b < 256 \<longrightarrow> cb_u8_prefixed cb b = of_nat (length b) # b)"

definition ref_cryptobyte :: cryptobyte where
  "ref_cryptobyte = \<lparr>cb_u16_prefixed = (\<lambda>b. be16 (length b) @ b), cb_u8_prefixed = (\<lambda>b. of_nat (length b) # b)\<rparr>"

text \<open>The body of the one config of the bogus list: key, cipher suites, public name.\<close>

definition bogus_body :: "string \<Rightarrow> bytes \<Rightarrow> byte \<Rightarrow> bytes" where
  "bogus_body name key cid =
     [cid] @ be16 echKemX25519 @ be16 32 @ key @ be16 4 @ be16 echKdfSHA256 @ be16 echAeadAES128 @ [0]
     @ of_nat (length name) # string_bytes name @ be16 0"

lemma length_bogus_body: "length key = 32 \<Longrightarrow> length (bogus_body name key cid) = 47 + length name"
  by (simp add: bogus_body_def string_bytes_def)

lemma looksLike_list_bytes:
  assumes "cs \<noteq> []" and "list_all config_ok cs" and "length (concat (map config_bytes cs)) < 65536"
  shows "looksLikeECHConfigList (list_bytes cs)"
proof -
  let ?r = "concat (map config_bytes cs)"
  have "list_bytes cs ! 0 = be16 (length ?r) ! 0" "list_bytes cs ! Suc 0 = be16 (length ?r) ! Suc 0"
    by (simp_all add: list_bytes_def nth_append)
  then show ?thesis
    using assms by (simp add: looksLikeECHConfigList_def count_configs_concat list_bytes_def)
qed

text \<open>
  For every public name of 1 to 255 bytes the bogus ECHConfigList that a probe offers is a
  well-formed list of exactly one config of the current version, which passes the code's own framing
  check, carries the 32 random key bytes and ends in the public name; any other name is refused.
\<close>

theorem bogusECHConfigList_wf:
  assumes "cryptobyte_spec cb"
  shows "(bad_name_len name \<longrightarrow> \<not> is_ok (fst (bogusECHConfigList cb name e)))
    \<and> (\<not> bad_name_len name \<and> 33 \<le> length e \<longrightarrow>
         bogusECHConfigList cb name e
           = (Inr (list_bytes [(be16 echConfigVersion, bogus_body name (take 32 e) (e ! 32))]), drop 33 e)
         \<and> looksLikeECHConfigList (list_bytes [(be16 echConfigVersion, bogus_body name (take 32 e) (e ! 32))]))"
proof (intro conjI impI)
  assume "bad_name_len name"
  then show "\<not> is_ok (fst (bogusECHConfigList cb name e))" by (simp add: bogusECHConfigList_def)
next
  assume h: "\<not> bad_name_len name \<and> 33 \<le> length e"
  then have n: "length name < 256" by (simp add: bad_name_len_def)
  have u16: "cb_u16_prefixed cb b = be16 (length b) @ b" if "length b < 65536" for b
    using assms that by (simp add: cryptobyte_spec_def)
  have u8: "cb_u8_prefixed cb (string_bytes name) = of_nat (length name) # string_bytes name"
    using assms n by (simp add: cryptobyte_spec_def string_bytes_def)
  have l: "length (bogus_body name (take 32 e) (e ! 32)) = 47 + length name"
    using h by (simp add: length_bogus_body)
  have rd: "rand_read 32 e = (Some (take 32 e), drop 32 e)" "rand_read 1 (drop 32 e) = (Some [e ! 32], drop 33 e)"
    using h by (simp_all add: rand_read_def take_Suc_conv_app_nth Cons_nth_drop_Suc[symmetric] take_Suc hd_drop_conv_nth)
  have body: "[e ! 32] @ be16 echKemX25519 @ cb_u16_prefixed cb (take 32 e)
      @ cb_u16_prefixed cb (be16 echKdfSHA256 @ be16 echAeadAES128) @ [0]
      @ cb_u8_prefixed cb (string_bytes name) @ cb_u16_prefixed cb [] = bogus_body name (take 32 e) (e ! 32)"
    using h by (simp add: u16 u8 bogus_body_def)
  have "bogusECHConfigList cb name e
      = (Inr (cb_u16_prefixed cb (be16 echConfigVersion
           @ cb_u16_prefixed cb (bogus_body name (take 32 e) (e ! 32)))), drop 33 e)"
    using h by (simp only: bogusECHConfigList_def echX25519KeyLen_def rd prod.case option.case nth_Cons_0 body
        simp_thms if_False)
  then show "bogusECHConfigList cb name e
      = (Inr (list_bytes [(be16 echConfigVersion, bogus_body name (take 32 e) (e ! 32))]), drop 33 e)"
    using n l by (simp add: u16 list_bytes_def config_bytes_def)
  show "looksLikeECHConfigList (list_bytes [(be16 echConfigVersion, bogus_body name (take 32 e) (e ! 32))])"
    using n l by (intro looksLike_list_bytes) (simp_all add: config_ok_def config_bytes_def)
qed

theorem bogusECHConfigList_wf_witness:
  "is_ok (fst (bogusECHConfigList ref_cryptobyte ''a.b'' (replicate 40 9)))
   \<and> \<not> is_ok (fst (bogusECHConfigList ref_cryptobyte [] (replicate 40 9)))"
proof -
  have "cryptobyte_spec ref_cryptobyte" by (simp add: cryptobyte_spec_def ref_cryptobyte_def)
  from bogusECHConfigList_wf[OF this, of "''a.b''" "replicate 40 9"]
    bogusECHConfigList_wf[OF this, of "[]" "replicate 40 9"]
  show ?thesis by (simp add: bad_name_len_def)
qed

section \<open>The probe spec\<close>

text \<open>
  An accepted probe spec names a bare domain: 1 to 255 bytes without a colon, slash or space; and
  the address to dial is never empty.
\<close>

theorem parseECHProbe_sound:
  assumes "parseECHProbe spec = Inr (name, hp)"
  shows "\<not> contains_any name '':/ '' \<and> 1 \<le> length name \<and> length name \<le> 255 \<and> hp \<noteq> []"
  using assms
  by (auto simp: parseECHProbe_def probe_target_def Let_def bad_name_len_def join_host_port_def Suc_le_eq
      split: if_splits option.splits sum.splits)

theorem parseECHProbe_sound_witness:
  "parseECHProbe '' probe://example.com@1.2.3.4 '' = Inr (''example.com'', ''1.2.3.4:443'')
   \<and> \<not> contains_any ''example.com'' '':/ ''"
proof -
  have "parseECHProbe '' probe://example.com@1.2.3.4 '' = Inr (''example.com'', ''1.2.3.4:443'')" by code_simp
  with parseECHProbe_sound[OF this] show ?thesis by simp
qed

text \<open>A bare name and a dial address as a caller writes them: no white space, no separator of the spec.\<close>

definition bare_name :: "string \<Rightarrow> bool" where
  "bare_name n = (list_all plain_char n \<and> CHR ''@'' \<notin> set n \<and> \<not> contains_any n '':/ '' \<and> \<not> bad_name_len n)"

definition bare_addr :: "string \<Rightarrow> bool" where
  "bare_addr a = (a \<noteq> [] \<and> list_all plain_char a \<and> CHR ''@'' \<notin> set a)"

definition dial_addr :: "string \<Rightarrow> string" where
  "dial_addr a = (if is_ok (split_host_port a) then a else join_host_port a echProbeDefaultPort)"

lemma fold_case_ascii:
  "list_all (\<lambda>c. (of_char c :: nat) < 128) s \<Longrightarrow> fold_case s = map lower_char s"
proof (induction s rule: length_induct)
  case (1 s)
  show ?case
  proof (cases s)
    case Nil
    then show ?thesis by (simp add: fold_case.simps)
  next
    case (Cons a t)
    with 1 have "fold_case t = map lower_char t" and "(of_char a :: nat) < 128" by simp_all
    then show ?thesis
      unfolding Cons by (subst fold_case.simps) (auto simp: b2_def b3_def numeral_2_eq_2 numeral_3_eq_3)
  qed
qed

lemma probe_prefix:
  assumes "list_all plain_char s"
  shows "trim_space (''probe://'' @ s) = ''probe://'' @ s"
    and "has_prefix (to_lower (''probe://'' @ s)) (echProbeScheme @ ''://'')"
    and "\<not> equal_fold (''probe://'' @ s) echProbeScheme"
proof -
  have p: "list_all plain_char (''probe://'' @ s)"
    using assms by (simp add: plain_char_def is_space_ascii_def)
  then show "trim_space (''probe://'' @ s) = ''probe://'' @ s" by (rule trim_space_all_plain)
  have a: "list_all (\<lambda>c. (of_char c :: nat) < 128) (''probe://'' @ s)"
    using p by (auto simp: list_all_iff plain_char_def)
  then have "to_lower (''probe://'' @ s) = ''probe://'' @ map lower_char s"
    by (simp add: to_lower_ascii lower_char_def)
  then show "has_prefix (to_lower (''probe://'' @ s)) (echProbeScheme @ ''://'')"
    by (simp add: has_prefix_def echProbeScheme_def)
  have "fold_case (''probe://'' @ s) = map lower_char (''probe://'' @ s)" using a by (rule fold_case_ascii)
  moreover have "fold_case echProbeScheme = ''probe''" by code_simp
  ultimately show "\<not> equal_fold (''probe://'' @ s) echProbeScheme" by (simp add: equal_fold_def)
qed

lemma strip_scheme_probe:
  assumes "list_all plain_char s"
  shows "strip_scheme (''probe://'' @ s) = s"
proof -
  have "drop (length echProbeScheme + length ''://'') (''probe://'' @ s) = s" by (simp add: echProbeScheme_def)
  moreover have "trim_space s = s" using assms by (rule trim_space_all_plain)
  ultimately show ?thesis
    unfolding strip_scheme_def Let_def probe_prefix(1)[OF assms]
    by (simp only: probe_prefix(2,3)[OF assms] if_True if_False)
qed

text \<open>
  The documented spellings of a probe spec mean what the documentation says: a name alone is
  dialed at port 443; a name with an address is dialed at that address, at port 443 unless the address
  brings its own; the bare scheme means the default name.
\<close>

theorem parseECHProbe_spellings:
  assumes "bare_name n" and "bare_addr a"
  shows "parseECHProbe (''probe://'' @ n) = Inr (n, n @ '':443'')
    \<and> parseECHProbe (''probe://'' @ n @ ''@'' @ a) = Inr (n, dial_addr a)
    \<and> parseECHProbe ''probe'' = Inr (''cloudflare-ech.com'', ''cloudflare-ech.com:443'')
    \<and> parseECHProbe ''probe://'' = Inr (''cloudflare-ech.com'', ''cloudflare-ech.com:443'')"
proof -
  have n: "list_all plain_char n" "CHR ''@'' \<notin> set n" "\<not> contains_any n '':/ ''" "\<not> bad_name_len n" "n \<noteq> []"
    using assms(1) by (auto simp: bare_name_def bad_name_len_def)
  have a: "list_all plain_char a" "CHR ''@'' \<notin> set a" "a \<noteq> []" using assms(2) by (auto simp: bare_addr_def)
  have sl: "split_last (CHR ''@'') n = None" using n(2) by simp
  have "CHR '':'' \<notin> set n" using n(3) by (auto simp: contains_any_def list_ex_iff)
  then have "parseECHProbe (''probe://'' @ n) = Inr (n, n @ '':443'')"
    unfolding parseECHProbe_def strip_scheme_probe[OF n(1)] probe_target_def sl
    using n by (simp add: Let_def join_host_port_def echProbeDefaultPort_def)
  moreover have na: "list_all plain_char (n @ ''@'' @ a)" using n(1) a(1) by (simp add: plain_char_def is_space_ascii_def)
  have "split_last (CHR ''@'') (n @ ''@'' @ a) = Some (n, a)" using a(2) by (simp add: split_last_append)
  then have "parseECHProbe (''probe://'' @ n @ ''@'' @ a) = Inr (n, dial_addr a)"
    unfolding parseECHProbe_def strip_scheme_probe[OF na]
    using n a by (simp add: probe_target_def Let_def trim_space_all_plain dial_addr_def split: sum.splits)
  moreover have "parseECHProbe ''probe'' = Inr (''cloudflare-ech.com'', ''cloudflare-ech.com:443'')" by code_simp
  moreover have "parseECHProbe ''probe://'' = Inr (''cloudflare-ech.com'', ''cloudflare-ech.com:443'')" by code_simp
  ultimately show ?thesis by blast
qed

theorem parseECHProbe_spellings_witness:
  "parseECHProbe (''probe://'' @ ''chatgpt.com'' @ ''@'' @ ''104.18.32.47'') = Inr (''chatgpt.com'', ''104.18.32.47:443'')"
proof -
  have "bare_name ''chatgpt.com''" "bare_addr ''104.18.32.47''" by code_simp+
  from parseECHProbe_spellings[OF this] have
    "parseECHProbe (''probe://'' @ ''chatgpt.com'' @ ''@'' @ ''104.18.32.47'') = Inr (''chatgpt.com'', dial_addr ''104.18.32.47'')"
    by blast
  moreover have "dial_addr ''104.18.32.47'' = ''104.18.32.47:443''" by code_simp
  ultimately show ?thesis by simp
qed

end
