(* ===== verification/Validate.thy ===== *)
theory Validate
  imports Noise Ech_Probe
begin

text \<open>
  Option checking of \<^verbatim>\<open>libv2ray_fetch.go\<close> (lines 207 to 337) and the version ladder of
  \<^verbatim>\<open>libv2ray_fetch_h3.go\<close> (lines 140 to 168): \<open>alpnMode\<close>, \<open>alpnOffer\<close>, \<open>negotiatedName\<close>, \<open>quicAttempts\<close> and
  \<open>validate\<close>. What the code asks of xray is a parameter: \<open>knownFP\<close> says whether \<^verbatim>\<open>xtls.GetFingerprint\<close> knows a
  name, \<open>h3ladder\<close> is \<^verbatim>\<open>quicdial.H3\<close>.
\<close>

section \<open>The model\<close>

datatype alpn_mode = AlpnAuto | AlpnH1 | AlpnH2 | AlpnH3

text \<open>The values of the mode constants.\<close>

fun alpn_text :: "alpn_mode \<Rightarrow> string" where
  "alpn_text AlpnAuto = ''auto''"
| "alpn_text AlpnH1 = ''h1''"
| "alpn_text AlpnH2 = ''h2''"
| "alpn_text AlpnH3 = ''h3''"

definition alpnMode :: "('a transportOptions_scheme) \<Rightarrow> alpn_mode res" where
  "alpnMode o' =
     (let s = to_lower (trim_space (opt_ALPN o')) in
      if s \<in> set ['''', ''auto''] then Inr AlpnAuto
      else if s \<in> set [''h1'', ''http1'', ''http/1.1'', ''http1.1''] then Inr AlpnH1
      else if s \<in> set [''h2'', ''http2'', ''http/2''] then Inr AlpnH2
      else if s \<in> set [''h3'', ''http3'', ''http/3'', ''quic''] then Inr AlpnH3
      else Inl (Errorf ''unknown alpn %q'' [S (opt_ALPN o')]))"

fun alpnOffer :: "alpn_mode \<Rightarrow> string list" where
  "alpnOffer AlpnH1 = [''http/1.1'']"
| "alpnOffer AlpnH2 = [''h2'']"
| "alpnOffer AlpnH3 = [''h3'']"
| "alpnOffer AlpnAuto = [''h2'', ''http/1.1'']"

definition negotiatedName :: "string \<Rightarrow> string" where
  "negotiatedName proto = (if proto = '''' then ''http/1.1'' else proto)"

datatype quic_version = Version1 | Version2

definition quicAttempts ::
    "quic_version list list \<Rightarrow> ('a transportOptions_scheme) \<Rightarrow> quic_version list list res" where
  "quicAttempts h3ladder o' =
     (let s = to_lower (trim_space (opt_QUICVersion o')) in
      if s \<in> set ['''', ''auto''] then Inr h3ladder
      else if s \<in> set [''v1'', ''1'', ''quicv1''] then Inr [[Version1]]
      else if s \<in> set [''v2'', ''2'', ''quicv2''] then Inr [[Version2]]
      else Inl (Errorf ''unknown quicVersion %q'' [S (opt_QUICVersion o')]))"

fun versions_text :: "(quic_version list \<Rightarrow> string) \<Rightarrow> nat \<Rightarrow> quic_version list list \<Rightarrow> string \<Rightarrow> string" where
  "versions_text names i [] out = out"
| "versions_text names i (a # as) out =
     versions_text names (Suc i) as ((if i > 0 then out @ '' then '' else out) @ names a)"

definition quicVersionsDialed :: "(quic_version list \<Rightarrow> string) \<Rightarrow> quic_version list list \<Rightarrow> string" where
  "quicVersionsDialed names attempts = versions_text names 0 attempts []"

text \<open>The part of \<^verbatim>\<open>validate\<close> after the mode is known to be h3 (lines 289 to 309).\<close>

definition validate_h3 :: "quic_version list list \<Rightarrow> ('a transportOptions_scheme) \<Rightarrow> unit res" where
  "validate_h3 h3ladder o' =
     (case quicAttempts h3ladder o' of Inl err \<Rightarrow> Inl err
      | Inr _ \<Rightarrow>
          if opt_Fragment o' \<noteq> None then Inl (Errorf ''alpn h3 cannot be combined with fragment'' [])
          else if opt_Proxy o' \<noteq> '''' then Inl (Errorf ''alpn h3 cannot be combined with proxy'' [])
          else if opt_Fingerprint o' \<noteq> '''' then Inl (Errorf ''alpn h3 cannot be combined with fingerprint'' [])
          else Inr ())"

text \<open>The fingerprint checks (lines 311 to 336).\<close>

definition validate_fingerprint :: "(string \<Rightarrow> bool) \<Rightarrow> ('a transportOptions_scheme) \<Rightarrow> unit res" where
  "validate_fingerprint knownFP o' =
     (if opt_Fingerprint o' = '''' then Inr ()
      else if \<not> knownFP (opt_Fingerprint o') then Inl (Errorf ''unknown fingerprint %q'' [S (opt_Fingerprint o')])
      else if \<not> echEnabled o' then Inr ()
      else let fp = to_lower (opt_Fingerprint o') in
        if fp \<in> set [''chrome'', ''firefox''] then Inr ()
        else if fp \<in> set [''random'', ''randomized'', ''randomizednoalpn''] then
          Inl (Errorf ''fingerprint %q cannot be used with ECH'' [S (opt_Fingerprint o')])
        else if has_prefix fp ''hellochrome_'' \<or> has_prefix fp ''hellofirefox_'' then Inr ()
        else Inl (Errorf ''fingerprint %q does not support ECH'' [S (opt_Fingerprint o')]))"

definition validate ::
    "(string \<Rightarrow> bool) \<Rightarrow> quic_version list list \<Rightarrow> ('a transportOptions_scheme) \<Rightarrow> unit res" where
  "validate knownFP h3ladder o' =
     (if opt_IP o' \<noteq> '''' \<and> \<not> valid_ip (opt_IP o') then
        Inl (Errorf ''ip %q is not a valid IP address'' [S (opt_IP o')])
      else if opt_Fragment o' \<noteq> None \<and> opt_Proxy o' \<noteq> '''' then
        Inl (Errorf ''fragment cannot be combined with proxy'' [])
      else case alpnMode o' of Inl err \<Rightarrow> Inl err
      | Inr mode \<Rightarrow>
      (case (case opt_Ech o' of None \<Rightarrow> Inr ()
             | Some ech \<Rightarrow> if ech_Probe ech \<noteq> '''' then
                   (case parseECHProbe (ech_Probe ech) of Inl err \<Rightarrow> Inl err | Inr _ \<Rightarrow> Inr ())
                 else Inr ()) of Inl err \<Rightarrow> Inl err
      | Inr _ \<Rightarrow>
      (case build_noiseConfig o' of Inl err \<Rightarrow> Inl err
      | Inr _ \<Rightarrow>
      let wn = to_lower (trim_space (opt_WNoise o')); qv = to_lower (trim_space (opt_QUICVersion o')) in
      if mode \<noteq> AlpnH3 \<and> wn \<noteq> '''' \<and> wn \<noteq> noiseNone then
        Inl (Errorf ''wnoise needs alpn h3 (alpn is %q)'' [S (alpn_text mode)])
      else if mode \<noteq> AlpnH3 \<and> qv \<noteq> '''' \<and> qv \<noteq> ''auto'' then
        Inl (Errorf ''quicVersion needs alpn h3 (alpn is %q)'' [S (alpn_text mode)])
      else if mode = AlpnH3 then validate_h3 h3ladder o'
      else validate_fingerprint knownFP o')))"

text \<open>The name of a mode is read back as the mode, also in capitals with a space on each side.\<close>

lemma alpnMode_text:
  "alpnMode (zeroOptions\<lparr>opt_ALPN := alpn_text m\<rparr>) = Inr m"
  "alpnMode (zeroOptions\<lparr>opt_ALPN := '' '' @ to_upper (alpn_text m) @ '' ''\<rparr>) = Inr m"
  by (cases m; hypsubst; code_simp)+

section \<open>The contract of the options\<close>

text \<open>
  The specification of an acceptable option set, in the vocabulary of the documentation: a valid
  pinned address, no fragment through a proxy, a known alpn, a readable probe spec and noise plan; on h3
  a known version and nothing that is bound to TCP; elsewhere no QUIC-only option, and with ECH only
  the fingerprints that can carry it.
\<close>

definition quic_options_off :: "('a transportOptions_scheme) \<Rightarrow> bool" where
  "quic_options_off o' \<longleftrightarrow>
     to_lower (trim_space (opt_WNoise o')) \<in> {'''', noiseNone}
     \<and> to_lower (trim_space (opt_QUICVersion o')) \<in> {'''', ''auto''}"

definition tcp_options_off :: "('a transportOptions_scheme) \<Rightarrow> bool" where
  "tcp_options_off o' \<longleftrightarrow> opt_Fragment o' = None \<and> opt_Proxy o' = '''' \<and> opt_Fingerprint o' = ''''"

definition ech_capable :: "string \<Rightarrow> bool" where
  "ech_capable fp =
     (let f = to_lower fp in f = ''chrome'' \<or> f = ''firefox'' \<or> has_prefix f ''hellochrome_'' \<or> has_prefix f ''hellofirefox_'')"

definition fingerprint_ok :: "(string \<Rightarrow> bool) \<Rightarrow> ('a transportOptions_scheme) \<Rightarrow> bool" where
  "fingerprint_ok knownFP o' \<longleftrightarrow>
     opt_Fingerprint o' = ''''
     \<or> (knownFP (opt_Fingerprint o') \<and> (echEnabled o' \<longrightarrow> ech_capable (opt_Fingerprint o')))"

definition probe_ok :: "('a transportOptions_scheme) \<Rightarrow> bool" where
  "probe_ok o' \<longleftrightarrow>
     (case opt_Ech o' of None \<Rightarrow> True | Some e \<Rightarrow> ech_Probe e = '''' \<or> is_ok (parseECHProbe (ech_Probe e)))"

definition options_ok :: "(string \<Rightarrow> bool) \<Rightarrow> ('a transportOptions_scheme) \<Rightarrow> bool" where
  "options_ok knownFP o' \<longleftrightarrow>
     (opt_IP o' = '''' \<or> valid_ip (opt_IP o'))
     \<and> (opt_Fragment o' = None \<or> opt_Proxy o' = '''')
     \<and> probe_ok o' \<and> is_ok (build_noiseConfig o')
     \<and> (case alpnMode o' of
          Inl _ \<Rightarrow> False
        | Inr AlpnH3 \<Rightarrow> is_ok (quicAttempts [] o') \<and> tcp_options_off o'
        | Inr _ \<Rightarrow> quic_options_off o' \<and> fingerprint_ok knownFP o')"

lemma random_not_capable:
  "fp \<in> {''random'', ''randomized'', ''randomizednoalpn''} \<Longrightarrow>
   \<not> (has_prefix fp ''hellochrome_'' \<or> has_prefix fp ''hellofirefox_'')"
  by (auto simp: has_prefix_def)

lemma fingerprint_switch:
  "is_ok (if f \<in> set [''chrome'', ''firefox''] then Inr ()
     else if f \<in> set [''random'', ''randomized'', ''randomizednoalpn''] then Inl a
     else if has_prefix f ''hellochrome_'' \<or> has_prefix f ''hellofirefox_'' then Inr () else Inl b)
   \<longleftrightarrow> f = ''chrome'' \<or> f = ''firefox'' \<or> has_prefix f ''hellochrome_'' \<or> has_prefix f ''hellofirefox_''"
proof (cases "f \<in> set [''random'', ''randomized'', ''randomizednoalpn'']")
  case True
  then show ?thesis using random_not_capable[of f] by auto
next
  case False
  then show ?thesis by (simp only: if_False) simp
qed

lemma validate_fingerprint_iff: "is_ok (validate_fingerprint knownFP o') \<longleftrightarrow> fingerprint_ok knownFP o'"
proof (cases "opt_Fingerprint o' = [] \<or> \<not> knownFP (opt_Fingerprint o') \<or> \<not> echEnabled o'")
  case True
  then show ?thesis
    unfolding validate_fingerprint_def fingerprint_ok_def
    by (cases "opt_Fingerprint o' = []"; cases "knownFP (opt_Fingerprint o')")
      (simp_all only: is_ok.simps simp_thms if_True if_False)
next
  case False
  then have "(opt_Fingerprint o' = []) = False" "knownFP (opt_Fingerprint o') = True" "echEnabled o' = True"
    by simp_all
  then show ?thesis
    unfolding validate_fingerprint_def fingerprint_ok_def ech_capable_def Let_def
    by (simp only: fingerprint_switch simp_thms if_False)
qed

lemma quicAttempts_ladder: "is_ok (quicAttempts l o') = is_ok (quicAttempts [] o')"
  by (simp add: quicAttempts_def Let_def)

lemma validate_h3_iff: "is_ok (validate_h3 l o') \<longleftrightarrow> is_ok (quicAttempts [] o') \<and> tcp_options_off o'"
  using quicAttempts_ladder[of l o']
  by (auto simp: validate_h3_def tcp_options_off_def split: sum.splits)

text \<open>
  C4: option checking is exact. validate accepts an option set iff it meets the documented contract;
  so nothing is silently ignored (a QUIC option off h3, a TCP option on h3, a fragment through a proxy, a
  fingerprint that cannot carry ECH are all refused) and nothing else is refused.
\<close>

theorem validate_iff_options_ok: "is_ok (validate knownFP h3ladder o') \<longleftrightarrow> options_ok knownFP o'"
proof -
  have "(case (case opt_Ech o' of None \<Rightarrow> Inr ()
             | Some ech \<Rightarrow> if ech_Probe ech \<noteq> '''' then
                   (case parseECHProbe (ech_Probe ech) of Inl err \<Rightarrow> Inl err | Inr _ \<Rightarrow> Inr ())
                 else Inr ()) of Inl err \<Rightarrow> False | Inr _ \<Rightarrow> True) = probe_ok o'"
    by (auto simp: probe_ok_def split: option.splits sum.splits)
  then show ?thesis
    using validate_fingerprint_iff[of knownFP o'] validate_h3_iff[of h3ladder o']
    by (cases "alpnMode o'"; cases "build_noiseConfig o'")
      (auto simp: validate_def options_ok_def quic_options_off_def Let_def split: sum.splits alpn_mode.splits)
qed

end
