(* ===== verification/Ech_Cache.thy ===== *)
theory Ech_Cache
  imports Dialing
begin

text \<open>
  The ECH configuration cache of \<^verbatim>\<open>libv2ray_fetch.go\<close> (lines 476 to 554): \<open>echCacheLoad\<close>, \<open>echInvalidate\<close> and
  \<open>echAcquire\<close>, as the sequential functions a single caller runs; \<open>Ech_Flight\<close> has the steps of many
  goroutines that share the cache and the per-key mutexes. What \<^verbatim>\<open>fetch\<close> does is an argument.
\<close>

section \<open>The model\<close>

record echCacheEntry =
  ce_list :: bytes
  ce_err :: "go_error option"
  ce_expire :: gotime

type_synonym ech_cache = "string \<Rightarrow> echCacheEntry option"

definition echNegativeTTL :: duration where "echNegativeTTL = 30 * second"
definition echDefaultTTL :: "32 word" where "echDefaultTTL = 600"

text \<open>What a caller gets from the pair \<^verbatim>\<open>(list, err)\<close>.\<close>

definition entry_result :: "echCacheEntry \<Rightarrow> bytes res" where
  "entry_result e = (case ce_err e of None \<Rightarrow> Inr (ce_list e) | Some err \<Rightarrow> Inl err)"

definition echCacheLoad :: "gotime \<Rightarrow> ech_cache \<Rightarrow> string \<Rightarrow> bytes res option" where
  "echCacheLoad now cache key =
     (case cache key of
        None \<Rightarrow> None
      | Some e \<Rightarrow> if \<not> ce_expire e > now then None else Some (entry_result e))"

definition echInvalidate :: "string \<Rightarrow> ech_cache \<Rightarrow> ech_cache" where
  "echInvalidate key cache = (if key \<noteq> [] then cache(key := None) else cache)"

definition caller_deadline :: "go_error \<Rightarrow> bool" where
  "caller_deadline err = (errors_is err CtxCanceled \<or> errors_is err CtxDeadlineExceeded)"

definition store_failure :: "gotime \<Rightarrow> string \<Rightarrow> go_error \<Rightarrow> ech_cache \<Rightarrow> ech_cache" where
  "store_failure now key err cache =
     (if \<not> caller_deadline err
      then cache(key \<mapsto> \<lparr>ce_list = [], ce_err = Some err, ce_expire = now + echNegativeTTL\<rparr>) else cache)"

definition store_list :: "gotime \<Rightarrow> string \<Rightarrow> bytes \<Rightarrow> 32 word \<Rightarrow> ech_cache \<Rightarrow> ech_cache" where
  "store_list now key list ttl cache =
     (let ttl' = (if ttl = 0 then echDefaultTTL else ttl)
      in cache(key \<mapsto> \<lparr>ce_list = list, ce_err = None, ce_expire = now + uint ttl' * second\<rparr>))"

text \<open>
  The sequential run of one caller. The state is the cache and the history; the clock is read before
  the lock, after it, and when the result is stored.
\<close>

definition echAcquire :: "('f, 'z) dial_env_scheme \<Rightarrow> string
    \<Rightarrow> (ech_cache \<times> history \<Rightarrow> (bytes \<times> 32 word) res \<times> ech_cache \<times> history)
    \<Rightarrow> ech_cache \<times> history \<Rightarrow> bytes res \<times> ech_cache \<times> history" where
  "echAcquire env key fetch st =
     (let (cache, tr) = st in
      case echCacheLoad (env_now env tr) cache key of
        Some r \<Rightarrow> (r, cache, tr)
      | None \<Rightarrow>
          let tr1 = tr @ [LockKey key] in
          (case echCacheLoad (env_now env tr1) cache key of
             Some r \<Rightarrow> (r, cache, tr1 @ [UnlockKey key])
           | None \<Rightarrow>
               (case fetch (cache, tr1) of
                  (Inl err, cache2, tr2) \<Rightarrow>
                    (Inl err, store_failure (env_now env tr2) key err cache2, tr2 @ [UnlockKey key])
                | (Inr (list, ttl), cache2, tr2) \<Rightarrow>
                    (Inr list, store_list (env_now env tr2) key list ttl cache2, tr2 @ [UnlockKey key]))))"

section \<open>The cache as an interface\<close>

text \<open>
  What the request code relies on: a stored value is found until it expires and not after, under its
  own key only; invalidating removes it.
\<close>

locale expiring_cache =
  fixes load :: "gotime \<Rightarrow> 'c \<Rightarrow> string \<Rightarrow> 'v option"
    and put :: "gotime \<Rightarrow> string \<Rightarrow> 'v \<Rightarrow> duration \<Rightarrow> 'c \<Rightarrow> 'c"
    and drop_key :: "string \<Rightarrow> 'c \<Rightarrow> 'c"
  assumes load_put: "load t (put now k v d c) k' = (if k' = k then (if t < now + d then Some v else None) else load t c k')"
    and load_drop: "load t (drop_key k c) k' = (if k' = k \<and> k \<noteq> [] then None else load t c k')"
begin

lemma put_lives:
  "0 \<le> s \<Longrightarrow> load (now + s) (put now k v d c) k = (if s < d then Some v else None)"
  by (simp add: load_put)

lemma drop_put: "k \<noteq> [] \<Longrightarrow> load t (drop_key k (put now k v d c)) k = None"
  by (simp add: load_drop)

lemma put_put: "load t (put now2 k v2 d2 (put now1 k v1 d1 c)) k' = load t (put now2 k v2 d2 c) k'"
  by (simp add: load_put)

end

definition put_result :: "gotime \<Rightarrow> string \<Rightarrow> bytes res \<Rightarrow> duration \<Rightarrow> ech_cache \<Rightarrow> ech_cache" where
  "put_result now key r d cache =
     cache(key \<mapsto> (case r of Inl err \<Rightarrow> \<lparr>ce_list = [], ce_err = Some err, ce_expire = now + d\<rparr>
                   | Inr list \<Rightarrow> \<lparr>ce_list = list, ce_err = None, ce_expire = now + d\<rparr>))"

interpretation echc: expiring_cache echCacheLoad put_result echInvalidate
  by unfold_locales
    (auto simp: echCacheLoad_def put_result_def echInvalidate_def entry_result_def split: sum.splits option.splits)

lemma store_failure_put:
  "store_failure now key err cache = (if caller_deadline err then cache else put_result now key (Inl err) echNegativeTTL cache)"
  by (simp add: store_failure_def put_result_def)

definition ttl_of :: "32 word \<Rightarrow> duration" where
  "ttl_of ttl = uint (if ttl = 0 then echDefaultTTL else ttl) * second"

lemma store_list_put: "store_list now key list ttl cache = put_result now key (Inr list) (ttl_of ttl) cache"
  by (simp add: store_list_def put_result_def ttl_of_def Let_def)

lemma ttl_of_pos: "0 < ttl_of ttl"
proof -
  have "(0::int) < uint w" if "w \<noteq> 0" for w :: "32 word"
    using that by (metis less_le uint_0_iff uint_ge_0)
  then show ?thesis by (simp add: ttl_of_def echDefaultTTL_def)
qed

definition result_ttl :: "(bytes \<times> 32 word) res \<Rightarrow> duration" where
  "result_ttl r = (case r of Inl _ \<Rightarrow> echNegativeTTL | Inr (_, ttl) \<Rightarrow> ttl_of ttl)"

definition result_list :: "(bytes \<times> 32 word) res \<Rightarrow> bytes res" where
  "result_list r = (case r of Inl err \<Rightarrow> Inl err | Inr (list, _) \<Rightarrow> Inr list)"

definition cacheable :: "(bytes \<times> 32 word) res \<Rightarrow> bool" where
  "cacheable r = (case r of Inl err \<Rightarrow> \<not> caller_deadline err | Inr _ \<Rightarrow> True)"

lemma echAcquire_hit:
  "echCacheLoad (env_now env tr) cache key = Some r \<Longrightarrow> echAcquire env key fetch (cache, tr) = (r, cache, tr)"
  by (simp add: echAcquire_def)

lemma echAcquire_fetch:
  assumes "echCacheLoad (env_now env tr) cache key = None"
    and "echCacheLoad (env_now env (tr @ [LockKey key])) cache key = None"
    and "fetch (cache, tr @ [LockKey key]) = (r, cache2, tr2)"
  shows "echAcquire env key fetch (cache, tr)
    = (result_list r,
       if cacheable r then put_result (env_now env tr2) key (result_list r) (result_ttl r) cache2 else cache2,
       tr2 @ [UnlockKey key])"
  using assms
  by (auto simp: echAcquire_def result_list_def result_ttl_def cacheable_def store_failure_put store_list_put
      split: sum.splits)

lemma echAcquire_cases:
  assumes "echAcquire env key fetch (cache, tr) = (r, cache', tr')"
  obtains (hit) t where "echCacheLoad (env_now env t) cache key = Some r" "cache' = cache"
      "(t = tr \<and> tr' = tr) \<or> (t = tr @ [LockKey key] \<and> tr' = t @ [UnlockKey key])"
    | (fetched) fr cache2 tr2 where "echCacheLoad (env_now env tr) cache key = None"
      "echCacheLoad (env_now env (tr @ [LockKey key])) cache key = None"
      "fetch (cache, tr @ [LockKey key]) = (fr, cache2, tr2)" "r = result_list fr"
      "cache' = (if cacheable fr then put_result (env_now env tr2) key r (result_ttl fr) cache2 else cache2)"
      "tr' = tr2 @ [UnlockKey key]"
proof (cases "echCacheLoad (env_now env tr) cache key")
  case (Some r0)
  with assms have "r0 = r" "cache' = cache" "tr' = tr" by (simp_all add: echAcquire_hit)
  with Some show thesis by (intro hit[of tr]) simp_all
next
  case None
  show thesis
  proof (cases "echCacheLoad (env_now env (tr @ [LockKey key])) cache key")
    case (Some r0)
    with None assms have "r0 = r" "cache' = cache" "tr' = (tr @ [LockKey key]) @ [UnlockKey key]"
      by (simp_all add: echAcquire_def)
    with Some show thesis by (intro hit[of "tr @ [LockKey key]"]) simp_all
  next
    case None2: None
    obtain fr cache2 tr2 where f: "fetch (cache, tr @ [LockKey key]) = (fr, cache2, tr2)"
      by (rule prod_cases3)
    from echAcquire_fetch[where fetch = fetch, OF None None2 f] assms show thesis
      by (intro fetched[OF None None2 f]) auto
  qed
qed

text \<open>
  C10: A failed or successful acquisition is remembered for exactly its lifetime. After a fetch the next
  caller of the same key gets the same answer without any network traffic as long as fewer than ttl
  seconds (600 if the answer gave none, 30 for a failure) have passed, and fetches again from then on; a
  failure caused by the caller's own deadline is not remembered at all.
\<close>

theorem echAcquire_remembers:
  assumes "echCacheLoad (env_now env tr) cache key = None"
    and "echCacheLoad (env_now env (tr @ [LockKey key])) cache key = None"
    and "fetch (cache, tr @ [LockKey key]) = (fr, cache, tr2)"
    and "echAcquire env key fetch (cache, tr) = (r, cache', tr')"
  shows "r = result_list fr \<and> 0 < result_ttl fr
    \<and> echCacheLoad t cache' key' =
        (if key' = key \<and> cacheable fr then (if t < env_now env tr2 + result_ttl fr then Some r else None)
         else echCacheLoad t cache key')
    \<and> (cacheable fr \<and> env_now env' tr3 < env_now env tr2 + result_ttl fr
        \<longrightarrow> echAcquire env' key fetch' (cache', tr3) = (r, cache', tr3))"
proof -
  have E: "r = result_list fr"
    "cache' = (if cacheable fr then put_result (env_now env tr2) key r (result_ttl fr) cache else cache)"
    using echAcquire_fetch[where fetch = fetch, OF assms(1-3)] assms(4) by auto
  have pos: "0 < result_ttl fr"
    using ttl_of_pos by (auto simp: result_ttl_def echNegativeTTL_def split: sum.splits prod.splits)
  have l: "echCacheLoad t cache' key' = (if key' = key \<and> cacheable fr
      then (if t < env_now env tr2 + result_ttl fr then Some r else None) else echCacheLoad t cache key')" for t key'
    by (simp add: E(2) echc.load_put)
  show ?thesis
    using E(1) pos l echAcquire_hit[of env' tr3 cache' key r fetch'] by simp
qed

definition demo_fetch :: "ech_cache \<times> history \<Rightarrow> (bytes \<times> 32 word) res \<times> ech_cache \<times> history" where
  "demo_fetch st = (Inr ([1, 2], 60), st)"

theorem echAcquire_remembers_witness:
  "\<exists>cache'. echAcquire demo_net ''k'' demo_fetch (\<lambda>_. None, []) = (Inr [1, 2], cache', [LockKey ''k'', UnlockKey ''k''])
    \<and> echCacheLoad (59 * second) cache' ''k'' = Some (Inr [1, 2]) \<and> echCacheLoad (60 * second) cache' ''k'' = None"
proof -
  have m: "echCacheLoad t (\<lambda>_. None) k = None" for t k by (simp add: echCacheLoad_def)
  have f: "demo_fetch (\<lambda>_. None, [] @ [LockKey ''k'']) = (Inr ([1, 2], 60), \<lambda>_. None, [LockKey ''k''])"
    by (simp add: demo_fetch_def)
  obtain r cache' tr' where a: "echAcquire demo_net ''k'' demo_fetch (\<lambda>_. None, []) = (r, cache', tr')"
    by (rule prod_cases3)
  have t: "tr' = [LockKey ''k'', UnlockKey ''k'']"
    using a by (simp add: echAcquire_def echCacheLoad_def demo_fetch_def)
  have ttl: "result_ttl (Inr ([1, 2], 60)) = 60 * second" by (simp add: result_ttl_def ttl_of_def)
  note R = echAcquire_remembers[where fetch = demo_fetch, OF m m f a]
  note L = R[where fetch' = demo_fetch, THEN conjunct2, THEN conjunct2, THEN conjunct1]
  have "r = Inr [1, 2]" using R[where fetch' = demo_fetch, THEN conjunct1] by (simp add: result_list_def)
  moreover have "echCacheLoad (59 * second) cache' ''k'' = Some r" "echCacheLoad (60 * second) cache' ''k'' = None"
    unfolding L by (simp_all add: ttl cacheable_def demo_net_def)
  ultimately show ?thesis using a t by blast
qed

end
