(* ===== verification/Tls_Dial.thy ===== *)
theory Tls_Dial
  imports Dialing Validate Ech_Cache
begin

text \<open>
  The TLS half of \<^verbatim>\<open>libv2ray_fetch.go\<close> (lines 651 to 749 and 886 to 906), the handshakes of
  \<^verbatim>\<open>roundTripper\<close> (lines 828 to 859), the QUIC dial of \<^verbatim>\<open>libv2ray_fetch_h3.go\<close> (lines 82 to 129) and \<open>echProbe\<close>
  of \<^verbatim>\<open>libv2ray_fetch_probe.go\<close> (lines 174 to 263). The TLS and QUIC stacks are outside: a handshake is an
  event that carries the whole configuration it was started with, and its outcome is an answer of the
  environment.
\<close>

section \<open>The model\<close>

text \<open>
  \<open>env_std_hs\<close> and \<open>env_utls_hs\<close> answer a handshake with an error or the negotiated protocol and whether ECH was
  accepted. \<open>env_knownFP\<close> is \<^verbatim>\<open>xtls.GetFingerprint\<close>, \<open>env_uconn\<close> whether \<^verbatim>\<open>xtls.UClient\<close> returns its own
  connection type, \<open>env_ladder\<close> is \<^verbatim>\<open>quicdial.H3\<close>, \<open>env_quic_dial\<close> the outcome of \<^verbatim>\<open>quicdial.Dial\<close>, and
  \<open>env_h3_config\<close> the TLS configuration that \<^verbatim>\<open>http3\<close> hands to the dial callback for an authority.
\<close>

record 'f tls_env = "'f dial_env" +
  env_std_hs :: "history \<Rightarrow> connid \<Rightarrow> tls_config \<Rightarrow> (string \<times> bool) res"
  env_utls_hs :: "history \<Rightarrow> connid \<Rightarrow> string \<Rightarrow> tls_config \<Rightarrow> (string \<times> bool) res"
  env_knownFP :: "string \<Rightarrow> bool"
  env_uconn :: bool
  env_rand :: "history \<Rightarrow> entropy"
  env_cryptobyte :: cryptobyte
  env_resolve_udp :: "string \<Rightarrow> go_error option"
  env_listen_udp :: "history \<Rightarrow> go_error option"
  env_udp_write :: "history \<Rightarrow> nat \<Rightarrow> go_error option"
  env_ctx_done :: "history \<Rightarrow> nat \<Rightarrow> go_error option"
  env_ladder :: "quic_version list list"
  env_quic_dial :: "history \<Rightarrow> string \<Rightarrow> tls_config \<Rightarrow> quic_version list list \<Rightarrow> go_error option"
  env_h3_config :: "tls_config \<Rightarrow> string \<Rightarrow> tls_config"

definition empty_tls :: tls_config where
  "empty_tls = \<lparr>tc_ServerName = [], tc_InsecureSkipVerify = False, tc_NextProtos = [], tc_EchConfigList = [],
     tc_MinTLS13 = False, tc_NameToVerify = [], tc_RejectionVerifySkipped = False, tc_Capture = False\<rparr>"

definition tlsConfig :: "('a transportOptions_scheme) \<Rightarrow> string \<Rightarrow> bytes \<Rightarrow> string list \<Rightarrow> tls_config" where
  "tlsConfig o' host echList alpn =
     (let sni = (if opt_ServerName o' = [] then host else opt_ServerName o');
          cfg = empty_tls\<lparr>tc_ServerName := sni, tc_InsecureSkipVerify := opt_AllowInsecure o', tc_NextProtos := alpn\<rparr>
      in if length echList > 0 then cfg\<lparr>tc_EchConfigList := echList\<rparr> else cfg)"

record connState =
  cs_proto :: string
  cs_echAccepted :: bool
  cs_set :: bool
  cs_echKey :: string

definition new_connState :: connState where
  "new_connState = \<lparr>cs_proto = [], cs_echAccepted = False, cs_set = False, cs_echKey = []\<rparr>"

definition cs_record :: "string \<Rightarrow> bool \<Rightarrow> connState \<Rightarrow> connState res" where
  "cs_record proto ech s =
     (if cs_set s \<and> cs_proto s \<noteq> proto then
        Inl (Errorf ''connection negotiated %q but an earlier one negotiated %q'' [S proto, S (cs_proto s)])
      else Inr (s\<lparr>cs_proto := proto, cs_echAccepted := ech, cs_set := True\<rparr>))"

definition snapshot :: "connState \<Rightarrow> string \<times> bool" where
  "snapshot s = (cs_proto s, cs_echAccepted s)"

text \<open>\<open>respTLS\<close> is \<^verbatim>\<open>resp.TLS.ECHAccepted\<close>, or \<^const>\<open>None\<close> where the response or its TLS state is nil.\<close>

definition echAcceptedFrom :: "connState \<Rightarrow> bool option \<Rightarrow> bool" where
  "echAcceptedFrom s respTLS =
     (if cs_set s then cs_echAccepted s
      else case respTLS of Some b \<Rightarrow> b | None \<Rightarrow> False)"

text \<open>What the dial closures of one request capture, and the state they share.\<close>

record 'f closure =
  cl_frag :: "'f option"
  cl_host :: string
  cl_ech :: bytes
  cl_mode :: alpn_mode

record reqState =
  rq_conn :: connState
  rq_pending :: "connid option"

definition stdTLSDial :: "('f, 'z) tls_env_scheme \<Rightarrow> ('a transportOptions_scheme) \<Rightarrow> 'f closure \<Rightarrow> string list
    \<Rightarrow> string \<Rightarrow> reqState \<Rightarrow> history \<Rightarrow> connid res \<times> reqState \<times> history" where
  "stdTLSDial env o' cl alpn addr st tr =
     (case rawDial env o' addr (cl_frag cl) tr of
        (Inl err, tr1) \<Rightarrow> (Inl err, st, tr1)
      | (Inr raw, tr1) \<Rightarrow>
          let cfg = tlsConfig o' (cl_host cl) (cl_ech cl) alpn; tr2 = tr1 @ [StdHandshake raw cfg] in
          (case env_std_hs env tr1 raw cfg of
             Inl err \<Rightarrow> (Inl err, st, tr2 @ [ConnClose raw])
           | Inr (proto, ech) \<Rightarrow>
               (case cs_record proto ech (rq_conn st) of
                  Inl err \<Rightarrow> (Inl err, st, tr2 @ [ConnClose raw])
                | Inr cs \<Rightarrow> (Inr raw, st\<lparr>rq_conn := cs\<rparr>, tr2))))"

text \<open>The closure \<^verbatim>\<open>dialTLS\<close> of \<^verbatim>\<open>roundTripper\<close>.\<close>

definition dialTLS :: "('f, 'z) tls_env_scheme \<Rightarrow> ('a transportOptions_scheme) \<Rightarrow> 'f closure
    \<Rightarrow> string \<Rightarrow> reqState \<Rightarrow> history \<Rightarrow> connid res \<times> reqState \<times> history" where
  "dialTLS env o' cl addr st tr =
     (case rawDial env o' addr (cl_frag cl) tr of
        (Inl err, tr1) \<Rightarrow> (Inl err, st, tr1)
      | (Inr raw, tr1) \<Rightarrow>
          if \<not> env_uconn env then (Inl (Errorf ''unexpected uTLS connection type'' []), st, tr1 @ [ConnClose raw])
          else
          let cfg = tlsConfig o' (cl_host cl) (cl_ech cl) []; tr2 = tr1 @ [UtlsHandshake raw (opt_Fingerprint o') cfg] in
          (case env_utls_hs env tr1 raw (opt_Fingerprint o') cfg of
             Inl err \<Rightarrow> (Inl err, st, tr2 @ [ConnClose raw])
           | Inr (proto, ech) \<Rightarrow>
               if cl_mode cl \<noteq> AlpnAuto \<and> negotiatedName proto \<noteq> negotiatedName (hd (alpnOffer (cl_mode cl))) then
                 (Inl (Errorf ''alpn %q requested but fingerprint %q negotiated %q''
                    [S (alpn_text (cl_mode cl)), S (opt_Fingerprint o'), S (negotiatedName proto)]), st, tr2 @ [ConnClose raw])
               else
               (case cs_record proto ech (rq_conn st) of
                  Inl err \<Rightarrow> (Inl err, st, tr2 @ [ConnClose raw])
                | Inr cs \<Rightarrow> (Inr raw, st\<lparr>rq_conn := cs\<rparr>, tr2))))"

text \<open>\<^verbatim>\<open>handoffDialer.get\<close> and \<^verbatim>\<open>discard\<close>.\<close>

definition handoff_get :: "('f, 'z) tls_env_scheme \<Rightarrow> ('a transportOptions_scheme) \<Rightarrow> 'f closure
    \<Rightarrow> string \<Rightarrow> reqState \<Rightarrow> history \<Rightarrow> connid res \<times> reqState \<times> history" where
  "handoff_get env o' cl addr st tr =
     (case rq_pending st of
        Some c \<Rightarrow> (Inr c, st\<lparr>rq_pending := None\<rparr>, tr)
      | None \<Rightarrow> dialTLS env o' cl addr st tr)"

definition handoff_discard :: "reqState \<Rightarrow> history \<Rightarrow> reqState \<times> history" where
  "handoff_discard st tr =
     (case rq_pending st of
        Some c \<Rightarrow> (st\<lparr>rq_pending := None\<rparr>, tr @ [ConnClose c])
      | None \<Rightarrow> (st, tr))"

text \<open>The dial callback of the h3 transport; \<open>sock\<close> is its UDP socket, \<open>cfg0\<close> its TLS configuration.\<close>

definition h3Dial :: "('f, 'z) tls_env_scheme \<Rightarrow> ('a transportOptions_scheme) \<Rightarrow> connid \<Rightarrow> tls_config
    \<Rightarrow> quic_version list list \<Rightarrow> noiseConfig option \<Rightarrow> bytes
    \<Rightarrow> string \<Rightarrow> reqState \<Rightarrow> history \<Rightarrow> connid res \<times> reqState \<times> history" where
  "h3Dial env o' sock cfg0 attempts noise echList addr st tr =
     (case pin_addr o' addr of
        Inl err \<Rightarrow> (Inl err, st, tr)
      | Inr target \<Rightarrow>
      (case env_resolve_udp env target of
         Some err \<Rightarrow> (Inl (Wrapf ''h3: cannot resolve %q: %w'' [S target] err), st, tr)
       | None \<Rightarrow>
       (case (case noise of
                None \<Rightarrow> (Inr (), tr)
              | Some n \<Rightarrow>
                  (case send n target (env_udp_write env tr) (env_ctx_done env tr) (env_rand env tr) of
                     (ps, r, _) \<Rightarrow> (r, tr @ [NoiseBurst sock target ps]))) of
          (Inl err, tr1) \<Rightarrow> (Inl err, st, tr1)
        | (Inr _, tr1) \<Rightarrow>
            let cfg = env_h3_config env cfg0 addr in
            (case env_quic_dial env tr1 target cfg attempts of
               Some err \<Rightarrow> (Inl err, st, tr1 @ [QuicDial sock target cfg False])
             | None \<Rightarrow>
                 let conn = length tr1; tr2 = tr1 @ [QuicDial sock target cfg True] in
                 (case cs_record ''h3'' (length echList > 0) (rq_conn st) of
                    Inl err \<Rightarrow> (Inl err, st, tr2 @ [QuicClose conn])
                  | Inr cs \<Rightarrow> (Inr conn, st\<lparr>rq_conn := cs\<rparr>, tr2))))))"

section \<open>Asking a server for its keys\<close>

definition probe_config :: "('a transportOptions_scheme) \<Rightarrow> string \<Rightarrow> bytes \<Rightarrow> tls_config" where
  "probe_config o' publicName configList =
     empty_tls\<lparr>tc_ServerName := publicName, tc_MinTLS13 := True, tc_NextProtos := [''h2'', ''http/1.1''],
       tc_EchConfigList := configList, tc_InsecureSkipVerify := opt_AllowInsecure o',
       tc_RejectionVerifySkipped := opt_AllowInsecure o',
       tc_NameToVerify := (if opt_Fingerprint o' \<noteq> [] then publicName else [])\<rparr>"

text \<open>What is made of the outcome of the handshake: the retry configs of a rejection, or the error.\<close>

definition probe_verdict :: "string \<Rightarrow> string \<Rightarrow> bytes \<times> go_error option \<Rightarrow> (bytes \<times> 32 word) res" where
  "probe_verdict publicName hostPort outcome =
     (case outcome of
        (_, Some err) \<Rightarrow> Inl (Wrapf ''ECH probe to %s as %s failed: %w'' [S hostPort, S publicName] err)
      | (retryConfigs, None) \<Rightarrow>
          if length retryConfigs = 0 then
            Inl (Errorf ''ECH probe to %s returned no retry_configs: %s is probably not ECH-enabled'' [S hostPort, S publicName])
          else if \<not> looksLikeECHConfigList retryConfigs then
            Inl (Errorf ''ECH probe to %s returned a malformed ECHConfigList'' [S hostPort])
          else Inr (retryConfigs, echProbeTTL))"

definition utls_outcome :: "(string \<times> bool) res \<Rightarrow> bytes \<times> go_error option" where
  "utls_outcome r =
     (case r of Inr _ \<Rightarrow> ([], None)
      | Inl err \<Rightarrow> (case err_root err of UECHRejection retry \<Rightarrow> (retry, None) | _ \<Rightarrow> ([], Some err)))"

definition std_outcome :: "(string \<times> bool) res \<Rightarrow> bytes \<times> go_error option" where
  "std_outcome r =
     (case r of Inr _ \<Rightarrow> ([], None)
      | Inl err \<Rightarrow> (case err_root err of GoECHRejection retry \<Rightarrow> (retry, None) | _ \<Rightarrow> ([], Some err)))"

definition probe_deadline :: "('f, 'z) tls_env_scheme \<Rightarrow> history \<Rightarrow> gotime" where
  "probe_deadline env tr =
     (case env_deadline env of
        None \<Rightarrow> env_now env tr + echProbeTimeout
      | Some dl \<Rightarrow> min dl (env_now env tr + echProbeTimeout))"

definition echProbe :: "('f, 'z) tls_env_scheme \<Rightarrow> ('a transportOptions_scheme) \<Rightarrow> string \<Rightarrow> string \<Rightarrow> history
    \<Rightarrow> (bytes \<times> 32 word) res \<times> history" where
  "echProbe env o' publicName hostPort tr =
     (case bogusECHConfigList (env_cryptobyte env) publicName (env_rand env tr) of
        (Inl err, _) \<Rightarrow> (Inl err, tr)
      | (Inr configList, _) \<Rightarrow>
      (case fragmentConfig env o' of
         Inl err \<Rightarrow> (Inl err, tr)
       | Inr frag \<Rightarrow>
       let dl = probe_deadline env tr in
       (case rawDial (env\<lparr>env_deadline := Some dl\<rparr>) o' hostPort frag tr of
          (Inl err, tr1) \<Rightarrow> (Inl (Wrapf ''ECH probe could not reach %s: %w'' [S hostPort] err), tr1)
        | (Inr conn, tr1) \<Rightarrow>
            let tr2 = tr1 @ [SetDeadline conn (Some dl)]; cfg = probe_config o' publicName configList in
            if opt_Fingerprint o' \<noteq> [] then
              (if \<not> env_knownFP env (opt_Fingerprint o') then
                 (Inl (Errorf ''unknown fingerprint %q'' [S (opt_Fingerprint o')]), tr2 @ [ConnClose conn])
               else (probe_verdict publicName hostPort (utls_outcome (env_utls_hs env tr2 conn (opt_Fingerprint o') cfg)),
                     tr2 @ [UtlsHandshake conn (opt_Fingerprint o') cfg, ConnClose conn]))
            else (probe_verdict publicName hostPort (std_outcome (env_std_hs env tr2 conn cfg)),
                  tr2 @ [StdHandshake conn cfg, ConnClose conn]))))"

section \<open>No dial leaks\<close>

definition req_held :: "reqState \<Rightarrow> nat set" where
  "req_held st = set_option (rq_pending st)"

lemma stdTLSDial_contract:
  assumes "stdTLSDial env o' cl alpn addr st tr = (r, st', tr')"
  shows "dial_contract tr r tr' \<and> rq_pending st' = rq_pending st"
proof -
  obtain r1 tr1 where d: "rawDial env o' addr (cl_frag cl) tr = (r1, tr1)" by fastforce
  note C = rawDial_contract[OF d]
  show ?thesis
  proof (cases r1)
    case Inl
    with assms d C show ?thesis by (auto simp: stdTLSDial_def)
  next
    case (Inr raw)
    let ?hs = "[StdHandshake raw (tlsConfig o' (cl_host cl) (cl_ech cl) alpn)]"
    have "dial_contract tr (Inr raw) (tr1 @ ?hs)" "dial_contract tr (Inl err) (tr1 @ ?hs @ [ConnClose raw])" for err
      using contract_quiet[of tr "Inr raw" tr1 ?hs] contract_close[of tr raw tr1 ?hs] C Inr by auto
    with assms d Inr show ?thesis by (auto simp: stdTLSDial_def Let_def split: sum.splits)
  qed
qed

lemma dialTLS_contract:
  assumes "dialTLS env o' cl addr st tr = (r, st', tr')"
  shows "dial_contract tr r tr' \<and> rq_pending st' = rq_pending st"
proof -
  obtain r1 tr1 where d: "rawDial env o' addr (cl_frag cl) tr = (r1, tr1)" by fastforce
  note C = rawDial_contract[OF d]
  show ?thesis
  proof (cases r1)
    case Inl
    with assms d C show ?thesis by (auto simp: dialTLS_def)
  next
    case (Inr raw)
    let ?hs = "[UtlsHandshake raw (opt_Fingerprint o') (tlsConfig o' (cl_host cl) (cl_ech cl) [])]"
    have "dial_contract tr (Inr raw) (tr1 @ ?hs)" "dial_contract tr (Inl err) (tr1 @ ?hs @ [ConnClose raw])"
      "dial_contract tr (Inl err) (tr1 @ [ConnClose raw])" for err
      using contract_quiet[of tr "Inr raw" tr1 ?hs] contract_close[of tr raw tr1 ?hs] contract_close[of tr raw tr1 "[]"] C Inr
      by auto
    with assms d Inr show ?thesis by (auto simp: dialTLS_def Let_def split: sum.splits if_splits)
  qed
qed

lemma handoff_get_contract:
  assumes "handoff_get env o' cl addr st tr = (r, st', tr')"
  shows "held_contract (req_held st) tr r (req_held st') tr'"
proof (cases "rq_pending st")
  case None
  then have "dialTLS env o' cl addr st tr = (r, st', tr')" using assms by (simp add: handoff_get_def)
  from dialTLS_contract[OF this] show ?thesis by (auto simp: req_held_def intro: held_frame)
next
  case (Some c)
  with assms show ?thesis by (auto simp: handoff_get_def req_held_def held_contract_def)
qed

lemma h3Dial_contract:
  assumes "h3Dial env o' sock cfg0 attempts noise echList addr st tr = (r, st', tr')"
  shows "dial_contract tr r tr' \<and> rq_pending st' = rq_pending st"
proof -
  define burst where "burst = (\<lambda>target. case noise of None \<Rightarrow> (Inr (), tr)
      | Some n \<Rightarrow> (case send n target (env_udp_write env tr) (env_ctx_done env tr) (env_rand env tr) of
                     (ps, r, _) \<Rightarrow> (r, tr @ [NoiseBurst sock target ps])))"
  have q: "\<exists>t. snd (burst a) = tr @ t \<and> list_all quiet t" for a
    by (auto simp: burst_def split: option.splits prod.splits)
  show ?thesis
  proof (cases "\<exists>target. pin_addr o' addr = Inr target \<and> env_resolve_udp env target = None")
    case False
    with assms show ?thesis
      by (auto simp: h3Dial_def contract_refuse split: sum.splits option.splits)
  next
    case True
    then obtain target where t: "pin_addr o' addr = Inr target" "env_resolve_udp env target = None" by blast
    obtain br tr1 where b: "burst target = (br, tr1)" by fastforce
    obtain t1 where t1: "tr1 = tr @ t1" "list_all quiet t1" using q[of target] b by auto
    let ?cfg = "env_h3_config env cfg0 addr"
    have fail: "dial_contract tr (Inl err) tr1" "dial_contract tr (Inl err) (tr1 @ [QuicDial sock target ?cfg False])" for err
      using contract_refuse_quiet[of t1 tr err] contract_refuse_quiet[of "t1 @ [QuicDial sock target ?cfg False]" tr err] t1 by auto
    have w: "dial_contract tr1 (Inr (length tr1)) (tr1 @ [QuicDial sock target ?cfg True])"
      by (rule contract_open) simp_all
    have ok: "dial_contract tr (Inr (length tr1)) (tr1 @ [QuicDial sock target ?cfg True])"
      using w quiet_append[of tr t1] t1 by (auto simp: dial_contract_def)
    have cl: "dial_contract tr (Inl err) (tr1 @ [QuicDial sock target ?cfg True, QuicClose (length tr1)])" for err
      using contract_close_by[OF ok, of "[]" "QuicClose (length tr1)" err] by simp
    show ?thesis
      using assms t b fail ok cl unfolding h3Dial_def burst_def
      by (auto simp: Let_def split: sum.splits option.splits)
  qed
qed

interpretation std_tls: dialer "stdTLSDial env o' cl alpn" req_held
  by unfold_locales (auto simp: req_held_def dest!: stdTLSDial_contract intro: held_frame)

interpretation handoff: dialer "handoff_get env o' cl" req_held
  by unfold_locales (rule handoff_get_contract)

interpretation quic: dialer "h3Dial env o' sock cfg0 attempts noise echList" req_held
  by unfold_locales (auto simp: req_held_def dest!: h3Dial_contract intro: held_frame)

section \<open>What a probe returns\<close>

text \<open>The handshake of a probe, by the stack the fingerprint selects.\<close>

definition probe_hs :: "('f, 'z) tls_env_scheme \<Rightarrow> ('a transportOptions_scheme) \<Rightarrow> history \<Rightarrow> connid \<Rightarrow> tls_config
    \<Rightarrow> (string \<times> bool) res" where
  "probe_hs env o' tr conn cfg =
     (if opt_Fingerprint o' \<noteq> [] then env_utls_hs env tr conn (opt_Fingerprint o') cfg else env_std_hs env tr conn cfg)"

definition probe_event :: "('a transportOptions_scheme) \<Rightarrow> connid \<Rightarrow> tls_config \<Rightarrow> event" where
  "probe_event o' conn cfg =
     (if opt_Fingerprint o' \<noteq> [] then UtlsHandshake conn (opt_Fingerprint o') cfg else StdHandshake conn cfg)"

lemma probe_event_quiet [simp]: "quiet (probe_event o' conn cfg)"
  by (simp add: probe_event_def)

text \<open>The error a stack reports when a server refuses the offered configs and sends others.\<close>

definition rejects_with :: "('a transportOptions_scheme) \<Rightarrow> (string \<times> bool) res \<Rightarrow> bytes \<Rightarrow> bool" where
  "rejects_with o' r list \<longleftrightarrow>
     (\<exists>err. r = Inl err \<and> err_root err = (if opt_Fingerprint o' \<noteq> [] then UECHRejection list else GoECHRejection list))"

lemma probe_verdict_ok:
  "probe_verdict pn hp outcome = Inr (list, ttl) \<Longrightarrow>
   outcome = (list, None) \<and> list \<noteq> [] \<and> looksLikeECHConfigList list \<and> ttl = echProbeTTL"
  by (auto simp: probe_verdict_def split: prod.splits option.splits if_splits)

lemma outcome_rejection:
  "utls_outcome r = (list, None) \<Longrightarrow> list \<noteq> [] \<Longrightarrow> \<exists>err. r = Inl err \<and> err_root err = UECHRejection list"
  "std_outcome r = (list, None) \<Longrightarrow> list \<noteq> [] \<Longrightarrow> \<exists>err. r = Inl err \<and> err_root err = GoECHRejection list"
  by (auto simp: utls_outcome_def std_outcome_def split: sum.splits go_error.splits)

lemma echProbe_keeps_open:
  assumes "echProbe env o' pn hp tr = (r, tr')"
  shows "(\<exists>t. tr' = tr @ t) \<and> (wf_history tr \<longrightarrow> wf_history tr' \<and> set (open_conns tr') = set (open_conns tr))"
proof -
  have "dial_contract tr (Inl (ExtErr [])) tr'"
  proof (cases "\<exists>cl e frag. bogusECHConfigList (env_cryptobyte env) pn (env_rand env tr) = (Inr cl, e) \<and> fragmentConfig env o' = Inr frag")
    case False
    with assms show ?thesis by (auto simp: echProbe_def contract_refuse split: prod.splits sum.splits)
  next
    case True
    then obtain cl e frag where g: "bogusECHConfigList (env_cryptobyte env) pn (env_rand env tr) = (Inr cl, e)"
      "fragmentConfig env o' = Inr frag" by blast
    obtain r1 tr1 where d: "rawDial (env\<lparr>env_deadline := Some (probe_deadline env tr)\<rparr>) o' hp frag tr = (r1, tr1)" by fastforce
    note C = rawDial_contract[OF d]
    show ?thesis
    proof (cases r1)
      case (Inl err)
      with assms g d C show ?thesis by (auto simp: echProbe_def Let_def dial_contract_def)
    next
      case (Inr conn)
      let ?t = "[SetDeadline conn (Some (probe_deadline env tr))]" and ?h = "probe_event o' conn (probe_config o' pn cl)"
      have "tr' = tr1 @ (?t @ [?h]) @ [ConnClose conn] \<or> tr' = tr1 @ ?t @ [ConnClose conn]"
        using assms g d Inr by (auto simp: echProbe_def Let_def probe_event_def split: if_splits)
      then show ?thesis
        using contract_close[of tr conn tr1 "?t @ [?h]"] contract_close[of tr conn tr1 ?t] C Inr by auto
    qed
  qed
  then show ?thesis by (simp add: dial_contract_def)
qed


definition demo_list :: bytes where "demo_list = [0, 5, 0xfe, 0x0d, 0, 1, 9]"

definition demo_tls :: "unit tls_env" where
  "demo_tls = \<lparr>url_parse = url_parse demo_net, env_now = (\<lambda>_. 0), env_deadline = Some 9, env_tcp = (\<lambda>_ _. None),
     env_socks_new = (\<lambda>_ _. None), env_socks_dial = (\<lambda>_ _ _ _. None), env_write = (\<lambda>_ _ _. None),
     env_resp = (\<lambda>_ _. Inr (200, ''200 OK'', 0)), env_fragbuild = (\<lambda>_. Inr (Inr ())), env_fragconn = (\<lambda>_ _. None),
     env_std_hs = (\<lambda>_ _ _. Inl (GoECHRejection demo_list)), env_utls_hs = (\<lambda>_ _ _ _. Inl (UECHRejection demo_list)),
     env_knownFP = (\<lambda>_. True), env_uconn = True, env_rand = (\<lambda>_. replicate 33 5), env_cryptobyte = ref_cryptobyte,
     env_resolve_udp = (\<lambda>_. None), env_listen_udp = (\<lambda>_. None), env_udp_write = (\<lambda>_ _. None),
     env_ctx_done = (\<lambda>_ _. None), env_ladder = [[Version2], [Version1]], env_quic_dial = (\<lambda>_ _ _ _. None),
     env_h3_config = (\<lambda>cfg _. cfg)\<rparr>"


end
