(* ===== verification/Dns_Answers.thy ===== *)
theory Dns_Answers
  imports Go_Net
begin

text \<open>
  Reading DNS replies: \<open>extractECH\<close> (\<^verbatim>\<open>libv2ray_fetch.go\<close>, lines 633 to 649) and \<open>summarizeAnswers\<close> (lines 1169 to
  1203). Messages are those of \<^verbatim>\<open>github.com/miekg/dns\<close>; the record types the program distinguishes are
  constructors, every other type is \<open>OtherRR\<close>. The texts that package prints for a record and for its
  header, its type names and its \<^verbatim>\<open>Fqdn\<close> are parameters. The JSON array of answers is kept as the list of
  its elements.
\<close>

section \<open>The model\<close>

record rr_header =
  hdr_Name :: string
  hdr_Rrtype :: nat
  hdr_Ttl :: "32 word"

datatype svcb_value = SVCBECHConfig bytes | OtherSVCB

datatype rr =
    A rr_header ip
  | AAAA rr_header ip
  | HTTPS rr_header "svcb_value list"
  | OtherRR rr_header

fun Header :: "rr \<Rightarrow> rr_header" where
  "Header (A h _) = h"
| "Header (AAAA h _) = h"
| "Header (HTTPS h _) = h"
| "Header (OtherRR h) = h"

record dns_msg =
  msg_Rcode :: int
  msg_Answer :: "rr list"

text \<open>The inner loop: the first non-empty ECH value of a record.\<close>

fun first_ech :: "svcb_value list \<Rightarrow> bytes option" where
  "first_ech [] = None"
| "first_ech (SVCBECHConfig ech # vs) = (if length ech > 0 then Some ech else first_ech vs)"
| "first_ech (OtherSVCB # vs) = first_ech vs"

fun scan_ech :: "string \<Rightarrow> rr list \<Rightarrow> bytes \<times> 32 word" where
  "scan_ech fq [] = ([], 0)"
| "scan_ech fq (ans # rest) =
     (case ans of
        HTTPS h vs \<Rightarrow>
          if \<not> equal_fold (hdr_Name h) fq then scan_ech fq rest
          else (case first_ech vs of Some ech \<Rightarrow> (ech, hdr_Ttl h) | None \<Rightarrow> scan_ech fq rest)
      | _ \<Rightarrow> scan_ech fq rest)"

definition extractECH :: "(string \<Rightarrow> string) \<Rightarrow> dns_msg option \<Rightarrow> string \<Rightarrow> bytes \<times> 32 word" where
  "extractECH fqdn reply domain =
     (case reply of None \<Rightarrow> ([], 0) | Some m \<Rightarrow> scan_ech (fqdn domain) (msg_Answer m))"

record dnsAnswer =
  an_Name :: string
  an_Type :: string
  an_TTL :: "32 word"
  an_Value :: string

record dns_text =
  rr_string :: "rr \<Rightarrow> string"
  hdr_string :: "rr_header \<Rightarrow> string"
  type_string :: "nat \<Rightarrow> string"

fun rr_ips :: "rr \<Rightarrow> string list" where
  "rr_ips (A _ a) = [show_ip a]"
| "rr_ips (AAAA _ a) = [show_ip a]"
| "rr_ips _ = []"

definition answer_of :: "dns_text \<Rightarrow> rr \<Rightarrow> dnsAnswer" where
  "answer_of tx ans =
     (let hdr = Header ans in
      \<lparr>an_Name = trim_suffix (hdr_Name hdr) ''.'', an_Type = type_string tx (hdr_Rrtype hdr), an_TTL = hdr_Ttl hdr,
       an_Value = trim_space (trim_prefix (rr_string tx ans) (hdr_string tx hdr))\<rparr>)"

text \<open>The loop with its three accumulators; \<open>i\<close> is the loop variable.\<close>

fun summarize_loop :: "dns_text \<Rightarrow> nat \<Rightarrow> rr list \<Rightarrow> dnsAnswer list \<Rightarrow> string list \<Rightarrow> int
    \<Rightarrow> dnsAnswer list \<times> string list \<times> int" where
  "summarize_loop tx i [] out ips ttl = (out, ips, ttl)"
| "summarize_loop tx i (ans # rest) out ips ttl =
     summarize_loop tx (Suc i) rest (out @ [answer_of tx ans]) (ips @ rr_ips ans)
       (if i = 0 then uint (hdr_Ttl (Header ans)) else ttl)"

definition summarizeAnswers :: "dns_text \<Rightarrow> dns_msg \<Rightarrow> dnsAnswer list \<times> string list \<times> int" where
  "summarizeAnswers tx reply = summarize_loop tx 0 (msg_Answer reply) [] [] 0"

section \<open>Which ECH value is taken\<close>

lemma first_ech_spec:
  "first_ech vs = (case filter (\<lambda>b. b \<noteq> []) (concat (map (\<lambda>v. case v of SVCBECHConfig e \<Rightarrow> [e] | OtherSVCB \<Rightarrow> []) vs)) of
     [] \<Rightarrow> None | e # _ \<Rightarrow> Some e)"
  by (induction vs rule: first_ech.induct) auto

text \<open>The specification: the non-empty ECH values of the HTTPS records of one name, in order, with their TTL.\<close>

definition record_values :: "string \<Rightarrow> rr \<Rightarrow> (bytes \<times> 32 word) list" where
  "record_values fq ans =
     (case ans of
        HTTPS h vs \<Rightarrow>
          if equal_fold (hdr_Name h) fq then
            map (\<lambda>b. (b, hdr_Ttl h))
              (filter (\<lambda>b. b \<noteq> []) (concat (map (\<lambda>v. case v of SVCBECHConfig e \<Rightarrow> [e] | OtherSVCB \<Rightarrow> []) vs)))
          else []
      | _ \<Rightarrow> [])"

definition ech_values :: "string \<Rightarrow> rr list \<Rightarrow> (bytes \<times> 32 word) list" where
  "ech_values fq rrs = concat (map (record_values fq) rrs)"

lemma scan_ech_step: "scan_ech fq (ans # rest) = (case record_values fq ans of [] \<Rightarrow> scan_ech fq rest | v # _ \<Rightarrow> v)"
  by (cases ans) (auto simp: record_values_def first_ech_spec split: list.splits)

declare scan_ech.simps(2) [simp del]

lemma scan_ech_spec: "scan_ech fq rrs = (case ech_values fq rrs of [] \<Rightarrow> ([], 0) | v # _ \<Rightarrow> v)"
proof (induction rrs)
  case (Cons ans rest)
  then show ?case by (cases "record_values fq ans") (simp_all add: scan_ech_step ech_values_def)
qed (simp add: ech_values_def)

lemma ech_values_nonempty: "v \<in> set (ech_values fq rrs) \<Longrightarrow> fst v \<noteq> []"
  by (auto simp: ech_values_def record_values_def split: rr.splits if_splits)

text \<open>
  The ECH value taken from a reply is the first non-empty one among the HTTPS records of the
  queried name (compared case-insensitively), with that record's TTL. The empty result, which the caller
  turns into an error, is returned exactly when there is none; records of other names and of other
  types never contribute.
\<close>

theorem extractECH_first:
  "extractECH fqdn (Some m) domain = (case ech_values (fqdn domain) (msg_Answer m) of [] \<Rightarrow> ([], 0) | v # _ \<Rightarrow> v)
   \<and> (fst (extractECH fqdn (Some m) domain) = [] \<longleftrightarrow> ech_values (fqdn domain) (msg_Answer m) = [])
   \<and> extractECH fqdn None domain = ([], 0)"
  using ech_values_nonempty[of _ "fqdn domain" "msg_Answer m"]
  by (cases "ech_values (fqdn domain) (msg_Answer m)") (auto simp: extractECH_def scan_ech_spec)

section \<open>The summary of a reply\<close>

lemma summarize_loop_spec:
  "summarize_loop tx i rrs out ips ttl =
     (out @ map (answer_of tx) rrs, ips @ concat (map rr_ips rrs),
      if i = 0 \<and> rrs \<noteq> [] then uint (hdr_Ttl (Header (hd rrs))) else ttl)"
  by (induction rrs arbitrary: i out ips ttl) auto

text \<open>
  The summary of a reply has one answer per record in the reply's order, with the record's TTL and
  its name without the trailing dot; the addresses are those of the A and AAAA records, in order; and the
  TTL is that of the first record, 0 for an empty reply, never negative.
\<close>

theorem summarizeAnswers_spec:
  "summarizeAnswers tx m =
     (map (answer_of tx) (msg_Answer m), concat (map rr_ips (msg_Answer m)),
      case msg_Answer m of [] \<Rightarrow> 0 | r # _ \<Rightarrow> uint (hdr_Ttl (Header r)))
   \<and> length (fst (summarizeAnswers tx m)) = length (msg_Answer m)
   \<and> 0 \<le> snd (snd (summarizeAnswers tx m)) \<and> snd (snd (summarizeAnswers tx m)) < 2 ^ 32"
proof -
  have "uint w < 4294967296" for w :: "32 word" using uint_lt2p[of w] by simp
  then show ?thesis by (auto simp: summarizeAnswers_def summarize_loop_spec split: list.splits)
qed

end
