(* ===== verification/Http_Stack.thy ===== *)
theory Http_Stack
  imports Tls_Dial Dns_Answers
begin

text \<open>
  The request stack of \<^verbatim>\<open>libv2ray_fetch.go\<close>: the headers (lines 924 to 987), \<open>roundTripper\<close> (lines 751 to 884),
  \<open>h3RoundTripper\<close> of \<^verbatim>\<open>libv2ray_fetch_h3.go\<close> (lines 27 to 138), \<open>echConfigList\<close> (lines 556 to 631) and
  \<open>dnsExchange\<close> (lines 1205 to 1284). The last three call each other: an ECH lookup is a DoH request, which builds
  a transport, which may need an ECH lookup. They are one mutually recursive definition, and its
  termination proof is the proof that a lookup never needs a lookup of its own.

  \<^verbatim>\<open>net/http\<close>, \<^verbatim>\<open>http2\<close> and \<^verbatim>\<open>http3\<close> are seen through \<open>client_do\<close>: a client dials the hops its plan names (one
  per redirect, each an address and whether it is https), each with the dial function of its transport
  as these packages document it, and then the environment gives the response or an error.
\<close>

section \<open>Headers\<close>

type_synonym header = "(string \<times> string list) list"

definition token_char :: "char \<Rightarrow> bool" where
  "token_char c =
     (let n = (of_char c :: nat) in
      48 \<le> n \<and> n \<le> 57 \<or> 65 \<le> n \<and> n \<le> 90 \<or> 97 \<le> n \<and> n \<le> 122 \<or> c \<in> set ''!#$%&*+-.^_`|~'' \<or> n = 39)"

fun canon_key :: "bool \<Rightarrow> string \<Rightarrow> string" where
  "canon_key up [] = []"
| "canon_key up (c # cs) = (if up then upper_char c else lower_char c) # canon_key (c = CHR ''-'') cs"

definition CanonicalHeaderKey :: "string \<Rightarrow> string" where
  "CanonicalHeaderKey k = (if list_all token_char k then canon_key True k else k)"

fun put_header :: "string \<Rightarrow> string \<Rightarrow> header \<Rightarrow> header" where
  "put_header k v [] = [(k, [v])]"
| "put_header k v ((k', vs) # h) = (if k' = k then (k, [v]) # h else (k', vs) # put_header k v h)"

definition header_Set :: "string \<Rightarrow> string \<Rightarrow> header \<Rightarrow> header" where
  "header_Set k v h = put_header (CanonicalHeaderKey k) v h"

definition header_Get :: "header \<Rightarrow> string \<Rightarrow> string" where
  "header_Get h k = (case map_of h (CanonicalHeaderKey k) of Some (v # _) \<Rightarrow> v | _ \<Rightarrow> [])"

definition set_all :: "(string \<times> string) list \<Rightarrow> header \<Rightarrow> header" where
  "set_all kvs h = foldl (\<lambda>h' (k, v). header_Set k v h') h kvs"

text \<open>\<open>tryDefault\<close> is xray's \<^verbatim>\<open>TryDefaultHeadersWith\<close>.\<close>

definition applyHeaders :: "(header \<Rightarrow> string \<Rightarrow> header) \<Rightarrow> ('a transportOptions_scheme) \<Rightarrow> string \<Rightarrow> header \<Rightarrow> header" where
  "applyHeaders tryDefault o' variantDefault h =
     (let browser = (if opt_Browser o' = [] then ''chrome'' else opt_Browser o');
          variant = (if opt_Variant o' = [] then variantDefault else opt_Variant o');
          h1 = tryDefault (header_Set ''User-Agent'' browser h) variant;
          h2 = (if opt_UserAgent o' \<noteq> [] then header_Set ''User-Agent'' (opt_UserAgent o') h1 else h1)
      in set_all (opt_Headers o') h2)"

definition userAgentOnly :: "(header \<Rightarrow> string \<Rightarrow> header) \<Rightarrow> ('a transportOptions_scheme) \<Rightarrow> string" where
  "userAgentOnly tryDefault o' =
     (if opt_UserAgent o' \<noteq> [] then opt_UserAgent o'
      else let browser = (if opt_Browser o' = [] then ''chrome'' else opt_Browser o')
           in header_Get (tryDefault (header_Set ''User-Agent'' browser []) []) ''User-Agent'')"

definition applyDoHHeaders :: "(header \<Rightarrow> string \<Rightarrow> header) \<Rightarrow> ('a transportOptions_scheme) \<Rightarrow> header \<Rightarrow> header" where
  "applyDoHHeaders tryDefault o' h =
     (let h1 = header_Set ''Content-Type'' ''application/dns-message'' (header_Set ''Accept'' ''application/dns-message'' h);
          ua = userAgentOnly tryDefault o';
          h2 = (if ua \<noteq> [] then header_Set ''User-Agent'' ua h1 else h1)
      in set_all (opt_Headers o') h2)"

section \<open>The HTTP client\<close>

text \<open>A response: \<open>hr_TLSEch\<close> is \<^verbatim>\<open>resp.TLS.ECHAccepted\<close>; the body delivers \<open>hr_Body\<close> and then \<open>hr_BodyErr\<close> or the end.\<close>

record http_response =
  hr_StatusCode :: int
  hr_Header :: header
  hr_Proto :: string
  hr_TLSEch :: "bool option"
  hr_Body :: string
  hr_BodyErr :: "go_error option"

record dns_query =
  q_Id :: nat
  q_Name :: string
  q_Type :: nat
  q_UDPSize :: nat
  q_Padding :: nat

record 'f http_env = "'f tls_env" +
  env_plan :: "history \<Rightarrow> string \<Rightarrow> (string \<times> bool) list"
  env_http :: "history \<Rightarrow> http_response res"
  env_default_headers :: "header \<Rightarrow> string \<Rightarrow> header"
  env_gunzip :: "string \<times> go_error option \<Rightarrow> string res"
  env_fqdn :: "string \<Rightarrow> string"
  env_pack :: "dns_query \<Rightarrow> string res"
  env_unpack :: "string \<Rightarrow> dns_msg res"
  env_pad :: "history \<Rightarrow> nat"
  env_type_of :: "string \<Rightarrow> nat option"
  env_rcode_name :: "int \<Rightarrow> string"
  env_dns_text :: dns_text

text \<open>
  The transports \<^verbatim>\<open>roundTripper\<close> can return: \<open>Tr_http\<close> is an \<^verbatim>\<open>http.Transport\<close> with a DialContext that runs
  \<^verbatim>\<open>rawDial\<close> and an optional TLSClientConfig; \<open>Tr_http2_std\<close> the \<^verbatim>\<open>http2.Transport\<close> over \<^verbatim>\<open>stdTLSDial\<close>; \<open>Tr_utls\<close> the
  transport over the handoff dialer, an \<^verbatim>\<open>http2.Transport\<close> or an \<^verbatim>\<open>http.Transport\<close> that has only a DialTLSContext;
  \<open>Tr_h3\<close> the \<^verbatim>\<open>http3.Transport\<close> on its own UDP socket.
\<close>

datatype 'f transport =
    Tr_http "'f option" "tls_config option" bool
  | Tr_http2_std "'f closure"
  | Tr_utls bool "'f closure"
  | Tr_h3 connid tls_config "quic_version list list" "noiseConfig option" bytes

datatype cleanup = Noop | Discard | CloseH3 connid

definition addr_host :: "string \<Rightarrow> string" where
  "addr_host addr = (case split_host_port addr of Inr (h, _) \<Rightarrow> h | Inl _ \<Rightarrow> addr)"

text \<open>\<^verbatim>\<open>http.Transport\<close> without a DialTLSContext: dial, then for https a handshake with its TLSClientConfig,
  whose empty server name is filled with the host dialed.\<close>

definition net_http_tls :: "('f, 'z) http_env_scheme \<Rightarrow> tls_config option \<Rightarrow> string \<Rightarrow> connid \<Rightarrow> history
    \<Rightarrow> connid res \<times> history" where
  "net_http_tls env cfg addr c tr =
     (let cfg0 = (case cfg of None \<Rightarrow> empty_tls | Some x \<Rightarrow> x);
          cfg1 = (if tc_ServerName cfg0 = [] then cfg0\<lparr>tc_ServerName := addr_host addr\<rparr> else cfg0);
          tr1 = tr @ [StdHandshake c cfg1]
      in case env_std_hs env tr c cfg1 of
           Inl err \<Rightarrow> (Inl err, tr1 @ [ConnClose c])
         | Inr _ \<Rightarrow> (Inr c, tr1))"

definition hop_dial :: "('f, 'z) http_env_scheme \<Rightarrow> ('a transportOptions_scheme) \<Rightarrow> 'f transport
    \<Rightarrow> string \<times> bool \<Rightarrow> reqState \<Rightarrow> history \<Rightarrow> connid res \<times> reqState \<times> history" where
  "hop_dial env o' trp hop st tr =
     (let (addr, https) = hop in
      case trp of
        Tr_http frag cfg _ \<Rightarrow>
          (case rawDial env o' addr frag tr of
             (Inl err, tr1) \<Rightarrow> (Inl err, st, tr1)
           | (Inr c, tr1) \<Rightarrow>
               if \<not> https then (Inr c, st, tr1)
               else case net_http_tls env cfg addr c tr1 of (r, tr2) \<Rightarrow> (r, st, tr2))
      | Tr_http2_std cl \<Rightarrow>
          if https then stdTLSDial env o' cl (alpnOffer (cl_mode cl)) addr st tr
          else (Inl (ExtErr ''http2: unsupported scheme''), st, tr)
      | Tr_utls h2 cl \<Rightarrow>
          if https then handoff_get env o' cl addr st tr
          else if h2 then (Inl (ExtErr ''http2: unsupported scheme''), st, tr)
          else (case tcp_dial env 0 addr tr of (r, tr1) \<Rightarrow> (r, st, tr1))
      | Tr_h3 sock cfg attempts noise echList \<Rightarrow>
          if https then h3Dial env o' sock cfg attempts noise echList addr st tr
          else (Inl (ExtErr ''http3: unsupported protocol scheme''), st, tr))"

text \<open>\<^verbatim>\<open>http.Client.Do\<close>: the response or the error in a \<^verbatim>\<open>*url.Error\<close>, and the connections the client was given
  and now owns.\<close>

definition client_do :: "('f, 'z) http_env_scheme \<Rightarrow> ('a transportOptions_scheme) \<Rightarrow> 'f transport
    \<Rightarrow> string \<Rightarrow> string \<Rightarrow> header \<Rightarrow> string \<Rightarrow> reqState \<Rightarrow> history
    \<Rightarrow> http_response res \<times> connid list \<times> reqState \<times> history" where
  "client_do env o' trp meth url h body st tr =
     (let tr0 = tr @ [HttpDo meth url h body] in
      case dial_all (hop_dial env o' trp) (env_plan env tr0 url) st tr0 of
        (cs, Some err, st1, tr1) \<Rightarrow> (Inl (Wrapf ''%s %q: %w'' [S meth, S url] err), cs, st1, tr1 @ map HttpConn cs)
      | (cs, None, st1, tr1) \<Rightarrow>
          ((case env_http env tr1 of Inl err \<Rightarrow> Inl (Wrapf ''%s %q: %w'' [S meth, S url] err) | Inr resp \<Rightarrow> Inr resp),
           cs, st1, tr1 @ map HttpConn cs))"

text \<open>The deferred cleanup; closing the h3 transport closes the QUIC connections of the client.\<close>

definition run_cleanup :: "cleanup \<Rightarrow> connid list \<Rightarrow> reqState \<Rightarrow> history \<Rightarrow> reqState \<times> history" where
  "run_cleanup cl cs st tr =
     (case cl of
        Noop \<Rightarrow> (st, tr)
      | Discard \<Rightarrow> handoff_discard st tr
      | CloseH3 sock \<Rightarrow> (st, tr @ map QuicClose cs @ [UdpClose sock]))"

text \<open>\<^verbatim>\<open>http.NewRequestWithContext\<close>: the method must be a token and the URL must parse.\<close>

definition new_request :: "('f, 'z) http_env_scheme \<Rightarrow> string \<Rightarrow> string \<Rightarrow> go_error option" where
  "new_request env meth url =
     (if meth \<noteq> [] \<and> \<not> list_all token_char meth then Some (Errorf ''net/http: invalid method %q'' [S meth])
      else case url_parse env url of Inl err \<Rightarrow> Some err | Inr _ \<Rightarrow> None)"

text \<open>\<^verbatim>\<open>io.ReadAll(io.LimitReader(r, n))\<close>.\<close>

definition limited :: "nat \<Rightarrow> string \<Rightarrow> go_error option \<Rightarrow> string \<times> go_error option" where
  "limited n body err = (if length body \<ge> n then (take n body, None) else (body, err))"

definition read_limited :: "nat \<Rightarrow> string \<Rightarrow> go_error option \<Rightarrow> string res" where
  "read_limited n body err = (case limited n body err of (b, None) \<Rightarrow> Inr b | (b, Some e) \<Rightarrow> Inl e)"

section \<open>Building a transport\<close>

text \<open>The http branch of \<^verbatim>\<open>roundTripper\<close> (lines 772 to 786).\<close>

definition plain_transport :: "alpn_mode \<Rightarrow> 'f option \<Rightarrow> ('f transport \<times> cleanup) res" where
  "plain_transport mode frag =
     (if mode = AlpnH2 then Inl (Errorf ''alpn h2 needs an https url'' [])
      else if mode = AlpnH3 then Inl (Errorf ''alpn h3 needs an https url'' [])
      else Inr (Tr_http frag None False, Noop))"

definition h3RoundTripper :: "('f, 'z) http_env_scheme \<Rightarrow> ('a transportOptions_scheme) \<Rightarrow> url \<Rightarrow> bytes \<Rightarrow> history
    \<Rightarrow> ('f transport \<times> cleanup) res \<times> history" where
  "h3RoundTripper env o' u echList tr =
     (case quicAttempts (env_ladder env) o' of
        Inl err \<Rightarrow> (Inl err, tr)
      | Inr attempts \<Rightarrow>
      (case build_noiseConfig o' of
         Inl err \<Rightarrow> (Inl err, tr)
       | Inr noise \<Rightarrow>
       (case env_listen_udp env tr of
          Some err \<Rightarrow> (Inl (Wrapf ''h3: cannot open udp socket: %w'' [] err), tr @ [ListenUDP False])
        | None \<Rightarrow>
            let sock = length tr;
                cfg0 = tlsConfig o' (Hostname u) echList [''h3''];
                cfg = (if opt_ServerName o' = [] then cfg0\<lparr>tc_ServerName := []\<rparr> else cfg0)
            in (Inr (Tr_h3 sock cfg attempts noise echList, CloseH3 sock), tr @ [ListenUDP True]))))"

text \<open>The https branch once the ECH list is known (lines 794 to 883).\<close>

definition tls_transport :: "('f, 'z) http_env_scheme \<Rightarrow> ('a transportOptions_scheme) \<Rightarrow> url \<Rightarrow> 'f option \<Rightarrow> alpn_mode
    \<Rightarrow> bytes \<Rightarrow> reqState \<Rightarrow> history \<Rightarrow> ('f transport \<times> cleanup) res \<times> reqState \<times> history" where
  "tls_transport env o' u frag mode echList st tr =
     (let cl = \<lparr>cl_frag = frag, cl_host = Hostname u, cl_ech = echList, cl_mode = mode\<rparr> in
      if mode = AlpnH3 then (case h3RoundTripper env o' u echList tr of (r, tr1) \<Rightarrow> (r, st, tr1))
      else if opt_Fingerprint o' = [] then
        (if mode = AlpnH2 then (Inr (Tr_http2_std cl, Noop), st, tr)
         else (Inr (Tr_http frag (Some (tlsConfig o' (Hostname u) echList (alpnOffer mode))) (mode = AlpnAuto), Noop), st, tr))
      else if \<not> env_knownFP env (opt_Fingerprint o') then
        (Inl (Errorf ''unknown fingerprint %q'' [S (opt_Fingerprint o')]), st, tr)
      else
        (case dialTLS env o' cl (canonicalAddr u) st tr of
           (Inl err, st1, tr1) \<Rightarrow> (Inl err, st1, tr1)
         | (Inr probe, st1, tr1) \<Rightarrow>
             let st2 = st1\<lparr>rq_pending := Some probe\<rparr>; (alpn, _) = snapshot (rq_conn st2)
             in (Inr (Tr_utls (alpn = ''h2'') cl, Discard), st2, tr1)))"

end
