(* ===== verification/Ech_Lookup.thy ===== *)
theory Ech_Lookup
  imports Http_Stack
begin

text \<open>
  The mutually recursive part of the request stack: \<open>echConfigList\<close>, \<open>roundTripper\<close> and \<open>dnsExchange\<close>, with what a
  DoH request does once its transport is there (\<open>doh_request\<close>). The state is the ECH cache and the history.
\<close>

type_synonym world = "ech_cache \<times> history"

definition new_req :: reqState where
  "new_req = \<lparr>rq_conn = new_connState, rq_pending = None\<rparr>"

definition maxDNSBytes :: nat where "maxDNSBytes = 65536"

text \<open>
  \<^verbatim>\<open>dnsExchange\<close> from the request on (lines 1238 to 1283): the reply or an error, the protocol, whether ECH was
  accepted. A rejection drops the cache entry the ECH config came from.
\<close>

definition doh_reply :: "('f, 'z) http_env_scheme \<Rightarrow> http_response \<Rightarrow> dns_msg res" where
  "doh_reply env resp =
     (if hr_StatusCode resp \<noteq> 200 then
        (let detail = trim_space (fst (limited 512 (hr_Body resp) (hr_BodyErr resp))) in
         if detail \<noteq> [] then Inl (Errorf ''doh query failed with status %d: %s'' [N (hr_StatusCode resp), S detail])
         else Inl (Errorf ''doh query failed with status %d'' [N (hr_StatusCode resp)]))
      else case read_limited maxDNSBytes (hr_Body resp) (hr_BodyErr resp) of
          Inl err \<Rightarrow> Inl err
        | Inr body \<Rightarrow>
            (case env_unpack env body of
               Inl err \<Rightarrow> Inl (Wrapf ''malformed doh response: %w'' [] err)
             | Inr reply \<Rightarrow> Inr reply))"

definition doh_request :: "('f, 'z) http_env_scheme \<Rightarrow> ('a transportOptions_scheme) \<Rightarrow> string \<Rightarrow> string
    \<Rightarrow> 'f transport \<Rightarrow> cleanup \<Rightarrow> reqState \<Rightarrow> world \<Rightarrow> (dns_msg res \<times> string \<times> bool) \<times> world" where
  "doh_request env o' server wire trp cl st w =
     (let (cache, tr) = w in
      case new_request env ''POST'' server of
        Some err \<Rightarrow> ((Inl err, [], False), cache, snd (run_cleanup cl [] st tr))
      | None \<Rightarrow>
          (case client_do env o' trp ''POST'' server (applyDoHHeaders (env_default_headers env) o' []) wire st tr of
             (Inl err, cs, st1, tr1) \<Rightarrow>
               ((Inl err, [], False),
                if echEnabled o' \<and> echRejected err then echInvalidate (cs_echKey (rq_conn st1)) cache else cache,
                snd (run_cleanup cl cs st1 tr1))
           | (Inr resp, cs, st1, tr1) \<Rightarrow>
               ((doh_reply env resp, hr_Proto resp, echAcceptedFrom (rq_conn st1) (hr_TLSEch resp)),
                cache, snd (run_cleanup cl cs st1 tr1))))"

definition typeHTTPS :: nat where "typeHTTPS = 65"

definition probe_key :: "string \<Rightarrow> string \<Rightarrow> string \<Rightarrow> string" where
  "probe_key publicName hostPort proxy = ''probe|'' @ publicName @ ''|'' @ hostPort @ ''|'' @ proxy"

definition doh_key :: "string \<Rightarrow> string \<Rightarrow> string \<Rightarrow> string" where
  "doh_key domain doh proxy = ''doh|'' @ domain @ ''|'' @ doh @ ''|'' @ proxy"

text \<open>A pinned list (lines 567 to 578).\<close>

definition pinned_list :: "string \<Rightarrow> bytes res" where
  "pinned_list text =
     (case b64_decode StdEncoding text of
        Inl err \<Rightarrow> Inl (Wrapf ''invalid ech.configList: %w'' [] err)
      | Inr list \<Rightarrow>
          if \<not> looksLikeECHConfigList list then Inl (Errorf ''invalid ech.configList: not a well-formed ECHConfigList'' [])
          else Inr list)"

definition probe_fetch :: "('f, 'z) http_env_scheme \<Rightarrow> ('a transportOptions_scheme) \<Rightarrow> string \<Rightarrow> string
    \<Rightarrow> world \<Rightarrow> (bytes \<times> 32 word) res \<times> world" where
  "probe_fetch env o' publicName hostPort w =
     (case echProbe env o' publicName hostPort (snd w) of (r, tr) \<Rightarrow> (r, fst w, tr))"

text \<open>What the DoH fetch makes of the exchange (lines 614 to 622).\<close>

definition lookup_result :: "(string \<Rightarrow> string) \<Rightarrow> string \<Rightarrow> dns_msg res \<Rightarrow> (bytes \<times> 32 word) res" where
  "lookup_result fqdn domain r =
     (case r of
        Inl err \<Rightarrow> Inl (Wrapf ''ECH lookup for %s failed: %w'' [S domain] err)
      | Inr reply \<Rightarrow>
          (case extractECH fqdn (Some reply) domain of
             (list, ttl) \<Rightarrow>
               if length list = 0 then Inl (Errorf ''no ECH record for %s'' [S domain]) else Inr (list, ttl)))"

definition lookupOpts :: "('a transportOptions_scheme) \<Rightarrow> ('a transportOptions_scheme)" where
  "lookupOpts o' = o'\<lparr>opt_Ech := None, opt_IP := []\<rparr>"

lemma lookupOpts_disabled [simp]: "\<not> echEnabled (lookupOpts o')"
  by (simp add: lookupOpts_def echEnabled_def)

function echConfigList :: "('f, 'z) http_env_scheme \<Rightarrow> ('a transportOptions_scheme) \<Rightarrow> string \<Rightarrow> world
      \<Rightarrow> (bytes \<times> string) res \<times> world"
  and roundTripper :: "('f, 'z) http_env_scheme \<Rightarrow> ('a transportOptions_scheme) \<Rightarrow> url \<Rightarrow> reqState \<Rightarrow> world
      \<Rightarrow> ('f transport \<times> cleanup) res \<times> reqState \<times> world"
  and dnsExchange :: "('f, 'z) http_env_scheme \<Rightarrow> ('a transportOptions_scheme) \<Rightarrow> string \<Rightarrow> string \<Rightarrow> nat \<Rightarrow> world
      \<Rightarrow> (dns_msg res \<times> string \<times> bool) \<times> world"
where
  "echConfigList env o' host w =
     (if \<not> echEnabled o' then (Inr ([], []), w)
      else case opt_Ech o' of
        None \<Rightarrow> (Inr ([], []), w)
      | Some ech \<Rightarrow>
          if ech_ConfigList ech \<noteq> [] then
            ((case pinned_list (ech_ConfigList ech) of Inl err \<Rightarrow> Inl err | Inr list \<Rightarrow> Inr (list, [])), w)
          else if ech_Probe ech \<noteq> [] then
            (case parseECHProbe (ech_Probe ech) of
               Inl err \<Rightarrow> (Inl err, w)
             | Inr (publicName, hostPort) \<Rightarrow>
                 let key = probe_key publicName hostPort (opt_Proxy o') in
                 (case echAcquire env key (probe_fetch env (lookupOpts o') publicName hostPort) w of
                    (Inl err, w1) \<Rightarrow> (Inl err, w1)
                  | (Inr list, w1) \<Rightarrow> (Inr (list, key), w1)))
          else
            let domain = (if ech_Domain ech = [] then host else ech_Domain ech);
                key = doh_key domain (ech_DoH ech) (opt_Proxy o') in
            (case echAcquire env key
                    (\<lambda>w'. case dnsExchange env (lookupOpts o') (ech_DoH ech) (env_fqdn env domain) typeHTTPS w' of
                       ((r, _, _), w2) \<Rightarrow> (lookup_result (env_fqdn env) domain r, w2)) w of
               (Inl err, w1) \<Rightarrow> (Inl err, w1)
             | (Inr list, w1) \<Rightarrow> (Inr (list, key), w1)))"
| "roundTripper env o' u st w =
     (case fragmentConfig env o' of
        Inl err \<Rightarrow> (Inl err, st, w)
      | Inr frag \<Rightarrow>
      (case alpnMode o' of
         Inl err \<Rightarrow> (Inl err, st, w)
       | Inr mode \<Rightarrow>
           if u_Scheme u = ''http'' then (plain_transport mode frag, st, w)
           else
           (case echConfigList env o' (Hostname u) w of
              (Inl err, w1) \<Rightarrow> (Inl err, st, w1)
            | (Inr (echList, echKey), (cache1, tr1)) \<Rightarrow>
                (case tls_transport env o' u frag mode echList (st\<lparr>rq_conn := (rq_conn st)\<lparr>cs_echKey := echKey\<rparr>\<rparr>) tr1 of
                   (r, st1, tr2) \<Rightarrow> (r, st1, (cache1, tr2))))))"
| "dnsExchange env o' server name qtype w =
     (case url_parse env server of
        Inl err \<Rightarrow> ((Inl (Wrapf ''invalid doh server %q: %w'' [S server] err), [], False), w)
      | Inr su \<Rightarrow>
          if u_Scheme su \<noteq> ''https'' \<and> u_Scheme su \<noteq> ''http'' then
            ((Inl (Errorf ''doh server must be http(s), got %q'' [S (u_Scheme su)]), [], False), w)
          else
          (case env_pack env \<lparr>q_Id = 0, q_Name = name, q_Type = qtype, q_UDPSize = 4096, q_Padding = env_pad env (snd w)\<rparr> of
             Inl err \<Rightarrow> ((Inl err, [], False), w)
           | Inr wire \<Rightarrow>
               (case roundTripper env o' su new_req w of
                  (Inl err, _, w1) \<Rightarrow> ((Inl err, [], False), w1)
                | (Inr (trp, cl), st1, w1) \<Rightarrow> doh_request env o' server wire trp cl st1 w1)))"
  by pat_completeness auto
termination
  by (relation "measure (\<lambda>x. case x of
         Inl (env, o', host, w) \<Rightarrow> if echEnabled o' then 5 else 1
       | Inr (Inl (env, o', u, st, w)) \<Rightarrow> if echEnabled o' then 6 else 2
       | Inr (Inr (env, o', server, name, qtype, w)) \<Rightarrow> if echEnabled o' then 7 else 3)") auto

declare echConfigList.simps [simp del] roundTripper.simps [simp del] dnsExchange.simps [simp del]

section \<open>Which handshakes a transport makes\<close>

text \<open>
  An event is safe for an ECH list if it is not a handshake or is one that offers exactly this list; no
  lock of the cache is touched either.
\<close>

fun ech_safe :: "bytes \<Rightarrow> event \<Rightarrow> bool" where
  "ech_safe l (StdHandshake _ cfg) = (tc_EchConfigList cfg = l)"
| "ech_safe l (UtlsHandshake _ _ cfg) = (tc_EchConfigList cfg = l)"
| "ech_safe l (QuicDial _ _ cfg _) = (tc_EchConfigList cfg = l)"
| "ech_safe l (LockKey _) = False"
| "ech_safe l (UnlockKey _) = False"
| "ech_safe l _ = True"

definition grows :: "bytes \<Rightarrow> history \<Rightarrow> history \<Rightarrow> bool" where
  "grows l tr tr' \<longleftrightarrow> (\<exists>t. tr' = tr @ t \<and> list_all (ech_safe l) t)"

lemma grows_refl [simp]: "grows l tr tr"
  by (simp add: grows_def)

lemma grows_trans: "grows l a b \<Longrightarrow> grows l b c \<Longrightarrow> grows l a c"
  by (auto simp: grows_def)

lemma grows_append [simp]: "grows l a b \<Longrightarrow> list_all (ech_safe l) t \<Longrightarrow> grows l a (b @ t)"
  by (auto simp: grows_def)

lemma tcp_dial_grows: "tcp_dial env t addr tr = (r, tr') \<Longrightarrow> grows l tr tr'"
  by (auto simp: tcp_dial_def grows_def split: option.splits)

lemma proxyConnect_grows: "proxyConnect env c pu addr tr = (r, tr') \<Longrightarrow> grows l tr tr'"
  by (auto simp: proxyConnect_def Let_def grows_def split: option.splits sum.splits if_splits prod.splits)

lemma dialViaProxy_grows:
  assumes "dialViaProxy env o' addr tr = (r, tr')"
  shows "grows l tr tr'"
proof (cases "url_parse env (opt_Proxy o')")
  case (Inl err)
  with assms show ?thesis by (simp add: dialViaProxy_def)
next
  case (Inr pu)
  obtain r1 tr1 where d: "tcp_dial env (timeout o') (u_Host pu) tr = (r1, tr1)" by fastforce
  obtain e2 tr2 where p: "proxyConnect env (case r1 of Inr c \<Rightarrow> c | Inl _ \<Rightarrow> 0) pu addr tr1 = (e2, tr2)" by fastforce
  have g: "grows l tr tr1" "grows l tr tr2" "grows l tr (tr2 @ [ConnClose c])" for c
    using grows_trans[OF tcp_dial_grows[OF d] proxyConnect_grows[OF p], of l] tcp_dial_grows[OF d, of l] by auto
  have "grows l tr (snd (socks_dial env (u_Host pu) (u_User pu) addr tr))"
    by (auto simp: socks_dial_def grows_def split: option.splits)
  with assms Inr d p g show ?thesis
    by (auto simp: dialViaProxy_def Let_def split: if_splits option.splits sum.splits)
qed

lemma rawDial_grows:
  assumes "rawDial env o' addr frag tr = (r, tr')"
  shows "grows l tr tr'"
proof (cases "pin_addr o' addr")
  case (Inl err)
  with assms show ?thesis by (simp add: rawDial_def)
next
  case (Inr a)
  obtain r1 tr1 where d: "(if opt_Proxy o' = [] then tcp_dial env (timeout o') a tr else dialViaProxy env o' a tr) = (r1, tr1)"
    by fastforce
  then have g: "grows l tr tr1" by (auto split: if_splits dest: tcp_dial_grows dialViaProxy_grows)
  with assms Inr d show ?thesis by (auto simp: rawDial_def split: sum.splits option.splits)
qed

lemma tlsConfig_ech [simp]: "tc_EchConfigList (tlsConfig o' host l alpn) = l"
  by (simp add: tlsConfig_def empty_tls_def Let_def)

lemma stdTLSDial_grows:
  assumes "stdTLSDial env o' cl alpn addr st tr = (r, st', tr')"
  shows "grows (cl_ech cl) tr tr'"
proof -
  obtain r1 tr1 where d: "rawDial env o' addr (cl_frag cl) tr = (r1, tr1)" by fastforce
  from rawDial_grows[OF d, of "cl_ech cl"] assms d show ?thesis
    by (auto simp: stdTLSDial_def Let_def split: sum.splits)
qed

lemma dialTLS_grows:
  assumes "dialTLS env o' cl addr st tr = (r, st', tr')"
  shows "grows (cl_ech cl) tr tr'"
proof -
  obtain r1 tr1 where d: "rawDial env o' addr (cl_frag cl) tr = (r1, tr1)" by fastforce
  from rawDial_grows[OF d, of "cl_ech cl"] assms d show ?thesis
    by (auto simp: dialTLS_def Let_def split: sum.splits if_splits)
qed

lemma handoff_get_grows: "handoff_get env o' cl addr st tr = (r, st', tr') \<Longrightarrow> grows (cl_ech cl) tr tr'"
  by (auto simp: handoff_get_def split: option.splits dest: dialTLS_grows)

text \<open>The assumption on \<^verbatim>\<open>http3\<close>: it fills in the server name and leaves the ECH list alone.\<close>

definition h3_keeps_ech :: "('f, 'z) tls_env_scheme \<Rightarrow> bool" where
  "h3_keeps_ech env \<longleftrightarrow> (\<forall>cfg a. tc_EchConfigList (env_h3_config env cfg a) = tc_EchConfigList cfg)"

lemma h3Dial_grows:
  assumes "h3_keeps_ech env" and "h3Dial env o' sock cfg attempts noise l addr st tr = (r, st', tr')"
    and "tc_EchConfigList cfg = l"
  shows "grows l tr tr'"
  using assms
  by (auto simp: h3Dial_def h3_keeps_ech_def Let_def grows_def split: sum.splits option.splits prod.splits)

text \<open>A transport that offers one ECH list in every handshake.\<close>

fun offers :: "bytes \<Rightarrow> 'f transport \<Rightarrow> bool" where
  "offers l (Tr_http frag cfg b) = (case cfg of None \<Rightarrow> False | Some c \<Rightarrow> tc_EchConfigList c = l)"
| "offers l (Tr_http2_std cl) = (cl_ech cl = l)"
| "offers l (Tr_utls b cl) = (cl_ech cl = l)"
| "offers l (Tr_h3 sock cfg attempts noise l') = (tc_EchConfigList cfg = l \<and> l' = l)"

lemma net_http_tls_grows:
  "net_http_tls env (Some cfg) addr c tr = (r, tr') \<Longrightarrow> tc_EchConfigList cfg = l \<Longrightarrow> grows l tr tr'"
  by (auto simp: net_http_tls_def Let_def grows_def split: sum.splits)

lemma hop_dial_grows:
  assumes "h3_keeps_ech env" and "offers l trp" and "hop_dial env o' trp hop st tr = (r, st', tr')"
  shows "grows l tr tr'"
proof (cases trp)
  case (Tr_http frag cfg b)
  obtain r1 tr1 where d: "rawDial env o' (fst hop) frag tr = (r1, tr1)" by fastforce
  note g = rawDial_grows[OF d, of l]
  obtain c0 where c0: "cfg = Some c0" "tc_EchConfigList c0 = l" using assms(2) Tr_http by (cases cfg) auto
  obtain r2 tr2 where n: "net_http_tls env cfg (fst hop) (case r1 of Inr c \<Rightarrow> c | Inl _ \<Rightarrow> 0) tr1 = (r2, tr2)" by fastforce
  have "grows l tr tr2" using grows_trans[OF g net_http_tls_grows] n c0 by metis
  with assms(3) Tr_http d n g show ?thesis
    by (cases hop) (auto simp: hop_dial_def split: sum.splits if_splits)
next
  case (Tr_http2_std cl)
  with assms(2,3) show ?thesis by (cases hop) (auto simp: hop_dial_def split: if_splits dest: stdTLSDial_grows)
next
  case (Tr_utls h2 cl)
  with assms(2,3) show ?thesis
    by (cases hop) (auto simp: hop_dial_def split: if_splits prod.splits dest: handoff_get_grows tcp_dial_grows)
next
  case (Tr_h3 sock cfg attempts noise l')
  with assms show ?thesis
    by (cases hop) (auto simp: hop_dial_def split: if_splits dest: h3Dial_grows)
qed

lemma dial_all_grows:
  assumes "\<And>hop st tr r st' tr'. dial hop st tr = (r, st', tr') \<Longrightarrow> grows l tr tr'"
    and "dial_all dial hops st tr = (cs, e, st', tr')"
  shows "grows l tr tr'"
  using assms(2)
proof (induction hops arbitrary: st tr cs)
  case (Cons a as)
  obtain r s1 tr1 where d: "dial a st tr = (r, s1, tr1)" by (rule prod_cases3)
  with Cons assms(1)[OF d] show ?case by (auto split: sum.splits prod.splits intro: grows_trans)
qed simp

lemma client_do_grows:
  assumes "h3_keeps_ech env" and "offers l trp"
    and "client_do env o' trp meth ur h body st tr = (r, cs, st', tr')"
  shows "grows l tr tr'"
proof -
  let ?tr0 = "tr @ [HttpDo meth ur h body]"
  obtain cs1 e st1 tr1 where d: "dial_all (hop_dial env o' trp) (env_plan env ?tr0 ur) st ?tr0 = (cs1, e, st1, tr1)"
    by (rule prod_cases4)
  have "grows l ?tr0 tr1"
    by (rule dial_all_grows[OF _ d]) (rule hop_dial_grows[OF assms(1,2)])
  moreover have "tr' = tr1 @ map HttpConn cs1" using assms(3) d by (auto simp: client_do_def Let_def split: option.splits)
  moreover have "list_all (ech_safe l) (map HttpConn cs1)" for l by (simp add: list_all_iff)
  moreover have "grows l tr ?tr0" by simp
  ultimately show ?thesis using grows_append grows_trans by blast
qed

lemma tls_transport_grows:
  assumes "h3_keeps_ech env" and "tls_transport env o' u frag mode l st tr = (r, st', tr')"
  shows "grows l tr tr' \<and> (\<forall>trp cl. r = Inr (trp, cl) \<longrightarrow> offers l trp)"
proof -
  let ?cl = "\<lparr>cl_frag = frag, cl_host = Hostname u, cl_ech = l, cl_mode = mode\<rparr>"
  obtain r1 s1 tr1 where d: "dialTLS env o' ?cl (canonicalAddr u) st tr = (r1, s1, tr1)" by (rule prod_cases3)
  have "grows l tr tr1" using dialTLS_grows[OF d] by simp
  with assms(2) d show ?thesis
    by (auto simp: tls_transport_def h3RoundTripper_def snapshot_def Let_def grows_def split: if_splits sum.splits option.splits)
qed

section \<open>Lookups without ECH of their own\<close>

lemma echConfigList_off: "\<not> echEnabled o' \<Longrightarrow> echConfigList env o' host w = (Inr ([], []), w)"
  by (simp add: echConfigList.simps)

lemma run_cleanup_grows: "grows l tr (snd (run_cleanup cl cs st tr))"
  by (auto simp: run_cleanup_def handoff_discard_def grows_def list_all_iff split: cleanup.splits option.splits)

text \<open>The plain transport of an http URL makes handshakes only on a redirect to https, without ECH.\<close>

fun offers_none :: "'f transport \<Rightarrow> bool" where
  "offers_none (Tr_http frag cfg b) = (case cfg of None \<Rightarrow> True | Some c \<Rightarrow> tc_EchConfigList c = [])"
| "offers_none trp = offers [] trp"

lemma hop_dial_none_grows:
  assumes "h3_keeps_ech env" and "offers_none trp" and "hop_dial env o' trp hop st tr = (r, st', tr')"
  shows "grows [] tr tr'"
proof (cases "offers [] trp")
  case True
  from hop_dial_grows[OF assms(1) True assms(3)] show ?thesis .
next
  case False
  then obtain frag b where t: "trp = Tr_http frag None b" using assms(2) by (cases trp) (auto split: option.splits)
  have "net_http_tls env None = net_http_tls env (Some empty_tls)" by (simp add: fun_eq_iff net_http_tls_def)
  then have "hop_dial env o' trp hop st tr = hop_dial env o' (Tr_http frag (Some empty_tls) b) hop st tr"
    by (auto simp: t hop_dial_def split: prod.splits sum.splits)
  moreover have "offers [] (Tr_http frag (Some empty_tls) b)" by (simp add: empty_tls_def)
  ultimately show ?thesis using hop_dial_grows[OF assms(1)] assms(3) by metis
qed

lemma client_do_none_grows:
  assumes "h3_keeps_ech env" and "offers_none trp"
    and "client_do env o' trp meth ur h body st tr = (r, cs, st', tr')"
  shows "grows [] tr tr'"
proof -
  let ?tr0 = "tr @ [HttpDo meth ur h body]"
  obtain cs1 e st1 tr1 where d: "dial_all (hop_dial env o' trp) (env_plan env ?tr0 ur) st ?tr0 = (cs1, e, st1, tr1)"
    by (rule prod_cases4)
  have "grows [] ?tr0 tr1"
    by (rule dial_all_grows[OF _ d]) (rule hop_dial_none_grows[OF assms(1,2)])
  moreover have "tr' = tr1 @ map HttpConn cs1" using assms(3) d by (auto simp: client_do_def Let_def split: option.splits)
  moreover have "list_all (ech_safe l) (map HttpConn cs1)" for l by (simp add: list_all_iff)
  moreover have "grows [] tr ?tr0" by simp
  ultimately show ?thesis using grows_append grows_trans by blast
qed

lemma roundTripper_off:
  assumes "h3_keeps_ech env" and "\<not> echEnabled o'" and "roundTripper env o' u st (c, tr) = (r, st', c', tr')"
  shows "c' = c \<and> grows [] tr tr' \<and> (\<forall>trp cl. r = Inr (trp, cl) \<longrightarrow> offers_none trp)"
proof (cases "\<exists>frag mode. fragmentConfig env o' = Inr frag \<and> alpnMode o' = Inr mode")
  case False
  with assms(3) show ?thesis by (auto simp: roundTripper.simps split: sum.splits)
next
  case True
  then obtain frag mode where f: "fragmentConfig env o' = Inr frag" "alpnMode o' = Inr mode" by blast
  show ?thesis
  proof (cases "u_Scheme u = ''http''")
    case True
    with assms(3) f show ?thesis by (auto simp: roundTripper.simps plain_transport_def split: if_splits)
  next
    case False
    obtain r1 st1 tr1 where t: "tls_transport env o' u frag mode [] (st\<lparr>rq_conn := (rq_conn st)\<lparr>cs_echKey := []\<rparr>\<rparr>) tr = (r1, st1, tr1)"
      by (rule prod_cases3)
    have "offers [] trp \<Longrightarrow> offers_none trp" for trp :: "'a transport" by (cases trp) (auto split: option.splits)
    with assms(2,3) f False t tls_transport_grows[OF assms(1) t] show ?thesis
      by (auto simp: roundTripper.simps echConfigList_off)
  qed
qed

lemma doh_request_off:
  assumes "h3_keeps_ech env" and "\<not> echEnabled o'" and "offers_none trp"
    and "doh_request env o' server wire trp cl st (c, tr) = (r, c', tr')"
  shows "c' = c \<and> grows [] tr tr'"
proof (cases "new_request env ''POST'' server")
  case (Some err)
  with assms(4) run_cleanup_grows[of "[]" tr cl "[]" st] show ?thesis by (auto simp: doh_request_def)
next
  case None
  obtain r1 cs st1 tr1 where d: "client_do env o' trp ''POST'' server (applyDoHHeaders (env_default_headers env) o' []) wire st tr
      = (r1, cs, st1, tr1)" by (rule prod_cases4)
  have "grows [] tr (snd (run_cleanup cl cs st1 tr1))"
    using client_do_none_grows[OF assms(1,3) d] run_cleanup_grows grows_trans by blast
  with None d assms(2,4) show ?thesis by (auto simp: doh_request_def split: sum.splits)
qed

lemma dnsExchange_off:
  assumes "h3_keeps_ech env" and "\<not> echEnabled o'" and "dnsExchange env o' server name qtype (c, tr) = (r, c', tr')"
  shows "c' = c \<and> grows [] tr tr'"
proof (cases "\<exists>su wire. url_parse env server = Inr su \<and> \<not> (u_Scheme su \<noteq> ''https'' \<and> u_Scheme su \<noteq> ''http'')
    \<and> env_pack env \<lparr>q_Id = 0, q_Name = name, q_Type = qtype, q_UDPSize = 4096, q_Padding = env_pad env tr\<rparr> = Inr wire")
  case False
  with assms(3) show ?thesis by (auto simp: dnsExchange.simps split: sum.splits if_splits)
next
  case True
  then obtain su wire where p: "url_parse env server = Inr su" "\<not> (u_Scheme su \<noteq> ''https'' \<and> u_Scheme su \<noteq> ''http'')"
    "env_pack env \<lparr>q_Id = 0, q_Name = name, q_Type = qtype, q_UDPSize = 4096, q_Padding = env_pad env tr\<rparr> = Inr wire" by blast
  obtain r1 st1 c1 tr1 where t: "roundTripper env o' su new_req (c, tr) = (r1, st1, c1, tr1)" by (rule prod_cases4)
  note T = roundTripper_off[OF assms(1,2) t]
  show ?thesis
  proof (cases r1)
    case (Inl err)
    with assms(3) p t T show ?thesis by (auto simp: dnsExchange.simps)
  next
    case (Inr tc)
    obtain trp cl where tc: "tc = (trp, cl)" by fastforce
    have "dnsExchange env o' server name qtype (c, tr) = doh_request env o' server wire trp cl st1 (c1, tr1)"
      using p t Inr tc by (auto simp: dnsExchange.simps)
    with doh_request_off[OF assms(1,2), of trp server wire cl st1 c1 tr1] assms(3) T Inr tc show ?thesis
      by (metis grows_trans)
  qed
qed

section \<open>ECH fails closed\<close>

text \<open>The invariant of the cache: an entry without an error holds a list.\<close>

definition cache_ok :: "ech_cache \<Rightarrow> bool" where
  "cache_ok c \<longleftrightarrow> (\<forall>k e. c k = Some e \<and> ce_err e = None \<longrightarrow> ce_list e \<noteq> [])"

lemma cache_ok_load: "cache_ok c \<Longrightarrow> echCacheLoad t c k = Some (Inr l) \<Longrightarrow> l \<noteq> []"
  by (auto simp: cache_ok_def echCacheLoad_def entry_result_def split: option.splits if_splits)

lemma cache_ok_put: "cache_ok c \<Longrightarrow> (\<And>l. r = Inr l \<Longrightarrow> l \<noteq> []) \<Longrightarrow> cache_ok (put_result now k r d c)"
  by (auto simp: cache_ok_def put_result_def split: sum.splits)

lemma cache_ok_invalidate: "cache_ok c \<Longrightarrow> cache_ok (echInvalidate k c)"
  by (auto simp: cache_ok_def echInvalidate_def)

lemma echAcquire_ok:
  assumes "cache_ok c" and "echAcquire env key fetch (c, tr) = (r, c', tr')"
    and "\<And>h fr c2 h2. fetch (c, h) = (fr, c2, h2) \<Longrightarrow> c2 = c \<and> (\<exists>t. h2 = h @ t) \<and> (\<forall>l ttl. fr = Inr (l, ttl) \<longrightarrow> l \<noteq> [])"
  shows "cache_ok c' \<and> (\<forall>l. r = Inr l \<longrightarrow> l \<noteq> []) \<and> (\<exists>t. tr' = tr @ t)"
  using assms(2)
proof (cases rule: echAcquire_cases)
  case (hit t)
  then show ?thesis using cache_ok_load[OF assms(1)] assms(1) by auto
next
  case (fetched fr c2 tr2)
  note F = assms(3)[OF fetched(3)]
  have "r = Inr l \<Longrightarrow> l \<noteq> []" for l using F fetched(4) by (auto simp: result_list_def split: sum.splits)
  moreover from this have "cache_ok c'" using F fetched(5) assms(1) cache_ok_put by auto
  ultimately show ?thesis using F fetched(6) by auto
qed

lemma looksLike_nonempty: "looksLikeECHConfigList l \<Longrightarrow> l \<noteq> []"
  by (auto simp: looksLikeECHConfigList_def)

lemma probe_fetch_ok:
  assumes "probe_fetch env o' pn hp (c, h) = (fr, c2, h2)"
  shows "c2 = c \<and> (\<exists>t. h2 = h @ t) \<and> (\<forall>l ttl. fr = Inr (l, ttl) \<longrightarrow> l \<noteq> [])"
proof -
  obtain r tr where p: "echProbe env o' pn hp h = (r, tr)" by fastforce
  have "l \<noteq> []" if r: "r = Inr (l, ttl)" for l ttl
    using p r by (auto simp: echProbe_def Let_def split: prod.splits sum.splits if_splits dest!: probe_verdict_ok)
  with p assms echProbe_keeps_open[OF p] show ?thesis by (auto simp: probe_fetch_def)
qed

lemma lookup_result_nonempty: "lookup_result fq d r = Inr (l, ttl) \<Longrightarrow> l \<noteq> []"
  by (auto simp: lookup_result_def split: sum.splits prod.splits if_splits)

definition doh_fetch :: "('f, 'z) http_env_scheme \<Rightarrow> ('a transportOptions_scheme) \<Rightarrow> string \<Rightarrow> string
    \<Rightarrow> world \<Rightarrow> (bytes \<times> 32 word) res \<times> world" where
  "doh_fetch env o' doh domain w =
     (case dnsExchange env o' doh (env_fqdn env domain) typeHTTPS w of
        ((r, _, _), w2) \<Rightarrow> (lookup_result (env_fqdn env) domain r, w2))"

lemma echConfigList_doh:
  assumes "echEnabled o'" and "opt_Ech o' = Some ech" and "ech_ConfigList ech = []" and "ech_Probe ech = []"
    and "d = (if ech_Domain ech = [] then host else ech_Domain ech)"
  shows "echConfigList env o' host w =
    (let key = doh_key d (ech_DoH ech) (opt_Proxy o') in
     case echAcquire env key (doh_fetch env (lookupOpts o') (ech_DoH ech) d) w of
       (Inl err, w1) \<Rightarrow> (Inl err, w1)
     | (Inr list, w1) \<Rightarrow> (Inr (list, key), w1))"
  using assms unfolding doh_fetch_def[abs_def] by (simp add: echConfigList.simps Let_def)

lemma echConfigList_probe:
  assumes "echEnabled o'" and "opt_Ech o' = Some ech" and "ech_ConfigList ech = []" and "ech_Probe ech \<noteq> []"
    and "parseECHProbe (ech_Probe ech) = Inr (pn, hp)"
  shows "echConfigList env o' host w =
    (let key = probe_key pn hp (opt_Proxy o') in
     case echAcquire env key (probe_fetch env (lookupOpts o') pn hp) w of
       (Inl err, w1) \<Rightarrow> (Inl err, w1)
     | (Inr list, w1) \<Rightarrow> (Inr (list, key), w1))"
  using assms by (simp add: echConfigList.simps Let_def)

lemma doh_fetch_ok:
  assumes "h3_keeps_ech env" and "\<not> echEnabled o'" and "doh_fetch env o' doh domain (c, h) = (fr, c2, h2)"
  shows "c2 = c \<and> (\<exists>t. h2 = h @ t) \<and> (\<forall>l ttl. fr = Inr (l, ttl) \<longrightarrow> l \<noteq> [])"
proof -
  obtain r p e c1 tr1 where d: "dnsExchange env o' doh (env_fqdn env domain) typeHTTPS (c, h) = ((r, p, e), c1, tr1)"
    by (metis prod_cases3 surj_pair)
  with dnsExchange_off[OF assms(1,2) d] assms(3) show ?thesis
    by (auto simp: doh_fetch_def grows_def dest: lookup_result_nonempty)
qed

lemma client_do_after:
  assumes "h3_keeps_ech env" and "offers l trp" and "grows l tr1 tr2"
  shows "grows l tr1 (snd (snd (snd (client_do env o' trp meth ur h body st tr2))))"
proof -
  obtain a b d x where c: "client_do env o' trp meth ur h body st tr2 = (a, b, d, x)" by (rule prod_cases4)
  have "grows l tr2 x" using client_do_grows[OF assms(1,2) c] by simp
  with assms(3) have "grows l tr1 x" by (rule grows_trans)
  with c show ?thesis by simp
qed

lemma echConfigList_probe_ok:
  assumes "cache_ok c" and "echEnabled o'" and "opt_Ech o' = Some ech" and "ech_ConfigList ech = []" and "ech_Probe ech \<noteq> []"
    and "echConfigList env o' host (c, tr) = (r, c', tr')"
  shows "cache_ok c' \<and> (\<exists>t. tr' = tr @ t) \<and> (\<forall>l k. r = Inr (l, k) \<longrightarrow> l \<noteq> [])"
proof (cases "parseECHProbe (ech_Probe ech)")
  case (Inl err)
  with assms show ?thesis by (auto simp: echConfigList.simps)
next
  case (Inr nh)
  obtain pn hp where nh: "nh = (pn, hp)" by fastforce
  obtain r1 c1 tr1 where a: "echAcquire env (probe_key pn hp (opt_Proxy o')) (probe_fetch env (lookupOpts o') pn hp) (c, tr)
      = (r1, c1, tr1)" by (rule prod_cases3)
  have "cache_ok c1 \<and> (\<forall>l. r1 = Inr l \<longrightarrow> l \<noteq> []) \<and> (\<exists>t. tr1 = tr @ t)"
    by (rule echAcquire_ok[OF assms(1) a]) (rule probe_fetch_ok)
  with a Inr nh assms(2-) show ?thesis by (auto simp: echConfigList.simps Let_def split: sum.splits)
qed

lemma echConfigList_ok:
  assumes "h3_keeps_ech env" and "cache_ok c" and "echConfigList env o' host (c, tr) = (r, c', tr')"
  shows "cache_ok c' \<and> (\<exists>t. tr' = tr @ t) \<and> (echEnabled o' \<longrightarrow> (\<forall>l k. r = Inr (l, k) \<longrightarrow> l \<noteq> []))"
proof (cases "echEnabled o'")
  case False
  with assms show ?thesis by (simp add: echConfigList_off)
next
  case True
  then obtain ech where ech: "opt_Ech o' = Some ech" by (auto simp: echEnabled_def split: option.splits)
  let ?d = "if ech_Domain ech = [] then host else ech_Domain ech"
  consider (pin) "ech_ConfigList ech \<noteq> []" | (probe) "ech_ConfigList ech = []" "ech_Probe ech \<noteq> []"
    | (doh) "ech_ConfigList ech = []" "ech_Probe ech = []" by blast
  then show ?thesis
  proof cases
    case pin
    with True ech assms(2,3) show ?thesis
      by (auto simp: echConfigList.simps pinned_list_def dest: looksLike_nonempty split: sum.splits if_splits)
  next
    case probe
    then show ?thesis using echConfigList_probe_ok[OF assms(2) True ech _ _ assms(3)] by blast
  next
    case doh
    obtain r1 c1 tr1 where a: "echAcquire env (doh_key ?d (ech_DoH ech) (opt_Proxy o')) (doh_fetch env (lookupOpts o') (ech_DoH ech) ?d) (c, tr)
          = (r1, c1, tr1)" by (rule prod_cases3)
    have "cache_ok c1 \<and> (\<forall>l. r1 = Inr l \<longrightarrow> l \<noteq> []) \<and> (\<exists>t. tr1 = tr @ t)"
      by (rule echAcquire_ok[OF assms(2) a]) (rule doh_fetch_ok[OF assms(1) lookupOpts_disabled])
    with echConfigList_doh[OF True ech doh refl, of env host "(c, tr)"] a assms(3) show ?thesis
      by (auto split: sum.splits)
  qed
qed



definition demo_http :: "unit http_env" where
  "demo_http = \<lparr>url_parse = (\<lambda>_. Inr \<lparr>u_Scheme = ''https'', u_Host = ''h.org'', u_User = None\<rparr>), env_now = (\<lambda>_. 0),
     env_deadline = Some 9, env_tcp = (\<lambda>_ _. None), env_socks_new = (\<lambda>_ _. None), env_socks_dial = (\<lambda>_ _ _ _. None),
     env_write = (\<lambda>_ _ _. None), env_resp = (\<lambda>_ _. Inr (200, ''200 OK'', 0)), env_fragbuild = (\<lambda>_. Inr (Inr ())),
     env_fragconn = (\<lambda>_ _. None), env_std_hs = (\<lambda>_ _ _. Inr (''h2'', True)), env_utls_hs = (\<lambda>_ _ _ _. Inl (UECHRejection [])),
     env_knownFP = (\<lambda>_. True), env_uconn = True, env_rand = (\<lambda>_. replicate 33 5), env_cryptobyte = ref_cryptobyte,
     env_resolve_udp = (\<lambda>_. None), env_listen_udp = (\<lambda>_. None), env_udp_write = (\<lambda>_ _. None),
     env_ctx_done = (\<lambda>_ _. None), env_ladder = [[Version2], [Version1]], env_quic_dial = (\<lambda>_ _ _ _. None),
     env_h3_config = (\<lambda>cfg _. cfg), env_plan = (\<lambda>_ _. [(''h.org:443'', True)]),
     env_http = (\<lambda>_. Inr \<lparr>hr_StatusCode = 200, hr_Header = [], hr_Proto = ''HTTP/2.0'', hr_TLSEch = Some True, hr_Body = ''ok'',
        hr_BodyErr = None\<rparr>), env_default_headers = (\<lambda>h _. h), env_gunzip = (\<lambda>(b, _). Inr b), env_fqdn = (\<lambda>d. d @ ''.''),
     env_pack = (\<lambda>_. Inr []), env_unpack = (\<lambda>_. Inr \<lparr>msg_Rcode = 0, msg_Answer = []\<rparr>), env_pad = (\<lambda>_. 100),
     env_type_of = (\<lambda>_. Some 1), env_rcode_name = (\<lambda>_. ''NOERROR''),
     env_dns_text = \<lparr>rr_string = (\<lambda>_. []), hdr_string = (\<lambda>_. []), type_string = (\<lambda>_. [])\<rparr>\<rparr>"

definition demo_ech :: transportOptions where
  "demo_ech = zeroOptions\<lparr>opt_Ech := Some \<lparr>ech_Domain = [], ech_DoH = [], ech_ConfigList = ''AAX+DQABCQ=='', ech_Probe = []\<rparr>\<rparr>"

definition demo_url :: url where
  "demo_url = \<lparr>u_Scheme = ''https'', u_Host = ''h.org'', u_User = None\<rparr>"

lemma demo_pinned: "echConfigList demo_http demo_ech host w = (Inr (demo_list, []), w)"
proof -
  have "pinned_list ''AAX+DQABCQ=='' = Inr demo_list" by code_simp
  then show ?thesis by (simp add: echConfigList.simps demo_ech_def echEnabled_def)
qed


end
