(* ===== verification/Fetch_Conns.thy ===== *)
theory Fetch_Conns
  imports Ech_Lookup
begin

text \<open>
  Which connections a request leaves open. Every function of the request stack keeps the set of open
  connections that are the program's to close, up to what a transport holds until its cleanup runs.
\<close>

section \<open>The HTTP client\<close>

lemma net_http_tls_contract:
  assumes "dial_contract tr (Inr c) tr1" and "net_http_tls env cfg addr c tr1 = (r, tr2)"
  shows "dial_contract tr r tr2"
proof -
  have "dial_contract tr (Inr c) (tr1 @ [StdHandshake c x])" "dial_contract tr (Inl err) (tr1 @ [StdHandshake c x, ConnClose c])" for x err
    using contract_quiet[OF assms(1), of "[StdHandshake c x]"] contract_close[OF assms(1), of "[StdHandshake c x]"] by auto
  with assms(2) show ?thesis by (auto simp: net_http_tls_def Let_def split: sum.splits)
qed

lemma hop_dial_contract:
  assumes "hop_dial env o' trp hop st tr = (r, st', tr')"
  shows "held_contract (req_held st) tr r (req_held st') tr'"
proof (cases trp)
  case (Tr_http frag cfg b)
  obtain r1 tr1 where d: "rawDial env o' (fst hop) frag tr = (r1, tr1)" by fastforce
  note C = rawDial_contract[OF d]
  have "st' = st \<and> dial_contract tr r tr'"
  proof (cases r1)
    case (Inl err)
    with assms Tr_http d C show ?thesis by (cases hop) (auto simp: hop_dial_def)
  next
    case (Inr c)
    with assms Tr_http d C show ?thesis
      by (cases hop) (auto simp: hop_dial_def split: if_splits prod.splits intro: net_http_tls_contract)
  qed
  then show ?thesis by (auto intro: held_frame)
next
  case (Tr_http2_std cl)
  with assms show ?thesis
    by (cases hop) (auto simp: hop_dial_def contract_refuse intro: held_frame std_tls.contract split: if_splits)
next
  case (Tr_utls h2 cl)
  with assms show ?thesis
    by (cases hop) (auto simp: hop_dial_def contract_refuse intro: held_frame tcp_dial_contract handoff_get_contract
        split: if_splits prod.splits)
next
  case (Tr_h3 sock cfg attempts noise l)
  with assms show ?thesis
    by (cases hop) (auto simp: hop_dial_def contract_refuse intro: held_frame quic.contract split: if_splits)
qed

context dialer
begin

lemma dial_all_extends: "dial_all dial addrs s tr = (cs, e, s', tr') \<Longrightarrow> \<exists>t. tr' = tr @ t"
proof (induction addrs arbitrary: s tr cs)
  case (Cons a as)
  obtain r s1 tr1 where d: "dial a s tr = (r, s1, tr1)" by (rule prod_cases3)
  have "\<exists>t. tr1 = tr @ t" using contract[OF d] by (simp add: held_contract_def)
  with Cons d show ?case by (fastforce split: sum.splits prod.splits)
qed simp

end

interpretation hop: dialer "hop_dial env o' trp" req_held
  by unfold_locales (rule hop_dial_contract)

lemma open_conns_drop:
  assumes "wf_history tr" and "\<forall>e \<in> set t. \<not> opens e \<and> closes e \<subseteq> {..<length tr}"
  shows "wf_history (tr @ t) \<and> set (open_conns (tr @ t)) = set (open_conns tr) - (\<Union>e \<in> set t. closes e)"
  using assms(2)
proof (induction t rule: rev_induct)
  case (snoc e t)
  then have IH: "wf_history (tr @ t)" "set (open_conns (tr @ t)) = set (open_conns tr) - (\<Union>e \<in> set t. closes e)"
    and e: "\<not> opens e" "closes e \<subseteq> {..<length tr}" by auto
  have "wf_history ((tr @ t) @ [e])" using e(2) by (intro wf_history_append1 IH) auto
  moreover have "set (open_conns ((tr @ t) @ [e])) = set (open_conns tr) - (\<Union>e \<in> set (t @ [e]). closes e)"
    using open_conns_append1[OF IH(1), of e] IH(2) e(1) by auto
  ultimately show ?case by simp
qed (simp add: assms(1))

text \<open>Keeping the open connections, and keeping them up to a set that is held for later.\<close>

definition keeps :: "history \<Rightarrow> history \<Rightarrow> bool" where
  "keeps tr tr' \<longleftrightarrow> (\<exists>t. tr' = tr @ t) \<and> (wf_history tr \<longrightarrow> wf_history tr' \<and> set (open_conns tr') = set (open_conns tr))"

definition adds :: "history \<Rightarrow> nat set \<Rightarrow> history \<Rightarrow> bool" where
  "adds tr h tr' \<longleftrightarrow> (\<exists>t. tr' = tr @ t)
     \<and> (wf_history tr \<longrightarrow> wf_history tr' \<and> h \<inter> set (open_conns tr) = {} \<and> set (open_conns tr') = set (open_conns tr) \<union> h)"

lemma keeps_refl [simp]: "keeps tr tr"
  by (simp add: keeps_def)

lemma keeps_trans: "keeps a b \<Longrightarrow> keeps b c \<Longrightarrow> keeps a c"
  by (auto simp: keeps_def)

lemma keeps_adds: "keeps a b \<Longrightarrow> adds b h c \<Longrightarrow> adds a h c"
  by (auto simp: keeps_def adds_def)

lemma adds_empty: "adds a {} b = keeps a b"
  by (auto simp: keeps_def adds_def)

lemma keeps_quiet: "list_all quiet t \<Longrightarrow> keeps tr (tr @ t)"
  using quiet_append[of tr t] by (auto simp: keeps_def)

lemma adds_bound: "adds tr h tr' \<Longrightarrow> wf_history tr \<Longrightarrow> h \<subseteq> {..<length tr'}"
  using open_conns_bound by (fastforce simp: adds_def)

lemma contract_adds: "dial_contract tr (Inr c) tr' \<Longrightarrow> adds tr {c} tr'"
  by (auto simp: dial_contract_def adds_def)

lemma contract_keeps: "dial_contract tr (Inl e) tr' \<Longrightarrow> keeps tr tr'"
  by (auto simp: dial_contract_def keeps_def)

lemma client_do_adds:
  assumes "adds tr0 (H \<union> req_held st) tr" and "H \<inter> req_held st = {}"
    and "client_do env o' trp meth ur h body st tr = (r, cs, st', tr')"
  shows "adds tr0 (H \<union> req_held st') tr'
    \<and> (wf_history tr0 \<longrightarrow> set cs \<subseteq> {..<length tr'} \<and> set cs \<inter> set (open_conns tr0) = {})"
proof -
  let ?trd = "tr @ [HttpDo meth ur h body]"
  obtain cs1 e st1 tr1 where d: "dial_all (hop_dial env o' trp) (env_plan env ?trd ur) st ?trd = (cs1, e, st1, tr1)"
    by (rule prod_cases4)
  have eq: "st' = st1" "cs = cs1" "tr' = tr1 @ map HttpConn cs1"
    using assms(3) d by (auto simp: client_do_def Let_def split: option.splits)
  obtain t1 where t1: "tr1 = ?trd @ t1" using hop.dial_all_extends[OF d] by blast
  have ext: "\<exists>t. tr' = tr0 @ t" using assms(1) eq(3) t1 by (auto simp: adds_def)
  show ?thesis
  proof (cases "wf_history tr0")
    case False
    with ext show ?thesis by (simp add: adds_def)
  next
    case True
    note A = assms(1)[unfolded adds_def]
    have w: "wf_history ?trd" "set (open_conns ?trd) = set (open_conns tr)"
      using quiet_append[of tr "[HttpDo meth ur h body]"] A True by auto
    have D: "wf_history tr1" "req_held st1 \<subseteq> set (open_conns tr1)"
      "set cs1 \<inter> (set (open_conns tr) - req_held st) = {}"
      "set (open_conns tr1) - req_held st1 = (set (open_conns tr) - req_held st) \<union> set cs1"
      using hop.dial_all_holds[OF w(1) _ d] w(2) A True by auto
    have rest: "set (open_conns tr) - req_held st = set (open_conns tr0) \<union> H" using A True assms(2) by auto
    have b: "set cs1 \<subseteq> {..<length tr1}" using D(4) open_conns_bound by blast
    then have O: "wf_history tr'" "set (open_conns tr') = set (open_conns tr1) - set cs1"
      using open_conns_drop[OF D(1), of "map HttpConn cs1"] by (auto simp: eq(3))
    have "set (open_conns tr') = set (open_conns tr0) \<union> (H \<union> req_held st1)"
      using O(2) D(2-4) unfolding rest by blast
    moreover have "(H \<union> req_held st1) \<inter> set (open_conns tr0) = {}" "set cs1 \<inter> set (open_conns tr0) = {}"
      using D(3,4) A True unfolding rest by blast+
    ultimately show ?thesis using ext O(1) b eq by (auto simp: adds_def)
  qed
qed

section \<open>Transports and cleanups\<close>

definition cl_held :: "cleanup \<Rightarrow> nat set" where
  "cl_held cl = (case cl of CloseH3 sock \<Rightarrow> {sock} | _ \<Rightarrow> {})"

text \<open>What the cleanup of a transport must match: a transport with nothing pending unless the cleanup discards it.\<close>

definition cleanup_fits :: "cleanup \<Rightarrow> reqState \<Rightarrow> bool" where
  "cleanup_fits cl st \<longleftrightarrow> cl = Discard \<or> rq_pending st = None"

lemma run_cleanup_keeps:
  assumes "adds tr0 (cl_held cl \<union> req_held st) tr" and "cleanup_fits cl st" and "wf_history tr0 \<longrightarrow> set cs \<subseteq> {..<length tr}"
    and "wf_history tr0 \<longrightarrow> set cs \<inter> set (open_conns tr0) = {}"
  shows "keeps tr0 (snd (run_cleanup cl cs st tr))"
proof (cases "wf_history tr0")
  case False
  then show ?thesis
    using assms(1) by (auto simp: adds_def keeps_def run_cleanup_def handoff_discard_def split: cleanup.splits option.splits)
next
  case True
  note A = assms(1)[unfolded adds_def]
  have b: "cl_held cl \<union> req_held st \<subseteq> {..<length tr}" using adds_bound[OF assms(1) True] .
  show ?thesis
  proof (cases cl)
    case Noop
    with assms show ?thesis by (simp add: cl_held_def req_held_def cleanup_fits_def run_cleanup_def adds_empty)
  next
    case Discard
    show ?thesis
    proof (cases "rq_pending st")
      case None
      with Discard assms(1) show ?thesis
        by (simp add: cl_held_def req_held_def run_cleanup_def handoff_discard_def adds_empty)
    next
      case (Some c)
      with Discard A True b open_conns_drop[of tr "[ConnClose c]"] show ?thesis
        by (auto simp: cl_held_def req_held_def run_cleanup_def handoff_discard_def keeps_def)
    qed
  next
    case (CloseH3 sock)
    let ?t = "map QuicClose cs @ [UdpClose sock]"
    have "wf_history (tr @ ?t) \<and> set (open_conns (tr @ ?t)) = set (open_conns tr) - (set cs \<union> {sock})"
      using open_conns_drop[of tr ?t] A True b assms(3) CloseH3 by (auto simp: cl_held_def)
    moreover have "set (open_conns tr) = set (open_conns tr0) \<union> {sock}" "sock \<notin> set (open_conns tr0)"
      using A True CloseH3 assms(2) by (auto simp: cl_held_def req_held_def cleanup_fits_def)
    ultimately show ?thesis
      using A True assms(4) CloseH3 by (auto simp: keeps_def run_cleanup_def)
  qed
qed

lemma h3RoundTripper_adds:
  assumes "h3RoundTripper env o' u l tr = (r, tr')"
  shows "case r of Inl _ \<Rightarrow> keeps tr tr' | Inr (trp, cl) \<Rightarrow> (\<exists>sock. cl = CloseH3 sock \<and> adds tr {sock} tr')"
proof -
  have "adds tr {length tr} (tr @ [ListenUDP True])" by (rule contract_adds[OF contract_open]) simp_all
  then show ?thesis
    using assms by (auto simp: h3RoundTripper_def Let_def keeps_quiet split: sum.splits option.splits)
qed

lemma tls_transport_adds:
  assumes "tls_transport env o' u frag mode l st tr = (r, st', tr')" and "rq_pending st = None"
  shows "case r of Inl _ \<Rightarrow> keeps tr tr'
    | Inr (trp, cl) \<Rightarrow> cleanup_fits cl st' \<and> cl_held cl \<inter> req_held st' = {} \<and> adds tr (cl_held cl \<union> req_held st') tr'"
proof -
  let ?cl = "\<lparr>cl_frag = frag, cl_host = Hostname u, cl_ech = l, cl_mode = mode\<rparr>"
  obtain r1 s1 tr1 where d: "dialTLS env o' ?cl (canonicalAddr u) st tr = (r1, s1, tr1)" by (rule prod_cases3)
  note D = dialTLS_contract[OF d]
  obtain r2 tr2 where h: "h3RoundTripper env o' u l tr = (r2, tr2)" by fastforce
  note H = h3RoundTripper_adds[OF h]
  show ?thesis
  proof (cases "mode = AlpnH3")
    case True
    with assms h H show ?thesis
      by (auto simp: tls_transport_def cl_held_def req_held_def cleanup_fits_def split: sum.splits)
  next
    case F: False
    show ?thesis
    proof (cases "opt_Fingerprint o' = [] \<or> \<not> env_knownFP env (opt_Fingerprint o')")
      case True
      with F assms show ?thesis
        by (auto simp: tls_transport_def Let_def cl_held_def req_held_def cleanup_fits_def adds_empty split: if_splits)
    next
      case False
      show ?thesis
      proof (cases r1)
        case (Inl err)
        with F False assms(1) d D show ?thesis by (auto simp: tls_transport_def Let_def intro: contract_keeps)
      next
        case (Inr c)
        then have "adds tr {c} tr1" using D contract_adds by simp
        with Inr F False assms(1) d show ?thesis
          by (auto simp: tls_transport_def Let_def snapshot_def cl_held_def req_held_def cleanup_fits_def)
      qed
    qed
  qed
qed

lemma hop_dial_pending: "hop_dial env o' trp hop st tr = (r, st', tr') \<Longrightarrow> rq_pending st = None \<Longrightarrow> rq_pending st' = None"
  by (cases trp; cases hop)
    (auto simp: hop_dial_def handoff_get_def split: if_splits sum.splits prod.splits
      dest: stdTLSDial_contract dialTLS_contract h3Dial_contract)

lemma dial_all_pending:
  "dial_all (hop_dial env o' trp) hops st tr = (cs, e, st', tr') \<Longrightarrow> rq_pending st = None \<Longrightarrow> rq_pending st' = None"
proof (induction hops arbitrary: st tr cs)
  case (Cons a as)
  obtain r s1 tr1 where d: "hop_dial env o' trp a st tr = (r, s1, tr1)" by (rule prod_cases3)
  with Cons hop_dial_pending[OF d] show ?case by (auto split: sum.splits prod.splits)
qed simp

lemma client_do_fits:
  assumes "client_do env o' trp meth ur h body st tr = (r, cs, st', tr')" and "cleanup_fits cl st"
  shows "cleanup_fits cl st'"
proof -
  let ?trd = "tr @ [HttpDo meth ur h body]"
  obtain cs1 e st1 tr1 where d: "dial_all (hop_dial env o' trp) (env_plan env ?trd ur) st ?trd = (cs1, e, st1, tr1)"
    by (rule prod_cases4)
  then have "st' = st1" using assms(1) by (auto simp: client_do_def Let_def split: option.splits)
  with dial_all_pending[OF d] assms(2) show ?thesis by (auto simp: cleanup_fits_def)
qed

text \<open>A request on a transport, from the client to the cleanup.\<close>

lemma request_keeps:
  assumes "adds tr0 (cl_held cl \<union> req_held st) tr" and "cleanup_fits cl st" and "cl_held cl \<inter> req_held st = {}"
    and "client_do env o' trp meth ur h body st tr = (r, cs, st', tr')"
  shows "keeps tr0 (snd (run_cleanup cl cs st' tr'))"
  using client_do_adds[OF assms(1,3,4)] client_do_fits[OF assms(4,2)]
  by (intro run_cleanup_keeps) auto

lemma unused_keeps:
  assumes "adds tr0 (cl_held cl \<union> req_held st) tr" and "cleanup_fits cl st"
  shows "keeps tr0 (snd (run_cleanup cl [] st tr))"
  using assms by (intro run_cleanup_keeps) auto

section \<open>The mutual recursion\<close>

definition ecl_keeps :: "('f, 'z) http_env_scheme \<Rightarrow> ('a transportOptions_scheme) \<Rightarrow> bool" where
  "ecl_keeps env o' \<longleftrightarrow> (\<forall>host c tr r c' tr'. echConfigList env o' host (c, tr) = (r, c', tr') \<longrightarrow> keeps tr tr')"

lemma roundTripper_adds:
  assumes "ecl_keeps env o'" and "roundTripper env o' u st (c, tr) = (r, st', c', tr')" and "rq_pending st = None"
  shows "case r of Inl _ \<Rightarrow> keeps tr tr'
    | Inr (trp, cl) \<Rightarrow> cleanup_fits cl st' \<and> cl_held cl \<inter> req_held st' = {} \<and> adds tr (cl_held cl \<union> req_held st') tr'"
proof (cases "\<exists>frag mode. fragmentConfig env o' = Inr frag \<and> alpnMode o' = Inr mode \<and> u_Scheme u \<noteq> ''http''")
  case False
  with assms(2,3) show ?thesis
    by (auto simp: roundTripper.simps plain_transport_def cl_held_def req_held_def cleanup_fits_def adds_empty split: sum.splits if_splits)
next
  case True
  then obtain frag mode where f: "fragmentConfig env o' = Inr frag" "alpnMode o' = Inr mode" "u_Scheme u \<noteq> ''http''" by blast
  obtain re c1 tr1 where e: "echConfigList env o' (Hostname u) (c, tr) = (re, c1, tr1)" by (rule prod_cases3)
  then have k: "keeps tr tr1" using assms(1) by (auto simp: ecl_keeps_def)
  show ?thesis
  proof (cases re)
    case (Inl err)
    with assms(2) f e k show ?thesis by (auto simp: roundTripper.simps)
  next
    case (Inr lk)
    obtain l key where lk: "lk = (l, key)" by fastforce
    let ?st = "st\<lparr>rq_conn := (rq_conn st)\<lparr>cs_echKey := key\<rparr>\<rparr>"
    obtain r2 st2 tr2 where t: "tls_transport env o' u frag mode l ?st tr1 = (r2, st2, tr2)" by (rule prod_cases3)
    have "r = r2" "st' = st2" "tr' = tr2" using assms(2) f e Inr lk t by (auto simp: roundTripper.simps)
    with tls_transport_adds[OF t] assms(3) k show ?thesis
      by (auto split: sum.splits prod.splits intro: keeps_trans keeps_adds)
  qed
qed

lemma doh_request_keeps:
  assumes "adds tr0 (cl_held cl \<union> req_held st) tr" and "cleanup_fits cl st" and "cl_held cl \<inter> req_held st = {}"
    and "doh_request env o' server wire trp cl st (c, tr) = (r, c', tr')"
  shows "keeps tr0 tr'"
proof (cases "new_request env ''POST'' server")
  case (Some err)
  with assms(4) unused_keeps[OF assms(1,2)] show ?thesis by (auto simp: doh_request_def)
next
  case None
  obtain r1 cs st1 tr1 where d: "client_do env o' trp ''POST'' server (applyDoHHeaders (env_default_headers env) o' []) wire st tr
      = (r1, cs, st1, tr1)" by (rule prod_cases4)
  from request_keeps[OF assms(1-3) d] None d assms(4) show ?thesis by (auto simp: doh_request_def split: sum.splits)
qed

lemma dnsExchange_keeps:
  assumes "ecl_keeps env o'" and "dnsExchange env o' server name qtype (c, tr) = (r, c', tr')"
  shows "keeps tr tr'"
proof (cases "\<exists>su wire. url_parse env server = Inr su \<and> (u_Scheme su = ''https'' \<or> u_Scheme su = ''http'')
    \<and> env_pack env \<lparr>q_Id = 0, q_Name = name, q_Type = qtype, q_UDPSize = 4096, q_Padding = env_pad env tr\<rparr> = Inr wire")
  case False
  with assms(2) show ?thesis by (auto simp: dnsExchange.simps split: sum.splits if_splits)
next
  case True
  then obtain su wire where p: "url_parse env server = Inr su" "u_Scheme su = ''https'' \<or> u_Scheme su = ''http''"
    "env_pack env \<lparr>q_Id = 0, q_Name = name, q_Type = qtype, q_UDPSize = 4096, q_Padding = env_pad env tr\<rparr> = Inr wire" by blast
  obtain r1 st1 c1 tr1 where t: "roundTripper env o' su new_req (c, tr) = (r1, st1, c1, tr1)" by (rule prod_cases4)
  note T = roundTripper_adds[OF assms(1) t]
  show ?thesis
  proof (cases r1)
    case (Inl err)
    with assms(2) p t T show ?thesis by (auto simp: dnsExchange.simps new_req_def)
  next
    case (Inr tc)
    obtain trp cl where tc: "tc = (trp, cl)" by fastforce
    have "dnsExchange env o' server name qtype (c, tr) = doh_request env o' server wire trp cl st1 (c1, tr1)"
      using p t Inr tc by (auto simp: dnsExchange.simps)
    with assms(2) have q: "doh_request env o' server wire trp cl st1 (c1, tr1) = (r, c', tr')" by simp
    show ?thesis using T Inr tc by (intro doh_request_keeps[OF _ _ _ q]) (simp_all add: new_req_def)
  qed
qed

lemma echAcquire_keeps:
  assumes "echAcquire env key fetch (c, tr) = (r, c', tr')"
    and "\<And>h fr c2 h2. fetch (c, h) = (fr, c2, h2) \<Longrightarrow> keeps h h2"
  shows "keeps tr tr'"
  using assms(1)
proof (cases rule: echAcquire_cases)
  case (hit t)
  then show ?thesis using keeps_quiet[of "[LockKey key, UnlockKey key]" tr] by auto
next
  case (fetched fr c2 tr2)
  have "keeps tr (tr @ [LockKey key])" "keeps tr2 (tr2 @ [UnlockKey key])" by (simp_all add: keeps_quiet)
  with assms(2)[OF fetched(3)] fetched(6) show ?thesis using keeps_trans by blast
qed

lemma ecl_keeps_off: "\<not> echEnabled o' \<Longrightarrow> ecl_keeps env o'"
  by (simp add: ecl_keeps_def echConfigList_off)

lemma doh_fetch_keeps:
  assumes "\<not> echEnabled o'" and "doh_fetch env o' doh domain (c, h) = (fr, c2, h2)"
  shows "keeps h h2"
proof -
  obtain r p e c1 tr1 where d: "dnsExchange env o' doh (env_fqdn env domain) typeHTTPS (c, h) = ((r, p, e), c1, tr1)"
    by (metis prod_cases3 surj_pair)
  with dnsExchange_keeps[OF ecl_keeps_off[OF assms(1)] d] assms(2) show ?thesis by (auto simp: doh_fetch_def)
qed

lemma probe_fetch_keeps: "probe_fetch env o' pn hp (c, h) = (fr, c2, h2) \<Longrightarrow> keeps h h2"
  using echProbe_keeps_open[of env o' pn hp h] by (auto simp: probe_fetch_def keeps_def split: prod.splits)

lemma ecl_keeps_all: "ecl_keeps env o'"
  unfolding ecl_keeps_def
proof (intro allI impI)
  fix host c tr r c' tr'
  assume a: "echConfigList env o' host (c, tr) = (r, c', tr')"
  show "keeps tr tr'"
  proof (cases "echEnabled o'")
    case False
    with a show ?thesis by (simp add: echConfigList_off)
  next
    case True
    then obtain ech where ech: "opt_Ech o' = Some ech" by (auto simp: echEnabled_def split: option.splits)
    consider (pin) "ech_ConfigList ech \<noteq> []" | (bad) err where "ech_ConfigList ech = []" "ech_Probe ech \<noteq> []" "parseECHProbe (ech_Probe ech) = Inl err"
      | (probe) pn hp where "ech_ConfigList ech = []" "ech_Probe ech \<noteq> []" "parseECHProbe (ech_Probe ech) = Inr (pn, hp)"
      | (doh) "ech_ConfigList ech = []" "ech_Probe ech = []"
      by (cases "parseECHProbe (ech_Probe ech)") auto
    then show ?thesis
    proof cases
      case pin
      with True ech a show ?thesis by (auto simp: echConfigList.simps)
    next
      case bad
      with True ech a show ?thesis by (auto simp: echConfigList.simps)
    next
      case probe
      obtain r1 c1 tr1 where q: "echAcquire env (probe_key pn hp (opt_Proxy o')) (probe_fetch env (lookupOpts o') pn hp) (c, tr) = (r1, c1, tr1)"
        by (rule prod_cases3)
      have "keeps tr tr1" by (rule echAcquire_keeps[OF q]) (rule probe_fetch_keeps)
      with q a echConfigList_probe[OF True ech probe, of env host "(c, tr)"] show ?thesis by (auto simp: Let_def split: sum.splits)
    next
      case doh
      let ?d = "if ech_Domain ech = [] then host else ech_Domain ech"
      obtain r1 c1 tr1 where q: "echAcquire env (doh_key ?d (ech_DoH ech) (opt_Proxy o')) (doh_fetch env (lookupOpts o') (ech_DoH ech) ?d) (c, tr) = (r1, c1, tr1)"
        by (rule prod_cases3)
      have "keeps tr tr1" by (rule echAcquire_keeps[OF q]) (rule doh_fetch_keeps[OF lookupOpts_disabled])
      with q a echConfigList_doh[OF True ech doh refl, of env host "(c, tr)"] show ?thesis by (auto simp: Let_def split: sum.splits)
    qed
  qed
qed

end
