(* ===== verification/Fetch.thy ===== *)
theory Fetch
  imports Fetch_Conns
begin

text \<open>
  The entry points \<^verbatim>\<open>FetchWeb\<close> (\<^verbatim>\<open>libv2ray_fetch.go\<close>, lines 993 to 1113) and \<^verbatim>\<open>ResolveDoH\<close> (lines 1119 to 1167). Their
  argument is what \<^verbatim>\<open>json.Unmarshal\<close> makes of the options text, an error or the options. A result's
  \<^verbatim>\<open>RespError\<close> is the error value whose text the code stores there, \<^const>\<open>None\<close> for the empty string;
  \<^verbatim>\<open>RespHeaders\<close> is the header map whose JSON is stored.
\<close>

section \<open>The model\<close>

record FetchResult =
  fr_RespBody :: string
  fr_RespHeader :: string
  fr_RespHeaders :: header
  fr_RespError :: "go_error option"
  fr_StatusCode :: int
  fr_Proto :: string
  fr_EchAccepted :: bool

definition fetch_error :: "go_error \<Rightarrow> FetchResult" where
  "fetch_error err = \<lparr>fr_RespBody = [], fr_RespHeader = [], fr_RespHeaders = [], fr_RespError = Some err,
     fr_StatusCode = 0, fr_Proto = [], fr_EchAccepted = False\<rparr>"

definition maxBodyBytes :: nat where "maxBodyBytes = 33554432"

definition readBody :: "('f, 'z) http_env_scheme \<Rightarrow> http_response \<Rightarrow> string res" where
  "readBody env resp =
     (let r = limited maxBodyBytes (hr_Body resp) (hr_BodyErr resp) in
      if equal_fold (header_Get (hr_Header resp) ''Content-Encoding'') ''gzip'' then env_gunzip env r
      else case r of (b, None) \<Rightarrow> Inr b | (b, Some err) \<Rightarrow> Inl err)"

definition fetch_method :: "fetchOptions \<Rightarrow> string" where
  "fetch_method opts =
     (let meth = to_upper (fo_Method opts) in
      if meth = [] then (if fo_Data opts \<noteq> [] then ''POST'' else ''GET'') else meth)"

definition fetch_headers :: "('f, 'z) http_env_scheme \<Rightarrow> fetchOptions \<Rightarrow> header" where
  "fetch_headers env opts =
     (let variantDefault = (if fetch_method opts \<noteq> ''GET'' then ''fetch'' else ''nav'');
          h = applyHeaders (env_default_headers env) opts variantDefault []
      in if fo_Data opts \<noteq> [] \<and> header_Get h ''Content-Type'' = [] then header_Set ''Content-Type'' ''application/json'' h else h)"

text \<open>What is made of a response (lines 1066 to 1085).\<close>

definition fetch_result :: "('f, 'z) http_env_scheme \<Rightarrow> connState \<Rightarrow> http_response \<Rightarrow> FetchResult" where
  "fetch_result env cs resp =
     (case readBody env resp of
        Inl err \<Rightarrow> fetch_error err
      | Inr payload \<Rightarrow>
          let out = \<lparr>fr_RespBody = [], fr_RespHeader = header_Get (hr_Header resp) ''X-From-Server'', fr_RespHeaders = hr_Header resp,
                fr_RespError = None, fr_StatusCode = hr_StatusCode resp, fr_Proto = hr_Proto resp,
                fr_EchAccepted = echAcceptedFrom cs (hr_TLSEch resp)\<rparr>
          in if hr_StatusCode resp > 299
             then out\<lparr>fr_RespError := Some (Errorf ''ERR status code: %d %s'' [N (hr_StatusCode resp), S payload])\<rparr>
             else out\<lparr>fr_RespBody := payload\<rparr>)"

text \<open>The request itself, on a transport, with its deferred cleanup (lines 1036 to 1085).\<close>

definition fetch_request :: "('f, 'z) http_env_scheme \<Rightarrow> fetchOptions \<Rightarrow> 'f transport \<Rightarrow> cleanup \<Rightarrow> reqState \<Rightarrow> world
    \<Rightarrow> FetchResult \<times> world" where
  "fetch_request env opts trp cl st w =
     (let (cache, tr) = w in
      case new_request env (fetch_method opts) (fo_URL opts) of
        Some err \<Rightarrow> (fetch_error err, cache, snd (run_cleanup cl [] st tr))
      | None \<Rightarrow>
          (case client_do env opts trp (fetch_method opts) (fo_URL opts) (fetch_headers env opts) (fo_Data opts) st tr of
             (Inl err, cs, st1, tr1) \<Rightarrow>
               if echEnabled opts \<and> echRejected err then
                 (fetch_error (Wrapf ''ECH rejected: the server refused the config we offered. %w'' [] err),
                  echInvalidate (cs_echKey (rq_conn st1)) cache, snd (run_cleanup cl cs st1 tr1))
               else (fetch_error err, cache, snd (run_cleanup cl cs st1 tr1))
           | (Inr resp, cs, st1, tr1) \<Rightarrow>
               (fetch_result env (rq_conn st1) resp, cache, snd (run_cleanup cl cs st1 tr1))))"

definition FetchWeb :: "('f, 'z) http_env_scheme \<Rightarrow> fetchOptions res \<Rightarrow> world \<Rightarrow> FetchResult \<times> world" where
  "FetchWeb env json w =
     (case json of
        Inl err \<Rightarrow> (fetch_error (Wrapf ''invalid options json: %w'' [] err), w)
      | Inr opts \<Rightarrow>
          if fo_URL opts = [] then (fetch_error (Errorf ''url is required'' []), w)
          else case validate (env_knownFP env) (env_ladder env) opts of
            Inl err \<Rightarrow> (fetch_error err, w)
          | Inr _ \<Rightarrow>
          (case url_parse env (fo_URL opts) of
             Inl err \<Rightarrow> (fetch_error (Wrapf ''invalid url: %w'' [] err), w)
           | Inr u \<Rightarrow>
               if u_Scheme u \<noteq> ''http'' \<and> u_Scheme u \<noteq> ''https'' then
                 (fetch_error (Errorf ''unsupported url scheme %s'' [S (u_Scheme u)]), w)
               else
               (case roundTripper env opts u new_req w of
                  (Inl err, _, w1) \<Rightarrow> (fetch_error err, w1)
                | (Inr (trp, cl), st, w1) \<Rightarrow> fetch_request env opts trp cl st w1)))"

record DNSResult =
  dr_Answers :: "dnsAnswer list"
  dr_IPs :: string
  dr_Rcode :: string
  dr_TTL :: int
  dr_Proto :: string
  dr_EchAccepted :: bool
  dr_RespError :: "go_error option"

definition dns_error :: "go_error \<Rightarrow> string \<Rightarrow> bool \<Rightarrow> DNSResult" where
  "dns_error err proto ech = \<lparr>dr_Answers = [], dr_IPs = [], dr_Rcode = [], dr_TTL = 0, dr_Proto = proto,
     dr_EchAccepted = ech, dr_RespError = Some err\<rparr>"

definition ResolveDoH :: "('f, 'z) http_env_scheme \<Rightarrow> dohOptions res \<Rightarrow> world \<Rightarrow> DNSResult \<times> world" where
  "ResolveDoH env json w =
     (case json of
        Inl err \<Rightarrow> (dns_error (Wrapf ''invalid options json: %w'' [] err) [] False, w)
      | Inr opts \<Rightarrow>
          if do_Domain opts = [] then (dns_error (Errorf ''domain is required'' []) [] False, w)
          else if do_Server opts = [] then (dns_error (Errorf ''server is required'' []) [] False, w)
          else case validate (env_knownFP env) (env_ladder env) opts of
            Inl err \<Rightarrow> (dns_error err [] False, w)
          | Inr _ \<Rightarrow>
          let qtypeName = (if to_upper (do_Type opts) = [] then ''A'' else to_upper (do_Type opts)) in
          (case env_type_of env qtypeName of
             None \<Rightarrow> (dns_error (Errorf ''unknown record type %s'' [S qtypeName]) [] False, w)
           | Some qtype \<Rightarrow>
               (case dnsExchange env opts (do_Server opts) (env_fqdn env (do_Domain opts)) qtype w of
                  ((Inl err, proto, ech), w1) \<Rightarrow> (dns_error err proto ech, w1)
                | ((Inr reply, proto, ech), w1) \<Rightarrow>
                    (case summarizeAnswers (env_dns_text env) reply of
                       (answers, ips, ttl) \<Rightarrow>
                         (\<lparr>dr_Answers = answers, dr_IPs = join_with '','' ips, dr_Rcode = env_rcode_name env (msg_Rcode reply),
                           dr_TTL = ttl, dr_Proto = proto, dr_EchAccepted = ech, dr_RespError = None\<rparr>, w1)))))"

section \<open>Connections\<close>

lemma fetch_request_keeps:
  assumes "adds tr0 (cl_held cl \<union> req_held st) tr" and "cleanup_fits cl st" and "cl_held cl \<inter> req_held st = {}"
    and "fetch_request env opts trp cl st (c, tr) = (r, c', tr')"
  shows "keeps tr0 tr'"
proof (cases "new_request env (fetch_method opts) (fo_URL opts)")
  case (Some err)
  with assms(4) unused_keeps[OF assms(1,2)] show ?thesis by (auto simp: fetch_request_def)
next
  case None
  obtain r1 cs st1 tr1 where d: "client_do env opts trp (fetch_method opts) (fo_URL opts) (fetch_headers env opts) (fo_Data opts) st tr
      = (r1, cs, st1, tr1)" by (rule prod_cases4)
  from request_keeps[OF assms(1-3) d] None d assms(4) show ?thesis by (auto simp: fetch_request_def split: sum.splits if_splits)
qed

text \<open>The guards of \<^verbatim>\<open>FetchWeb\<close>, and what happens behind them.\<close>

lemma FetchWeb_cases:
  assumes "FetchWeb env json w = (r, w')"
  obtains (refused) err where "r = fetch_error err" "w' = w"
    | (no_transport) opts u err st where "json = Inr opts" "url_parse env (fo_URL opts) = Inr u"
        "roundTripper env opts u new_req w = (Inl err, st, w')" "r = fetch_error err"
    | (sent) opts u trp cl st w1 where "json = Inr opts" "url_parse env (fo_URL opts) = Inr u"
        "roundTripper env opts u new_req w = (Inr (trp, cl), st, w1)" "fetch_request env opts trp cl st w1 = (r, w')"
proof (cases json)
  case (Inl err)
  with assms refused show thesis by (auto simp: FetchWeb_def)
next
  case (Inr opts)
  show thesis
  proof (cases "fo_URL opts = [] \<or> \<not> is_ok (validate (env_knownFP env) (env_ladder env) opts) \<or> \<not> is_ok (url_parse env (fo_URL opts))
      \<or> (\<exists>u. url_parse env (fo_URL opts) = Inr u \<and> u_Scheme u \<noteq> ''http'' \<and> u_Scheme u \<noteq> ''https'')")
    case True
    have "\<exists>err. r = fetch_error err \<and> w' = w" using assms Inr True by (auto simp: FetchWeb_def split: sum.splits if_splits)
    then show thesis using refused by blast
  next
    case False
    then obtain v u where v: "validate (env_knownFP env) (env_ladder env) opts = Inr v" "url_parse env (fo_URL opts) = Inr u"
      "u_Scheme u = ''http'' \<or> u_Scheme u = ''https''" "fo_URL opts \<noteq> []"
      by (auto simp: is_ok_iff)
    obtain rt st w1 where t: "roundTripper env opts u new_req w = (rt, st, w1)" by (rule prod_cases3)
    show thesis
    proof (cases rt)
      case (Inl err)
      then show thesis using no_transport[OF \<open>json = Inr opts\<close> v(2)] t assms Inr v by (auto simp: FetchWeb_def)
    next
      case (Inr tc)
      obtain trp cl where tc: "tc = (trp, cl)" by fastforce
      show thesis
        using sent[OF \<open>json = Inr opts\<close> v(2), of trp cl st w1] t assms \<open>json = Inr opts\<close> v Inr tc
        by (auto simp: FetchWeb_def)
    qed
  qed
qed


definition demo_fetch_opts :: fetchOptions where
  "demo_fetch_opts = transportOptions.extend zeroOptions (fetchOptions.fields ''https://h.org/'' [] [])"

lemma demo_validate: "validate (env_knownFP demo_http) (env_ladder demo_http) demo_fetch_opts = Inr ()"
  by code_simp


section \<open>Results\<close>

lemma readBody_limit:
  "readBody env resp = Inr payload \<Longrightarrow> \<not> equal_fold (header_Get (hr_Header resp) ''Content-Encoding'') ''gzip'' \<Longrightarrow> length payload \<le> maxBodyBytes"
  by (auto simp: readBody_def limited_def Let_def split: if_splits option.splits)

lemma fetch_result_shape:
  "(fr_RespError (fetch_result env cs resp) = None \<longrightarrow> hr_StatusCode resp \<le> 299 \<and> fr_StatusCode (fetch_result env cs resp) = hr_StatusCode resp
      \<and> readBody env resp = Inr (fr_RespBody (fetch_result env cs resp)))
   \<and> (fr_RespError (fetch_result env cs resp) \<noteq> None \<longrightarrow> fr_RespBody (fetch_result env cs resp) = [])"
  by (auto simp: fetch_result_def fetch_error_def Let_def split: sum.splits)



end
