(* ===== verification/Fetch_Ech.thy ===== *)
theory Fetch_Ech
  imports Fetch
begin

text \<open>
  How requests and the ECH cache interact: what a rejected configuration does to the cache on each
  path, who may reuse an entry, and what a lookup itself shows to the network.
\<close>

section \<open>The key of the entry in use\<close>

lemma cs_record_key: "cs_record proto ech s = Inr s' \<Longrightarrow> cs_echKey s' = cs_echKey s"
  by (auto simp: cs_record_def split: if_splits)

lemma stdTLSDial_key: "stdTLSDial env o' cl alpn addr st tr = (r, st', tr') \<Longrightarrow> cs_echKey (rq_conn st') = cs_echKey (rq_conn st)"
  by (auto simp: stdTLSDial_def Let_def split: prod.splits sum.splits dest: cs_record_key)

lemma dialTLS_key: "dialTLS env o' cl addr st tr = (r, st', tr') \<Longrightarrow> cs_echKey (rq_conn st') = cs_echKey (rq_conn st)"
  by (auto simp: dialTLS_def Let_def split: prod.splits sum.splits if_splits dest: cs_record_key)

lemma h3Dial_key:
  "h3Dial env o' sock cfg att noise l addr st tr = (r, st', tr') \<Longrightarrow> cs_echKey (rq_conn st') = cs_echKey (rq_conn st)"
  by (auto simp: h3Dial_def Let_def split: prod.splits sum.splits option.splits dest: cs_record_key)

lemma hop_dial_key:
  "hop_dial env o' trp hop st tr = (r, st', tr') \<Longrightarrow> cs_echKey (rq_conn st') = cs_echKey (rq_conn st)"
  by (cases trp; cases hop)
    (auto simp: hop_dial_def handoff_get_def split: if_splits sum.splits prod.splits option.splits
      dest: stdTLSDial_key dialTLS_key h3Dial_key)

lemma dial_all_key:
  "dial_all (hop_dial env o' trp) hops st tr = (cs, e, st', tr') \<Longrightarrow> cs_echKey (rq_conn st') = cs_echKey (rq_conn st)"
proof (induction hops arbitrary: st tr cs)
  case (Cons a as)
  obtain r s1 tr1 where d: "hop_dial env o' trp a st tr = (r, s1, tr1)" by (rule prod_cases3)
  with Cons hop_dial_key[OF d] show ?case by (auto split: sum.splits prod.splits)
qed simp

lemma client_do_key:
  assumes "client_do env o' trp meth ur h body st tr = (r, cs, st', tr')"
  shows "cs_echKey (rq_conn st') = cs_echKey (rq_conn st)"
proof -
  let ?trd = "tr @ [HttpDo meth ur h body]"
  obtain cs1 e st1 tr1 where d: "dial_all (hop_dial env o' trp) (env_plan env ?trd ur) st ?trd = (cs1, e, st1, tr1)"
    by (rule prod_cases4)
  then have "st' = st1" using assms by (auto simp: client_do_def Let_def split: option.splits)
  with dial_all_key[OF d] show ?thesis by simp
qed

lemma tls_transport_key:
  assumes "tls_transport env o' u frag mode l st tr = (r, st', tr')"
  shows "cs_echKey (rq_conn st') = cs_echKey (rq_conn st)"
proof -
  let ?cl = "\<lparr>cl_frag = frag, cl_host = Hostname u, cl_ech = l, cl_mode = mode\<rparr>"
  obtain r1 s1 tr1 where d: "dialTLS env o' ?cl (canonicalAddr u) st tr = (r1, s1, tr1)" by (rule prod_cases3)
  with assms dialTLS_key[OF d] show ?thesis
    by (auto simp: tls_transport_def Let_def snapshot_def split: if_splits sum.splits prod.splits)
qed

lemma roundTripper_key:
  assumes "roundTripper env o' u st w = (Inr (trp, cl), st', c', tr')" and "u_Scheme u \<noteq> ''http''"
  shows "\<exists>list key tr0. echConfigList env o' (Hostname u) w = (Inr (list, key), c', tr0) \<and> cs_echKey (rq_conn st') = key"
proof -
  obtain frag mode where f: "fragmentConfig env o' = Inr frag" "alpnMode o' = Inr mode"
    using assms(1) by (auto simp: roundTripper.simps split: sum.splits)
  obtain re c1 tr1 where e: "echConfigList env o' (Hostname u) w = (re, c1, tr1)" by (rule prod_cases3)
  obtain l key where re: "re = Inr (l, key)" using assms f e by (cases re) (auto simp: roundTripper.simps)
  let ?st = "st\<lparr>rq_conn := (rq_conn st)\<lparr>cs_echKey := key\<rparr>\<rparr>"
  obtain r2 st2 tr2 where t: "tls_transport env o' u frag mode l ?st tr1 = (r2, st2, tr2)" by (rule prod_cases3)
  have "st' = st2" "c' = c1" using assms f e re t by (auto simp: roundTripper.simps)
  with tls_transport_key[OF t] e re show ?thesis by simp
qed

text \<open>A request that passes the guards of \<^verbatim>\<open>FetchWeb\<close>.\<close>

definition passes :: "('f, 'z) http_env_scheme \<Rightarrow> fetchOptions \<Rightarrow> url \<Rightarrow> bool" where
  "passes env opts u \<longleftrightarrow> fo_URL opts \<noteq> [] \<and> is_ok (validate (env_knownFP env) (env_ladder env) opts)
     \<and> url_parse env (fo_URL opts) = Inr u \<and> u_Scheme u = ''https''"

lemma FetchWeb_passes:
  assumes "passes env opts u"
  shows "FetchWeb env (Inr opts) w =
    (case roundTripper env opts u new_req w of
       (Inl err, _, w1) \<Rightarrow> (fetch_error err, w1)
     | (Inr (trp, cl), st, w1) \<Rightarrow> fetch_request env opts trp cl st w1)"
  using assms by (auto simp: FetchWeb_def passes_def is_ok_iff)

section \<open>Rejected configurations\<close>


lemma echConfigList_acquired:
  assumes "echEnabled o1" and "opt_Ech o2 = opt_Ech o1" and "opt_Proxy o2 = opt_Proxy o1"
    and "echConfigList env o1 host w = (Inr (list, key), w1)" and "key \<noteq> []"
    and "echCacheLoad (env_now env tr) c key = Some (Inr l)"
  shows "echConfigList env o2 host (c, tr) = (Inr (l, key), c, tr)"
proof -
  obtain ech where ech: "opt_Ech o1 = Some ech" using assms(1) by (auto simp: echEnabled_def split: option.splits)
  then have e2: "echEnabled o2" "opt_Ech o2 = Some ech" using assms(1,2) by (simp_all add: echEnabled_def)
  have np: "ech_ConfigList ech = []"
    using assms(1,4,5) ech by (auto simp: echConfigList.simps split: if_splits sum.splits)
  show ?thesis
  proof (cases "ech_Probe ech = []")
    case True
    let ?d = "if ech_Domain ech = [] then host else ech_Domain ech"
    have k: "key = doh_key ?d (ech_DoH ech) (opt_Proxy o1)"
      using assms(4) echConfigList_doh[OF assms(1) ech np True refl, of env host w] by (auto simp: Let_def split: prod.splits sum.splits)
    show ?thesis
      using echConfigList_doh[OF e2 np True refl, of env host "(c, tr)"] assms(3,6) k
      by (simp add: Let_def echAcquire_hit)
  next
    case False
    obtain pn hp where p: "parseECHProbe (ech_Probe ech) = Inr (pn, hp)"
      using assms(1,4) ech np False by (cases "parseECHProbe (ech_Probe ech)") (auto simp: echConfigList.simps)
    have k: "key = probe_key pn hp (opt_Proxy o1)"
      using assms(4) echConfigList_probe[OF assms(1) ech np False p, of env host w] by (auto simp: Let_def split: prod.splits sum.splits)
    show ?thesis
      using echConfigList_probe[OF e2 np False p, of env host "(c, tr)"] assms(3,6) k
      by (simp add: Let_def echAcquire_hit)
  qed
qed

text \<open>
  C39: on the uTLS path a rejected configuration does not heal. There the handshake happens while the
  transport is built, so the rejection is returned before the code that drops the entry; the cache is
  left as the lookup left it, and until the entry expires the next request is given the same rejected
  list again, without asking anybody.
\<close>

theorem utls_rejection_not_healed:
  assumes "passes env opts u" and "echEnabled opts" and "echConfigList env opts (Hostname u) w = (Inr (list, key), c0, tr0)"
    and "roundTripper env opts u new_req w = (Inl err, st, c1, tr1)" and "echRejected err"
    and "is_ok (fragmentConfig env opts)" and "key \<noteq> []" and "echCacheLoad (env_now env tr1) c0 key = Some (Inr list)"
  shows "FetchWeb env (Inr opts) w = (fetch_error err, c0, tr1)
    \<and> echConfigList env opts (Hostname u) (c0, tr1) = (Inr (list, key), c0, tr1)"
proof -
  have m: "is_ok (alpnMode opts)"
    using assms(1) by (auto simp: passes_def validate_def is_ok_iff split: if_splits sum.splits)
  have "u_Scheme u \<noteq> ''http''" using assms(1) by (simp add: passes_def)
  then have "c1 = c0"
    using assms(3,4,6) m by (auto simp: roundTripper.simps is_ok_iff split: sum.splits prod.splits)
  then show ?thesis
    using assms(4) echConfigList_acquired[OF assms(2) refl refl assms(3,7,8)]
    unfolding FetchWeb_passes[OF assms(1)] by simp
qed

text \<open>
  A configuration obtained without verification is served to requests that ask for verification.
  The cache key holds neither allowInsecure nor the fingerprint, so what a request with allowInsecure
  learnt from a server nobody authenticated is handed, as long as it lives, to one that verifies, without
  another handshake.
\<close>

theorem insecure_list_reused:
  assumes "echEnabled o'" and "echConfigList env (o'\<lparr>opt_AllowInsecure := True\<rparr>) host w = (Inr (list, key), c1, tr1)"
    and "key \<noteq> []" and "echCacheLoad (env_now env tr1) c1 key = Some (Inr list)"
  shows "echConfigList env (o'\<lparr>opt_AllowInsecure := False\<rparr>) host (c1, tr1) = (Inr (list, key), c1, tr1)"
proof -
  have "echEnabled (o'\<lparr>opt_AllowInsecure := True\<rparr>)" using assms(1) by (simp add: echEnabled_def)
  from echConfigList_acquired[OF this _ _ assms(2-4), of "o'\<lparr>opt_AllowInsecure := False\<rparr>"] show ?thesis by simp
qed


section \<open>Witnesses\<close>

definition demo_probe_opts :: "string \<Rightarrow> fetchOptions" where
  "demo_probe_opts fp = demo_fetch_opts\<lparr>opt_Fingerprint := fp,
     opt_Ech := Some \<lparr>ech_Domain = [], ech_DoH = [], ech_ConfigList = [], ech_Probe = ''a.org''\<rparr>\<rparr>"

definition demo_key :: string where "demo_key = ''probe|a.org|a.org:443|''"

definition warm :: ech_cache where
  "warm = (\<lambda>_. None)(demo_key \<mapsto> \<lparr>ce_list = demo_list, ce_err = None, ce_expire = 100\<rparr>)"

definition demo_reject :: "unit http_env" where
  "demo_reject = demo_http\<lparr>env_std_hs := \<lambda>_ _ _. Inl (GoECHRejection [])\<rparr>"

definition demo_named :: fetchOptions where
  "demo_named = (demo_probe_opts [])\<lparr>opt_ServerName := ''hidden.org''\<rparr>"

lemma warm_load: "echCacheLoad 0 warm demo_key = Some (Inr demo_list)"
  by (simp add: echCacheLoad_def warm_def entry_result_def)

lemma demo_probe_fields [simp]:
  "opt_Proxy (demo_probe_opts fp) = []" "opt_Fragment (demo_probe_opts fp) = None" "opt_IP (demo_probe_opts fp) = []"
  "opt_Fingerprint (demo_probe_opts fp) = fp" "fo_URL (demo_probe_opts fp) = ''https://h.org/''" "echEnabled (demo_probe_opts fp)"
  by (simp_all add: demo_probe_opts_def demo_fetch_opts_def zeroOptions_def transportOptions.defs fetchOptions.defs echEnabled_def)

lemma demo_probe_acquired:
  fixes o' :: "('a transportOptions_scheme)"
  assumes "env_now env tr = 0" and "opt_Ech o' = opt_Ech (demo_probe_opts fp)" and "opt_Proxy o' = []"
  shows "echConfigList env o' host (warm, tr) = (Inr (demo_list, demo_key), warm, tr)"
proof -
  have p: "parseECHProbe ''a.org'' = Inr (''a.org'', ''a.org:443'')" by code_simp
  have k: "probe_key ''a.org'' ''a.org:443'' [] = demo_key" by code_simp
  have e: "echEnabled o'" using assms(2) by (simp add: echEnabled_def demo_probe_opts_def)
  show ?thesis
    using echConfigList_probe[OF e, of "the (opt_Ech o')" "''a.org''" "''a.org:443''" env host "(warm, tr)"] assms p k warm_load
    by (simp add: demo_probe_opts_def echAcquire_hit)
qed

lemma demo_passes:
  "passes demo_reject (demo_probe_opts []) demo_url" "passes demo_http (demo_probe_opts ''chrome'') demo_url"
proof -
  have v: "validate (\<lambda>_. True) l (demo_probe_opts []) = Inr ()" "validate (\<lambda>_. True) l (demo_probe_opts ''chrome'') = Inr ()" for l
    by code_simp+
  show "passes demo_reject (demo_probe_opts []) demo_url" "passes demo_http (demo_probe_opts ''chrome'') demo_url"
    using v by (simp_all add: passes_def demo_reject_def demo_http_def demo_url_def)
qed


lemma demo_mode: "alpnMode (demo_probe_opts fp) = Inr AlpnAuto"
  by (simp add: alpnMode_def demo_probe_opts_def demo_fetch_opts_def zeroOptions_def transportOptions.defs fetchOptions.defs)


theorem utls_rejection_not_healed_witness:
  "\<exists>err tr1. FetchWeb demo_http (Inr (demo_probe_opts ''chrome'')) (warm, []) = (fetch_error err, warm, tr1) \<and> echRejected err
    \<and> echConfigList demo_http (demo_probe_opts ''chrome'') ''h.org'' (warm, tr1) = (Inr (demo_list, demo_key), warm, tr1)"
proof -
  let ?o = "demo_probe_opts ''chrome''"
  let ?st = "new_req\<lparr>rq_conn := (rq_conn new_req)\<lparr>cs_echKey := demo_key\<rparr>\<rparr>"
  have now: "env_now demo_http t = 0" for t by (simp add: demo_http_def)
  have h: "Hostname demo_url = ''h.org''" by code_simp
  have a: "echConfigList demo_http ?o host (warm, tr) = (Inr (demo_list, demo_key), warm, tr)" for host tr
    using demo_probe_acquired[OF now refl, of "''chrome''"] by simp
  obtain st1 tr1 where rt: "roundTripper demo_http ?o demo_url new_req (warm, []) = (Inl (UECHRejection []), st1, warm, tr1)"
    using h a
    by (simp add: roundTripper.simps fragmentConfig_def demo_mode tls_transport_def dialTLS_def rawDial_def pin_addr_def tcp_dial_def
        demo_url_def demo_http_def Let_def)
  have r: "echRejected (UECHRejection [])" by (simp add: echRejected_def)
  have f: "is_ok (fragmentConfig demo_http ?o)" by (simp add: fragmentConfig_def)
  have k: "demo_key \<noteq> []" by (simp add: demo_key_def)
  have l: "echCacheLoad (env_now demo_http tr1) warm demo_key = Some (Inr demo_list)" using warm_load now by simp
  from utls_rejection_not_healed[OF demo_passes(2) _ a[of "Hostname demo_url"] rt r f k l] r show ?thesis unfolding h by auto
qed

theorem insecure_list_reused_witness:
  "echConfigList demo_http ((demo_probe_opts [])\<lparr>opt_AllowInsecure := False\<rparr>) ''h.org'' (warm, []) = (Inr (demo_list, demo_key), warm, [])"
proof -
  have now: "env_now demo_http [] = 0" by (simp add: demo_http_def)
  have a: "echConfigList demo_http ((demo_probe_opts [])\<lparr>opt_AllowInsecure := True\<rparr>) ''h.org'' (warm, []) = (Inr (demo_list, demo_key), warm, [])"
    using demo_probe_acquired[OF now, of "(demo_probe_opts [])\<lparr>opt_AllowInsecure := True\<rparr>" "[]"] by simp
  have k: "demo_key \<noteq> []" by (simp add: demo_key_def)
  have l: "echCacheLoad (env_now demo_http []) warm demo_key = Some (Inr demo_list)" using warm_load now by simp
  from insecure_list_reused[OF _ a k l] show ?thesis by simp
qed

section \<open>What lookups and redirects show\<close>

text \<open>
  The DoH lookup of an ECH key sends the server name it is meant to hide. The lookup runs with the
  caller's options except for ech and ip, so with a serverName its own handshake, which cannot have ECH,
  carries exactly that name in the clear; and the caller's own request headers go to the resolver too.
\<close>

theorem lookup_shows_serverName:
  assumes "opt_ServerName o' \<noteq> []" and "opt_Fingerprint o' = []" and "alpnMode o' = Inr AlpnAuto" and "u_Scheme su = ''https''"
    and "roundTripper env (lookupOpts o') su st w = (Inr (trp, cl), st', w')"
    and "rawDial env (lookupOpts o') addr frag tr = (Inr c, tr1)"
  shows "\<exists>frag' cfg. trp = Tr_http frag' (Some cfg) True \<and> tc_ServerName cfg = opt_ServerName o' \<and> tc_EchConfigList cfg = []
    \<and> (frag' = frag \<longrightarrow> StdHandshake c cfg \<in> set (snd (snd (hop_dial env (lookupOpts o') trp (addr, True) st' tr))))
    \<and> opt_Headers (lookupOpts o') = opt_Headers o'"
proof -
  have al: "opt_ALPN (lookupOpts o') = opt_ALPN o'" by (simp add: lookupOpts_def)
  have m: "alpnMode (lookupOpts o') = Inr AlpnAuto" using assms(3) unfolding alpnMode_def al .
  obtain frag' where f: "fragmentConfig env (lookupOpts o') = Inr frag'"
    using assms(5) by (auto simp: roundTripper.simps split: sum.splits)
  have f2: "opt_Fingerprint (lookupOpts o') = []" "opt_ServerName (lookupOpts o') = opt_ServerName o'"
    "opt_Headers (lookupOpts o') = opt_Headers o'"
    using assms(2) by (simp_all add: lookupOpts_def)
  let ?cfg = "tlsConfig (lookupOpts o') (Hostname su) [] [''h2'', ''http/1.1'']"
  obtain c0 h0 where w: "w = (c0, h0)" by fastforce
  have t: "trp = Tr_http frag' (Some ?cfg) True"
    using assms(4,5) m f f2 w by (auto simp: roundTripper.simps echConfigList_off tls_transport_def Let_def)
  have s: "tc_ServerName ?cfg = opt_ServerName o'" using assms(1) f2 by (simp add: tlsConfig_def empty_tls_def Let_def)
  have "StdHandshake c ?cfg \<in> set (snd (snd (hop_dial env (lookupOpts o') (Tr_http frag (Some ?cfg) True) (addr, True) st' tr)))"
    using assms(1,6) s by (auto simp: hop_dial_def net_http_tls_def Let_def split: sum.splits)
  with t s f2 show ?thesis by auto
qed

text \<open>
  A redirect from http to https is followed without ECH. For an http URL no ECH list is looked up and
  the transport has no TLS configuration of its own, so an https hop makes a handshake with the host's
  name in the clear although ECH was asked for.
\<close>

theorem http_redirect_without_ech:
  assumes "u_Scheme u = ''http''" and "roundTripper env o' u st w = (Inr (trp, cl), st', w')"
    and "rawDial env o' addr frag tr = (Inr c, tr1)" and "fragmentConfig env o' = Inr frag"
    and "split_host_port addr = Inr (host, port)"
  shows "w' = w \<and> (\<exists>cfg. StdHandshake c cfg \<in> set (snd (snd (hop_dial env o' trp (addr, True) st' tr)))
    \<and> tc_EchConfigList cfg = [] \<and> tc_ServerName cfg = host)"
proof -
  have t: "trp = Tr_http frag None False" "w' = w"
    using assms(1,2,4) by (auto simp: roundTripper.simps plain_transport_def split: sum.splits if_splits)
  have "StdHandshake c (empty_tls\<lparr>tc_ServerName := host\<rparr>) \<in> set (snd (snd (hop_dial env o' trp (addr, True) st' tr)))"
    using assms(3,5) by (auto simp: t hop_dial_def net_http_tls_def addr_host_def empty_tls_def Let_def split: sum.splits)
  with t(2) show ?thesis by (intro conjI exI[of _ "empty_tls\<lparr>tc_ServerName := host\<rparr>"]) (simp_all add: empty_tls_def)
qed

theorem http_redirect_without_ech_witness:
  "\<exists>cfg. StdHandshake 0 cfg \<in> set (snd (snd (hop_dial demo_http (demo_probe_opts []) (Tr_http None None False) (''h.org:443'', True) new_req [])))
    \<and> tc_EchConfigList cfg = [] \<and> tc_ServerName cfg = ''h.org''"
proof -
  let ?o = "demo_probe_opts []" and ?u = "demo_url\<lparr>u_Scheme := ''http''\<rparr>"
  have rt: "roundTripper demo_http ?o ?u new_req (warm, []) = (Inr (Tr_http None None False, Noop), new_req, warm, [])"
    by (simp add: roundTripper.simps fragmentConfig_def plain_transport_def demo_url_def demo_mode)
  obtain tr1 where d: "rawDial demo_http ?o ''h.org:443'' None [] = (Inr 0, tr1)"
    by (simp add: rawDial_def pin_addr_def tcp_dial_def demo_http_def)
  have f: "fragmentConfig demo_http ?o = Inr None" by (simp add: fragmentConfig_def)
  have h: "split_host_port ''h.org:443'' = Inr (''h.org'', ''443'')" by code_simp
  from http_redirect_without_ech[OF _ rt d f h] show ?thesis by (simp add: demo_url_def)
qed

theorem lookup_shows_serverName_witness:
  "StdHandshake 0 (tlsConfig (lookupOpts demo_named) ''h.org'' [] [''h2'', ''http/1.1''])
     \<in> set (snd (snd (hop_dial demo_http (lookupOpts demo_named) (Tr_http None (Some (tlsConfig (lookupOpts demo_named) ''h.org'' [] [''h2'', ''http/1.1''])) True)
         (''h.org:443'', True) new_req [])))
   \<and> tc_ServerName (tlsConfig (lookupOpts demo_named) ''h.org'' [] [''h2'', ''http/1.1'']) = ''hidden.org''"
proof -
  let ?l = "lookupOpts demo_named"
  have f: "opt_Fingerprint ?l = []" "opt_Fragment ?l = None" "opt_Proxy ?l = []" "opt_IP ?l = []" "opt_ServerName ?l = ''hidden.org''"
    "opt_ServerName demo_named = ''hidden.org''" "opt_Fingerprint demo_named = []"
    by (simp_all add: lookupOpts_def demo_named_def)
  have al: "opt_ALPN ?l = opt_ALPN demo_named" by (simp add: lookupOpts_def)
  have m0: "alpnMode demo_named = Inr AlpnAuto" by (simp add: alpnMode_def demo_named_def zeroOptions_def transportOptions.defs
      demo_probe_opts_def demo_fetch_opts_def fetchOptions.defs)
  have m: "alpnMode ?l = Inr AlpnAuto" using m0 unfolding alpnMode_def al .
  have h: "Hostname demo_url = ''h.org''" by code_simp
  have s: "u_Scheme demo_url = ''https''" by (simp add: demo_url_def)
  have rt: "roundTripper demo_http ?l demo_url new_req (warm, []) = (Inr (Tr_http None (Some (tlsConfig ?l ''h.org'' [] [''h2'', ''http/1.1''])) True, Noop), new_req, warm, [])"
    using h m f s by (simp add: roundTripper.simps fragmentConfig_def echConfigList_off tls_transport_def new_req_def new_connState_def)
  obtain tr1 where d: "rawDial demo_http ?l ''h.org:443'' None [] = (Inr 0, tr1)"
    using f by (simp add: rawDial_def pin_addr_def tcp_dial_def demo_http_def)
  from lookup_shows_serverName[OF _ f(7) m0 s rt d] f show ?thesis by auto
qed

text \<open>
  On the uTLS path a redirect to http leaves the proxy and the pinned IP behind. The HTTP/1.1
  transport there has only a dial function for TLS, so a plain http hop is dialed by the default dialer,
  directly to the address of the redirect.
\<close>

lemma utls_redirect_bypasses_proxy:
  assumes "env_tcp env tr addr = None"
  shows "hop_dial env o' (Tr_utls False cl) (addr, False) st tr = (Inr (length tr), st, tr @ [TcpDial addr 0 True])"
  using assms by (simp add: hop_dial_def tcp_dial_def)

end
