(* ===== verification/Ech_Flight.thy ===== *)
theory Ech_Flight
  imports Ech_Cache
begin

text \<open>
  \<^verbatim>\<open>echAcquire\<close> under concurrency. Any number of goroutines run it at once; the cache is a \<^verbatim>\<open>sync.Map\<close> and
  each key has a mutex, so every line of the function that touches shared state is one atomic step. A
  goroutine's program counter says which line it runs next. The clock only moves forward; entries may
  be invalidated at any time by requests that were rejected.
\<close>

section \<open>States and steps\<close>

datatype pc =
    First                \<comment> \<open>line 524, before the first load\<close>
  | Want                 \<comment> \<open>line 530, waiting for the mutex\<close>
  | Second               \<comment> \<open>line 535, holds the mutex, before the second load\<close>
  | Fetching             \<comment> \<open>line 539, holds the mutex, inside fetch\<close>
  | Leaving "bytes res"  \<comment> \<open>the deferred unlock\<close>
  | Done "bytes res"

record flight =
  fl_cache :: ech_cache
  fl_owner :: "string \<Rightarrow> nat option"
  fl_pc :: "nat \<Rightarrow> pc"
  fl_now :: gotime
  fl_fetches :: "string \<Rightarrow> nat"

text \<open>What happened in a step; goroutine \<open>t\<close> acquires the key \<open>K t\<close>. \<open>fl_fetches\<close> counts the calls of fetch.\<close>

datatype flabel =
    Hit1 nat | Miss1 nat | Lock nat | Hit2 nat | Miss2 nat
  | Fetched nat "(bytes \<times> 32 word) res"
  | Unlock nat
  | Invalidate string
  | Tick duration

definition store_result :: "gotime \<Rightarrow> string \<Rightarrow> (bytes \<times> 32 word) res \<Rightarrow> ech_cache \<Rightarrow> ech_cache" where
  "store_result now key fr cache =
     (case fr of
        Inl err \<Rightarrow> store_failure now key err cache
      | Inr (list, ttl) \<Rightarrow> store_list now key list ttl cache)"

inductive fstep :: "(nat \<Rightarrow> string) \<Rightarrow> flight \<Rightarrow> flabel \<Rightarrow> flight \<Rightarrow> bool" for K where
  hit1: "fl_pc s t = First \<Longrightarrow> echCacheLoad (fl_now s) (fl_cache s) (K t) = Some r
    \<Longrightarrow> fstep K s (Hit1 t) (s\<lparr>fl_pc := (fl_pc s)(t := Done r)\<rparr>)"
| miss1: "fl_pc s t = First \<Longrightarrow> echCacheLoad (fl_now s) (fl_cache s) (K t) = None
    \<Longrightarrow> fstep K s (Miss1 t) (s\<lparr>fl_pc := (fl_pc s)(t := Want)\<rparr>)"
| lock: "fl_pc s t = Want \<Longrightarrow> fl_owner s (K t) = None
    \<Longrightarrow> fstep K s (Lock t) (s\<lparr>fl_pc := (fl_pc s)(t := Second), fl_owner := (fl_owner s)(K t \<mapsto> t)\<rparr>)"
| hit2: "fl_pc s t = Second \<Longrightarrow> echCacheLoad (fl_now s) (fl_cache s) (K t) = Some r
    \<Longrightarrow> fstep K s (Hit2 t) (s\<lparr>fl_pc := (fl_pc s)(t := Leaving r)\<rparr>)"
| miss2: "fl_pc s t = Second \<Longrightarrow> echCacheLoad (fl_now s) (fl_cache s) (K t) = None
    \<Longrightarrow> fstep K s (Miss2 t) (s\<lparr>fl_pc := (fl_pc s)(t := Fetching),
          fl_fetches := (fl_fetches s)(K t := Suc (fl_fetches s (K t)))\<rparr>)"
| fetched: "fl_pc s t = Fetching
    \<Longrightarrow> fstep K s (Fetched t fr) (s\<lparr>fl_pc := (fl_pc s)(t := Leaving (result_list fr)),
          fl_cache := store_result (fl_now s) (K t) fr (fl_cache s)\<rparr>)"
| unlock: "fl_pc s t = Leaving r
    \<Longrightarrow> fstep K s (Unlock t) (s\<lparr>fl_pc := (fl_pc s)(t := Done r), fl_owner := (fl_owner s)(K t := None)\<rparr>)"
| invalidate: "fstep K s (Invalidate key) (s\<lparr>fl_cache := echInvalidate key (fl_cache s)\<rparr>)"
| tick: "0 \<le> d \<Longrightarrow> fstep K s (Tick d) (s\<lparr>fl_now := fl_now s + d\<rparr>)"

definition start :: "gotime \<Rightarrow> flight" where
  "start now = \<lparr>fl_cache = (\<lambda>_. None), fl_owner = (\<lambda>_. None), fl_pc = (\<lambda>_. First), fl_now = now, fl_fetches = (\<lambda>_. 0)\<rparr>"

text \<open>Executions, as lists of labels with the states they pass through satisfying \<open>P\<close>.\<close>

inductive frun :: "(nat \<Rightarrow> string) \<Rightarrow> (flight \<Rightarrow> flabel \<Rightarrow> flight \<Rightarrow> bool) \<Rightarrow> flight \<Rightarrow> flabel list \<Rightarrow> flight \<Rightarrow> bool"
  for K P where
  frun_Nil: "frun K P s [] s"
| frun_snoc: "frun K P s ls s1 \<Longrightarrow> fstep K s1 l s2 \<Longrightarrow> P s1 l s2 \<Longrightarrow> frun K P s (ls @ [l]) s2"

abbreviation anything :: "flight \<Rightarrow> flabel \<Rightarrow> flight \<Rightarrow> bool" where
  "anything \<equiv> (\<lambda>_ _ _. True)"

lemma frun_invariant:
  assumes "frun K P s ls s'" and "I s" and "\<And>s1 l s2. fstep K s1 l s2 \<Longrightarrow> P s1 l s2 \<Longrightarrow> I s1 \<Longrightarrow> I s2"
  shows "I s'"
  using assms by (induction rule: frun.induct) blast+

section \<open>Mutual exclusion\<close>

fun holds :: "pc \<Rightarrow> bool" where
  "holds Second = True"
| "holds Fetching = True"
| "holds (Leaving _) = True"
| "holds _ = False"

definition lock_inv :: "(nat \<Rightarrow> string) \<Rightarrow> flight \<Rightarrow> bool" where
  "lock_inv K s \<longleftrightarrow> (\<forall>t. holds (fl_pc s t) \<longleftrightarrow> fl_owner s (K t) = Some t)"

lemma lock_inv_start: "lock_inv K (start now)"
  by (simp add: lock_inv_def start_def)

lemma lock_inv_same:
  assumes "lock_inv K s" and "\<forall>t. holds (fl_pc s' t) = holds (fl_pc s t)" and "fl_owner s' = fl_owner s"
  shows "lock_inv K s'"
  using assms by (simp add: lock_inv_def)

lemma lock_inv_step: "fstep K s l s' \<Longrightarrow> lock_inv K s \<Longrightarrow> lock_inv K s'"
proof (induction rule: fstep.induct)
  case (lock s t)
  then show ?case by (auto simp: lock_inv_def)
next
  case (unlock s t r)
  then have "holds (fl_pc s t)" by simp
  then have "fl_owner s (K t) = Some t" using unlock.prems unfolding lock_inv_def by blast
  with unlock show ?case by (auto simp: lock_inv_def)
qed (erule lock_inv_same; simp)+

text \<open>
  C6: fetches of one key never overlap. However the goroutines interleave, and whatever is
  invalidated or expires meanwhile, at most one of them is inside the mutex of a key, so at most one
  network acquisition per key is under way.
\<close>

theorem fetch_mutual_exclusion:
  assumes "frun K anything (start now) ls s" and "fl_pc s t = Fetching" and "fl_pc s u = Fetching" and "K t = K u"
  shows "t = u"
proof -
  have "lock_inv K s"
    using frun_invariant[OF assms(1), of "lock_inv K"] lock_inv_start lock_inv_step by blast
  then show ?thesis using assms(2-4) by (metis holds.simps(2) lock_inv_def option.inject)
qed

theorem fetch_mutual_exclusion_witness:
  "\<exists>ls s. frun (\<lambda>_. ''k'') anything (start 0) ls s \<and> fl_pc s 0 = Fetching \<and> (fl_pc s 1 = Fetching \<longrightarrow> (1::nat) = 0)"
proof -
  let ?K = "\<lambda>_ :: nat. ''k''"
  let ?s1 = "(start 0)\<lparr>fl_pc := (fl_pc (start 0))(0 := Want)\<rparr>"
  let ?s2 = "?s1\<lparr>fl_pc := (fl_pc ?s1)(0 := Second), fl_owner := (fl_owner ?s1)(?K 0 \<mapsto> 0)\<rparr>"
  let ?s3 = "?s2\<lparr>fl_pc := (fl_pc ?s2)(0 := Fetching), fl_fetches := (fl_fetches ?s2)(?K 0 := Suc (fl_fetches ?s2 (?K 0)))\<rparr>"
  have "frun ?K anything (start 0) ([] @ [Miss1 0]) ?s1"
    by (rule frun_snoc[OF frun_Nil fstep.miss1]) (simp_all add: start_def echCacheLoad_def)
  then have "frun ?K anything (start 0) (([] @ [Miss1 0]) @ [Lock 0]) ?s2"
    by (rule frun_snoc[OF _ fstep.lock]) (simp_all add: start_def)
  then have r: "frun ?K anything (start 0) ((([] @ [Miss1 0]) @ [Lock 0]) @ [Miss2 0]) ?s3"
    by (rule frun_snoc[OF _ fstep.miss2]) (simp_all add: start_def echCacheLoad_def)
  moreover have f: "fl_pc ?s3 0 = Fetching" by simp
  moreover have "fl_pc ?s3 1 = Fetching \<longrightarrow> (1::nat) = 0"
    using fetch_mutual_exclusion[OF r, of 1 0] f by blast
  ultimately show ?thesis by blast
qed

section \<open>One fetch for all callers\<close>

text \<open>
  A calm execution: nothing is invalidated, no cached entry expires, and no fetch is cut off by its
  caller's deadline.
\<close>

definition calm :: "flight \<Rightarrow> flabel \<Rightarrow> flight \<Rightarrow> bool" where
  "calm s l s' \<longleftrightarrow>
     (\<forall>k. l \<noteq> Invalidate k) \<and> (\<forall>t fr. l = Fetched t fr \<longrightarrow> cacheable fr)
     \<and> (\<forall>k e. fl_cache s k = Some e \<longrightarrow> fl_now s' < ce_expire e)"

definition flight_inv :: "(nat \<Rightarrow> string) \<Rightarrow> flight \<Rightarrow> bool" where
  "flight_inv K s \<longleftrightarrow> lock_inv K s
     \<and> (\<forall>k. fl_fetches s k \<le> 1)
     \<and> (\<forall>k e. fl_cache s k = Some e \<longrightarrow> fl_now s < ce_expire e)
     \<and> (\<forall>k. fl_fetches s k = 1 \<longrightarrow> fl_cache s k \<noteq> None \<or> (\<exists>t. K t = k \<and> fl_pc s t = Fetching))
     \<and> (\<forall>t r. fl_pc s t = Leaving r \<or> fl_pc s t = Done r \<longrightarrow> (\<exists>e. fl_cache s (K t) = Some e \<and> entry_result e = r))
     \<and> (\<forall>t. fl_pc s t = Fetching \<longrightarrow> fl_cache s (K t) = None)"

lemma flight_inv_start: "flight_inv K (start now)"
  using lock_inv_start[of K now] by (simp add: flight_inv_def start_def)

lemma live_load: "flight_inv K s \<Longrightarrow> fl_cache s k = Some e \<Longrightarrow> echCacheLoad (fl_now s) (fl_cache s) k = Some (entry_result e)"
  by (auto simp: flight_inv_def echCacheLoad_def)

lemma load_live: "echCacheLoad now c k = Some r \<Longrightarrow> \<exists>e. c k = Some e \<and> entry_result e = r"
  by (auto simp: echCacheLoad_def split: option.splits if_splits)

lemma store_result_cacheable:
  assumes "cacheable fr"
  shows "\<exists>e. store_result now k fr c = c(k \<mapsto> e) \<and> entry_result e = result_list fr \<and> now < ce_expire e"
proof -
  have "store_result now k fr c = put_result now k (result_list fr) (result_ttl fr) c"
    using assms
    by (auto simp: store_result_def cacheable_def store_failure_put store_list_put result_list_def result_ttl_def split: sum.splits)
  moreover have "0 < result_ttl fr"
    using ttl_of_pos by (auto simp: result_ttl_def echNegativeTTL_def split: sum.splits prod.splits)
  ultimately show ?thesis by (auto simp: put_result_def entry_result_def split: sum.splits)
qed

lemma only_fetcher:
  assumes "lock_inv K s" and "holds (fl_pc s t)" and "holds (fl_pc s u)" and "K t = K u"
  shows "t = u"
  using assms by (metis lock_inv_def option.inject)

lemma flight_inv_pc:
  assumes "flight_inv K s" and "lock_inv K s'" and "fl_pc s t \<noteq> Fetching" and "p \<noteq> Fetching"
    and "fl_pc s' = (fl_pc s)(t := p)" and "fl_cache s' = fl_cache s" and "fl_now s' = fl_now s"
    and "fl_fetches s' = fl_fetches s"
    and "\<And>r. p = Leaving r \<or> p = Done r \<Longrightarrow> \<exists>e. fl_cache s (K t) = Some e \<and> entry_result e = r"
  shows "flight_inv K s'"
proof -
  have F: "fl_pc s' u = Fetching \<longleftrightarrow> fl_pc s u = Fetching" for u using assms(3-5) by simp
  have "\<exists>e. fl_cache s (K u) = Some e \<and> entry_result e = r" if "fl_pc s' u = Leaving r \<or> fl_pc s' u = Done r" for u r
  proof (cases "u = t")
    case True
    then show ?thesis using that assms(5,9) by simp
  next
    case False
    then have "fl_pc s u = Leaving r \<or> fl_pc s u = Done r" using that assms(5) by simp
    then show ?thesis using assms(1) unfolding flight_inv_def by blast
  qed
  with assms(1,2,6-8) F show ?thesis unfolding flight_inv_def by simp
qed

text \<open>The step in which the winner stores its result.\<close>

lemma flight_inv_fetched:
  assumes "fl_pc s t = Fetching" and "calm s (Fetched t fr) s'" and "flight_inv K s" and "lock_inv K s'"
    and "s' = s\<lparr>fl_pc := (fl_pc s)(t := Leaving (result_list fr)), fl_cache := store_result (fl_now s) (K t) fr (fl_cache s)\<rparr>"
  shows "flight_inv K s'"
proof -
  have lk: "lock_inv K s" using assms(3) by (simp add: flight_inv_def)
  have "cacheable fr" using assms(2) by (simp add: calm_def)
  then obtain e where e: "store_result (fl_now s) (K t) fr (fl_cache s) = (fl_cache s)(K t \<mapsto> e)"
    "entry_result e = result_list fr" "fl_now s < ce_expire e"
    using store_result_cacheable by blast
  have n: "fl_cache s (K t) = None" using assms(1) assms(3) by (simp add: flight_inv_def)
  have o: "u = t" if "K u = K t" "fl_pc s u = Fetching" for u
    using only_fetcher[OF lk, of u t] that assms(1) by simp
  have s': "fl_pc s' = (fl_pc s)(t := Leaving (result_list fr))" "fl_cache s' = (fl_cache s)(K t \<mapsto> e)"
    "fl_now s' = fl_now s" "fl_fetches s' = fl_fetches s"
    using assms(5) e(1) by simp_all
  have a: "fl_cache s' k \<noteq> None \<or> (\<exists>u. K u = k \<and> fl_pc s' u = Fetching)" if "fl_fetches s' k = 1" for k
  proof (cases "k = K t")
    case False
    have "fl_cache s k \<noteq> None \<or> (\<exists>u. K u = k \<and> fl_pc s u = Fetching)"
      using that s'(4) assms(3) unfolding flight_inv_def by simp
    with False s' show ?thesis by fastforce
  qed (simp add: s')
  have b: "\<exists>x. fl_cache s' (K u) = Some x \<and> entry_result x = r" if p: "fl_pc s' u = Leaving r \<or> fl_pc s' u = Done r" for u r
  proof (cases "u = t")
    case False
    then have "fl_pc s u = Leaving r \<or> fl_pc s u = Done r" using p s'(1) by simp
    then have x: "\<exists>x. fl_cache s (K u) = Some x \<and> entry_result x = r" using assms(3) unfolding flight_inv_def by blast
    then have "K u \<noteq> K t" using n by auto
    with x s' show ?thesis by simp
  qed (use p s' e in auto)
  have c: "fl_cache s' (K u) = None" if "fl_pc s' u = Fetching" for u
  proof -
    have u: "fl_pc s u = Fetching" "u \<noteq> t" using that s'(1) by (auto split: if_splits)
    then have "K u \<noteq> K t" using o by blast
    then show ?thesis using u assms(3) s' unfolding flight_inv_def by simp
  qed
  show ?thesis using assms(3) assms(4) s' e(3) a b c unfolding flight_inv_def by auto
qed

lemma flight_inv_miss2:
  assumes "flight_inv K s" and "lock_inv K s" and "lock_inv K s'" and "fl_pc s t = Second"
    and "echCacheLoad (fl_now s) (fl_cache s) (K t) = None"
    and "s' = s\<lparr>fl_pc := (fl_pc s)(t := Fetching), fl_fetches := (fl_fetches s)(K t := Suc (fl_fetches s (K t)))\<rparr>"
  shows "flight_inv K s'"
proof -
  have n: "fl_cache s (K t) = None"
    using live_load[OF assms(1), of "K t"] assms(5) by (cases "fl_cache s (K t)") auto
  moreover have "\<not> (K u = K t \<and> fl_pc s u = Fetching)" for u
    using only_fetcher[OF assms(2), of t u] assms(4) by auto
  ultimately have "fl_fetches s (K t) = 0" using assms(1) by (auto simp: flight_inv_def le_Suc_eq)
  with n show ?thesis using assms(1,3,4,6) by (auto simp: flight_inv_def)
qed

lemma flight_inv_step:
  assumes "fstep K s l s'" and "calm s l s'" and "flight_inv K s"
  shows "flight_inv K s'"
proof -
  have "lock_inv K s" using assms(3) by (simp add: flight_inv_def)
  note lk = this lock_inv_step[OF assms(1) this]
  from assms(1) show ?thesis
  proof (cases rule: fstep.cases)
    case (hit1 t r)
    with load_live[OF hit1(4)] show ?thesis by (intro flight_inv_pc[OF assms(3) lk(2), of t "Done r"]) simp_all
  next
    case (miss1 t)
    then show ?thesis by (intro flight_inv_pc[OF assms(3) lk(2), of t Want]) simp_all
  next
    case (lock t)
    then show ?thesis by (intro flight_inv_pc[OF assms(3) lk(2), of t Second]) simp_all
  next
    case (hit2 t r)
    with load_live[OF hit2(4)] show ?thesis by (intro flight_inv_pc[OF assms(3) lk(2), of t "Leaving r"]) simp_all
  next
    case (miss2 t)
    then show ?thesis using flight_inv_miss2[OF assms(3) lk] by simp
  next
    case (fetched t fr)
    then show ?thesis using flight_inv_fetched[of s t fr s' K] assms(2,3) lk(2) by simp
  next
    case (unlock t r)
    have "\<exists>e. fl_cache s (K t) = Some e \<and> entry_result e = r"
      using unlock(3) assms(3) unfolding flight_inv_def by blast
    with unlock show ?thesis by (intro flight_inv_pc[OF assms(3) lk(2), of t "Done r"]) simp_all
  next
    case (invalidate key)
    then show ?thesis using assms(2) by (simp add: calm_def)
  next
    case (tick d)
    then show ?thesis using assms(2,3) lk(2) by (auto simp: flight_inv_def calm_def)
  qed
qed




section \<open>The sequential function is a run\<close>

lemma frun_anything_snoc: "frun K anything s ls s1 \<Longrightarrow> fstep K s1 l s2 \<Longrightarrow> frun K anything s (ls @ [l]) s2"
  by (rule frun_snoc) simp_all

lemma frun_tick:
  assumes "frun K anything s ls s1" and "fl_now s1 \<le> t"
  shows "\<exists>ls'. frun K anything s ls' (s1\<lparr>fl_now := t\<rparr>)"
  using frun_anything_snoc[OF assms(1) fstep.tick[of "t - fl_now s1"]] assms(2) by auto

text \<open>Leaving frees the mutex again.\<close>

lemma frun_leave:
  assumes "frun K anything s l4 s4" and "fl_pc s4 t = Leaving q"
    and "fl_owner s4 = (fl_owner s)(K t \<mapsto> t)" and "fl_owner s (K t) = None"
  shows "\<exists>ls s'. frun K anything s ls s' \<and> fl_pc s' t = Done q \<and> fl_cache s' = fl_cache s4 \<and> fl_owner s' = fl_owner s"
proof -
  have "frun K anything s (l4 @ [Unlock t]) (s4\<lparr>fl_pc := (fl_pc s4)(t := Done q), fl_owner := (fl_owner s4)(K t := None)\<rparr>)"
    using assms by (intro frun_anything_snoc[OF assms(1)] fstep.unlock) simp
  moreover have "(fl_owner s4)(K t := None) = fl_owner s" using assms(3,4) by auto
  ultimately show ?thesis by fastforce
qed

text \<open>The second miss, the fetch that ends at time \<open>u\<close>, and the store.\<close>

lemma frun_fetch:
  assumes "frun K anything s l3 s3" and "fl_pc s3 t = Second"
    and "echCacheLoad (fl_now s3) (fl_cache s3) (K t) = None" and "fl_now s3 \<le> u"
  shows "\<exists>l6 s6. frun K anything s l6 s6 \<and> fl_pc s6 t = Leaving (result_list fr) \<and>
    fl_cache s6 = store_result u (K t) fr (fl_cache s3) \<and> fl_owner s6 = fl_owner s3"
proof -
  let ?s4 = "s3\<lparr>fl_pc := (fl_pc s3)(t := Fetching), fl_fetches := (fl_fetches s3)(K t := Suc (fl_fetches s3 (K t)))\<rparr>"
  let ?s5 = "?s4\<lparr>fl_now := u\<rparr>"
  have "frun K anything s (l3 @ [Miss2 t]) ?s4"
    using assms(2,3) by (intro frun_anything_snoc[OF assms(1)] fstep.miss2) simp_all
  from frun_tick[OF this] assms(4) obtain l5 where R5: "frun K anything s l5 ?s5" by auto
  have "frun K anything s (l5 @ [Fetched t fr]) (?s5\<lparr>fl_pc := (fl_pc ?s5)(t := Leaving (result_list fr)),
      fl_cache := store_result (fl_now ?s5) (K t) fr (fl_cache ?s5)\<rparr>)"
    by (intro frun_anything_snoc[OF R5] fstep.fetched) simp
  then show ?thesis by fastforce
qed

text \<open>
  C9: the sequential echAcquire is one goroutine's run of the concurrent one. If the clock does not go
  back and fetch leaves the cache alone, then from a state where goroutine t is about to start and
  nobody holds its mutex, the steps lead to the state with the cache, the answer and the free mutex that
  echAcquire computes.
\<close>

theorem echAcquire_refines_steps:
  assumes "echAcquire env (K t) fetch (fl_cache s, tr) = (r, cache', tr')"
    and "fl_pc s t = First" and "fl_owner s (K t) = None" and "fl_now s \<le> env_now env tr"
    and "\<And>h h'. (\<exists>x. h' = h @ x) \<Longrightarrow> env_now env h \<le> env_now env h'"
    and "\<And>c h. \<exists>x. snd (fetch (c, h)) = (c, h @ x)"
  shows "\<exists>ls s'. frun K anything s ls s' \<and> fl_pc s' t = Done r \<and> fl_cache s' = cache' \<and> fl_owner s' = fl_owner s"
proof -
  let ?n0 = "env_now env tr" and ?h1 = "tr @ [LockKey (K t)]"
  have n01: "?n0 \<le> env_now env ?h1" using assms(5) by blast
  let ?s0 = "s\<lparr>fl_now := ?n0\<rparr>"
  obtain l0 where R0: "frun K anything s l0 ?s0" using frun_tick[OF frun_Nil assms(4)] by blast
  show ?thesis
  proof (cases "echCacheLoad ?n0 (fl_cache s) (K t)")
    case (Some r0)
    then have "r0 = r" "cache' = fl_cache s" using assms(1) by (simp_all add: echAcquire_hit)
    moreover have "frun K anything s (l0 @ [Hit1 t]) (?s0\<lparr>fl_pc := (fl_pc ?s0)(t := Done r0)\<rparr>)"
      using assms(2) Some by (intro frun_anything_snoc[OF R0] fstep.hit1) simp_all
    ultimately show ?thesis by fastforce
  next
    case None
    let ?s1 = "?s0\<lparr>fl_pc := (fl_pc ?s0)(t := Want)\<rparr>"
    let ?s2 = "?s1\<lparr>fl_pc := (fl_pc ?s1)(t := Second), fl_owner := (fl_owner ?s1)(K t \<mapsto> t)\<rparr>"
    let ?s3 = "?s2\<lparr>fl_now := env_now env ?h1\<rparr>"
    have "frun K anything s ((l0 @ [Miss1 t]) @ [Lock t]) ?s2"
      by (rule frun_anything_snoc[OF frun_anything_snoc[OF R0 fstep.miss1] fstep.lock]) (simp_all add: assms None)
    then obtain l3 where R3: "frun K anything s l3 ?s3" using frun_tick[of K s _ ?s2] n01 by auto
    from assms(1) show ?thesis
    proof (cases rule: echAcquire_cases)
      case (hit h)
      then have h: "echCacheLoad (env_now env ?h1) (fl_cache s) (K t) = Some r" using None by auto
      have "frun K anything s (l3 @ [Hit2 t]) (?s3\<lparr>fl_pc := (fl_pc ?s3)(t := Leaving r)\<rparr>)"
        using h by (intro frun_anything_snoc[OF R3] fstep.hit2) simp_all
      from frun_leave[OF this _ _ assms(3)] hit(2) show ?thesis by simp
    next
      case (fetched fr cache2 tr2)
      then have c2: "cache2 = fl_cache s" "\<exists>x. tr2 = ?h1 @ x" using assms(6)[of "fl_cache s" ?h1] by auto
      then have "env_now env ?h1 \<le> env_now env tr2" using assms(5) by blast
      then obtain l6 s6 where s6: "frun K anything s l6 s6" "fl_pc s6 t = Leaving (result_list fr)"
          "fl_cache s6 = store_result (env_now env tr2) (K t) fr (fl_cache s)" "fl_owner s6 = (fl_owner s)(K t \<mapsto> t)"
        using frun_fetch[OF R3, of t "env_now env tr2" fr] fetched(2) by auto
      have "store_result (env_now env tr2) (K t) fr (fl_cache s) = cache'"
        using fetched(4,5) c2(1)
        by (auto simp: store_result_def cacheable_def store_failure_put store_list_put result_list_def result_ttl_def split: sum.splits)
      with frun_leave[OF s6(1,2,4) assms(3)] s6(3) fetched(4) show ?thesis by simp
    qed
  qed
qed

theorem echAcquire_refines_steps_witness:
  "\<exists>ls s'. frun (\<lambda>_. ''k'') anything (start 0) ls s' \<and> fl_pc s' 0 = Done (Inr [1, 2])"
proof -
  obtain r cache' tr' where a: "echAcquire demo_net ''k'' demo_fetch (fl_cache (start 0), []) = (r, cache', tr')"
    by (rule prod_cases3)
  then have "r = Inr [1, 2]" by (simp add: echAcquire_def echCacheLoad_def start_def demo_fetch_def)
  with echAcquire_refines_steps[of demo_net "\<lambda>_. ''k''" 0 demo_fetch "start 0" "[]" r cache' tr', OF a]
  show ?thesis by (auto simp: start_def demo_net_def demo_fetch_def)
qed

section \<open>Every caller is served\<close>

inductive_simps fstep_of [simp]:
  "fstep K s (Hit1 t) s'"
  "fstep K s (Miss1 t) s'"
  "fstep K s (Lock t) s'"
  "fstep K s (Hit2 t) s'"
  "fstep K s (Miss2 t) s'"
  "fstep K s (Fetched t fr) s'"
  "fstep K s (Unlock t) s'"

text \<open>The owner of a mutex acquires its key.\<close>

definition owner_inv :: "(nat \<Rightarrow> string) \<Rightarrow> flight \<Rightarrow> bool" where
  "owner_inv K s \<longleftrightarrow> lock_inv K s \<and> (\<forall>k u. fl_owner s k = Some u \<longrightarrow> K u = k)"

lemma owner_inv_run: "frun K anything (start now) ls s \<Longrightarrow> owner_inv K s"
proof (erule frun_invariant)
  show "owner_inv K (start now)" using lock_inv_start by (simp add: owner_inv_def start_def)
  show "owner_inv K s2" if "fstep K s1 l s2" and "owner_inv K s1" for s1 l s2
  proof -
    have "\<forall>k u. fl_owner s2 k = Some u \<longrightarrow> K u = k"
      using that(1) that(2) by (cases rule: fstep.cases) (auto simp: owner_inv_def split: if_splits)
    then show ?thesis using that lock_inv_step by (simp add: owner_inv_def)
  qed
qed

text \<open>Whoever holds a mutex can leave it by itself in three steps.\<close>

lemma leaving_steps:
  assumes "frun K anything s0 ls s" and "fl_pc s t = Leaving r"
  shows "\<exists>s'. frun K anything s0 (ls @ [Unlock t]) s' \<and> fl_pc s' = (fl_pc s)(t := Done r) \<and> fl_owner s' = (fl_owner s)(K t := None)"
  using assms frun_anything_snoc[OF assms(1), of "Unlock t" "s\<lparr>fl_pc := (fl_pc s)(t := Done r), fl_owner := (fl_owner s)(K t := None)\<rparr>"]
  by (intro exI[of _ "s\<lparr>fl_pc := (fl_pc s)(t := Done r), fl_owner := (fl_owner s)(K t := None)\<rparr>"]) simp

lemma fetching_steps:
  assumes "frun K anything s0 ls s" and "fl_pc s t = Fetching"
  shows "\<exists>r s'. frun K anything s0 (ls @ [Fetched t (Inr ([], 0)), Unlock t]) s' \<and> fl_pc s' = (fl_pc s)(t := Done r) \<and> fl_owner s' = (fl_owner s)(K t := None)"
proof -
  let ?s1 = "s\<lparr>fl_pc := (fl_pc s)(t := Leaving (result_list (Inr ([], 0)))), fl_cache := store_result (fl_now s) (K t) (Inr ([], 0)) (fl_cache s)\<rparr>"
  have "frun K anything s0 (ls @ [Fetched t (Inr ([], 0))]) ?s1" using assms by (intro frun_anything_snoc) simp_all
  from leaving_steps[OF this, of t] show ?thesis by auto
qed

lemma holder_leaves:
  assumes "frun K anything s0 ls s" and "holds (fl_pc s t)"
  shows "\<exists>ls' r s'. frun K anything s0 (ls @ ls') s' \<and> length ls' \<le> 3 \<and> fl_pc s' = (fl_pc s)(t := Done r) \<and> fl_owner s' = (fl_owner s)(K t := None)"
proof (cases "fl_pc s t")
  case Second
  show ?thesis
  proof (cases "echCacheLoad (fl_now s) (fl_cache s) (K t)")
    case (Some r)
    let ?s1 = "s\<lparr>fl_pc := (fl_pc s)(t := Leaving r)\<rparr>"
    have "frun K anything s0 (ls @ [Hit2 t]) ?s1" by (rule frun_anything_snoc[OF assms(1) fstep.hit2[of s t K r, OF Second Some]])
    from leaving_steps[OF this, of t r] show ?thesis by (intro exI[of _ "[Hit2 t, Unlock t]"]) auto
  next
    case None
    let ?s1 = "s\<lparr>fl_pc := (fl_pc s)(t := Fetching), fl_fetches := (fl_fetches s)(K t := Suc (fl_fetches s (K t)))\<rparr>"
    have "frun K anything s0 (ls @ [Miss2 t]) ?s1" using assms(1) Second None by (intro frun_anything_snoc) simp_all
    from fetching_steps[OF this, of t] show ?thesis by (intro exI[of _ "[Miss2 t, Fetched t (Inr ([], 0)), Unlock t]"]) auto
  qed
next
  case Fetching
  from fetching_steps[OF assms(1) this] show ?thesis by (intro exI[of _ "[Fetched t (Inr ([], 0)), Unlock t]"]) auto
next
  case (Leaving r)
  from leaving_steps[OF assms(1) this] show ?thesis by (intro exI[of _ "[Unlock t]"]) auto
qed (use assms(2) in auto)

lemma free_mutex_serves:
  assumes "frun K anything s0 ls s" and "fl_pc s t = Want" and "fl_owner s (K t) = None"
  shows "\<exists>ls' r s'. frun K anything s0 (ls @ ls') s' \<and> length ls' \<le> 4 \<and> fl_pc s' t = Done r"
proof -
  let ?s1 = "s\<lparr>fl_pc := (fl_pc s)(t := Second), fl_owner := (fl_owner s)(K t \<mapsto> t)\<rparr>"
  have "frun K anything s0 (ls @ [Lock t]) ?s1" using assms by (intro frun_anything_snoc) simp_all
  from holder_leaves[OF this, of t] obtain ls' r s' where "frun K anything s0 ((ls @ [Lock t]) @ ls') s'" "length ls' \<le> 3" "fl_pc s' t = Done r" by auto
  then show ?thesis by (intro exI[of _ "Lock t # ls'"]) auto
qed

lemma waiting_served:
  assumes "frun K anything (start now) ls s" and "fl_pc s t = Want"
  shows "\<exists>ls' r s'. frun K anything (start now) (ls @ ls') s' \<and> length ls' \<le> 7 \<and> fl_pc s' t = Done r"
proof (cases "fl_owner s (K t)")
  case None
  from free_mutex_serves[OF assms this] obtain l r s' where "frun K anything (start now) (ls @ l) s'" "length l \<le> 4" "fl_pc s' t = Done r" by blast
  then show ?thesis by (intro exI[of _ l] exI[of _ r] exI[of _ s']) simp
next
  case (Some u)
  have i: "owner_inv K s" by (rule owner_inv_run[OF assms(1)])
  then have u: "K u = K t" using Some by (simp add: owner_inv_def)
  then have h: "holds (fl_pc s u)" using i Some by (simp add: owner_inv_def lock_inv_def)
  with assms(2) have "u \<noteq> t" by auto
  from holder_leaves[OF assms(1) h] obtain l1 r s1 where s1: "frun K anything (start now) (ls @ l1) s1" "length l1 \<le> 3"
    "fl_pc s1 = (fl_pc s)(u := Done r)" "fl_owner s1 = (fl_owner s)(K u := None)" by blast
  then have "fl_pc s1 t = Want" "fl_owner s1 (K t) = None" using assms(2) u \<open>u \<noteq> t\<close> by auto
  from free_mutex_serves[OF s1(1) this] obtain l2 r2 s2 where "frun K anything (start now) ((ls @ l1) @ l2) s2" "length l2 \<le> 4" "fl_pc s2 t = Done r2" by blast
  then show ?thesis using s1(2) by (intro exI[of _ "l1 @ l2"]) auto
qed

text \<open>
  C8: no caller waits for ever. In every state the goroutines can reach, each caller that has no answer yet can get one within eight
  steps: the mutexes neither deadlock nor stay locked.
\<close>

theorem every_caller_served:
  assumes "frun K anything (start now) ls s"
  shows "\<exists>ls' r s'. frun K anything (start now) (ls @ ls') s' \<and> length ls' \<le> 8 \<and> fl_pc s' t = Done r"
proof (cases "holds (fl_pc s t)")
  case True
  from holder_leaves[OF assms True] obtain l r s' where "frun K anything (start now) (ls @ l) s'" "length l \<le> 3" "fl_pc s' = (fl_pc s)(t := Done r)" by blast
  then show ?thesis by (intro exI[of _ l] exI[of _ r] exI[of _ s']) simp
next
  case False
  then consider (First) "fl_pc s t = First" | (Want) "fl_pc s t = Want" | (Done) r where "fl_pc s t = Done r" by (cases "fl_pc s t") auto
  then show ?thesis
  proof cases
    case First
    show ?thesis
    proof (cases "echCacheLoad (fl_now s) (fl_cache s) (K t)")
      case (Some r)
      have "frun K anything (start now) (ls @ [Hit1 t]) (s\<lparr>fl_pc := (fl_pc s)(t := Done r)\<rparr>)"
        by (rule frun_anything_snoc[OF assms fstep.hit1[of s t K r, OF First Some]])
      then show ?thesis by (intro exI[of _ "[Hit1 t]"]) force
    next
      case None
      then have "frun K anything (start now) (ls @ [Miss1 t]) (s\<lparr>fl_pc := (fl_pc s)(t := Want)\<rparr>)"
        using assms First by (intro frun_anything_snoc) simp_all
      from waiting_served[OF this, of t] obtain l r s' where "frun K anything (start now) ((ls @ [Miss1 t]) @ l) s'" "length l \<le> 7" "fl_pc s' t = Done r" by auto
      then show ?thesis by (intro exI[of _ "Miss1 t # l"]) auto
    qed
  next
    case Want
    from waiting_served[OF assms this] obtain l r s' where "frun K anything (start now) (ls @ l) s'" "length l \<le> 7" "fl_pc s' t = Done r" by blast
    then show ?thesis by (intro exI[of _ l] exI[of _ r] exI[of _ s']) simp
  next
    case Done
    then show ?thesis using assms by (intro exI[of _ "[]"]) auto
  qed
qed

theorem every_caller_served_witness:
  "\<exists>ls r s. frun (\<lambda>_. ''k'') anything (start 0) ls s \<and> length ls \<le> 8 \<and> fl_pc s 3 = Done r"
  using every_caller_served[OF frun_Nil, of "\<lambda>_. ''k''" 0 3] by simp

end
