(* ===== verification/Wg_Keys.thy ===== *)
theory Wg_Keys
  imports Noise Go_Net
begin

unbundle bit_operations_syntax

text \<open>
  The options of the WireGuard probe (\<^verbatim>\<open>libv2ray_wireguard_probe.go\<close>), the reading of keys and of the reserved
  bytes, and the generation of private keys, with the round trips of the readers. A Go array of fixed
  size is a list; \<open>fit\<close> is \<^verbatim>\<open>copy\<close> into one.
\<close>

section \<open>Options and results\<close>

record WireGuardResult =
  wr_Alive :: bool
  wr_Responded :: bool
  wr_ReplyType :: nat
  wr_ReplySize :: nat
  wr_Attempts :: nat
  wr_RttMs :: int
  wr_RespError :: "go_error option"

definition no_result :: WireGuardResult where
  "no_result = \<lparr>wr_Alive = False, wr_Responded = False, wr_ReplyType = 0, wr_ReplySize = 0, wr_Attempts = 0,
     wr_RttMs = 0, wr_RespError = None\<rparr>"

definition wg_failed :: "go_error \<Rightarrow> WireGuardResult" where
  "wg_failed err = no_result\<lparr>wr_RespError := Some err\<rparr>"

record wireGuardProbeOptions =
  wo_Address :: string
  wo_IP :: string
  wo_PublicKey :: string
  wo_PrivateKey :: string
  wo_PresharedKey :: string
  wo_Reserved :: string
  wo_Timeout :: int
  wo_Attempts :: int
  wo_WNoise :: string
  wo_WNoiseCount :: string
  wo_WNoiseDelay :: string
  wo_WPayloadSize :: string

definition wg_timeout :: "wireGuardProbeOptions \<Rightarrow> duration" where
  "wg_timeout o' =
     (if wo_Timeout o' \<le> 0 then defaultTimeoutMs * millisecond else wrap64 (wo_Timeout o' * millisecond))"

definition wg_attempts :: "wireGuardProbeOptions \<Rightarrow> int" where
  "wg_attempts o' = (if wo_Attempts o' \<le> 0 then 2 else wo_Attempts o')"

definition wg_noise :: "wireGuardProbeOptions \<Rightarrow> noiseConfig option res" where
  "wg_noise o' =
     build_noiseConfig (zeroOptions\<lparr>opt_WNoise := wo_WNoise o', opt_WNoiseCount := wo_WNoiseCount o',
       opt_WNoiseDelay := wo_WNoiseDelay o', opt_WPayloadSize := wo_WPayloadSize o'\<rparr>)"

section \<open>Keys and reserved bytes\<close>

definition fit :: "nat \<Rightarrow> bytes \<Rightarrow> bytes" where
  "fit n bs = take n (bs @ replicate n 0)"

fun first_decoded :: "b64_enc list \<Rightarrow> string \<Rightarrow> bytes res" where
  "first_decoded [] s = Inl (Errorf ''cannot decode %q'' [S s])"
| "first_decoded (enc # encs) s =
     (case b64_decode enc s of Inr raw \<Rightarrow> Inr raw | Inl err \<Rightarrow> first_decoded encs s)"

definition decodeBase64Any :: "string \<Rightarrow> bytes res" where
  "decodeBase64Any s = first_decoded [StdEncoding, RawStdEncoding, URLEncoding, RawURLEncoding] s"

definition NoisePublicKeySize :: nat where "NoisePublicKeySize = 32"

definition parseNoiseKey :: "string \<Rightarrow> string \<Rightarrow> bytes res" where
  "parseNoiseKey v field =
     (let trimmed = trim_space v in
      if trimmed = [] then Inl (Errorf ''%s is required'' [S field])
      else case decodeBase64Any trimmed of
          Inl err \<Rightarrow> Inl (Wrapf ''%s is not valid base64: %w'' [S field] err)
        | Inr raw \<Rightarrow>
            if length raw \<noteq> NoisePublicKeySize then
              Inl (Errorf ''%s is %d bytes, want %d'' [S field, N (int (length raw)), N (int NoisePublicKeySize)])
            else Inr (fit NoisePublicKeySize raw))"

fun reserved_parts :: "string \<Rightarrow> string list \<Rightarrow> bytes res" where
  "reserved_parts v [] = Inr []"
| "reserved_parts v (p # ps) =
     (case atoi (trim_space p) of
        None \<Rightarrow> Inl (Errorf ''reserved %q is not three values in 0-255'' [S v])
      | Some n \<Rightarrow>
          if n < 0 \<or> n > 255 then Inl (Errorf ''reserved %q is not three values in 0-255'' [S v])
          else case reserved_parts v ps of Inl err \<Rightarrow> Inl err | Inr bs \<Rightarrow> Inr (of_int n # bs))"

definition parseReserved :: "string \<Rightarrow> bytes res" where
  "parseReserved v =
     (let trimmed = trim_space v in
      if trimmed = [] then Inr [0, 0, 0]
      else if CHR '','' \<in> set trimmed then
        (let parts = split_on (CHR '','') trimmed in
         if length parts \<noteq> 3 then Inl (Errorf ''reserved %q has %d values, want 3'' [S v, N (int (length parts))])
         else reserved_parts v parts)
      else case decodeBase64Any trimmed of
          Inl err \<Rightarrow> Inl (Wrapf ''reserved %q is neither a,b,c nor base64: %w'' [S v] err)
        | Inr raw \<Rightarrow>
            if length raw \<noteq> 3 then Inl (Errorf ''reserved decodes to %d bytes, want 3'' [N (int (length raw))])
            else Inr (fit 3 raw))"

definition clampPrivateKey :: "bytes \<Rightarrow> bytes" where
  "clampPrivateKey key = key[0 := key ! 0 AND 248, 31 := (key ! 31 AND 127) OR 64]"

definition randomBytes :: "nat \<Rightarrow> entropy \<Rightarrow> bytes res \<times> entropy" where
  "randomBytes n e =
     (case rand_read n e of
        (None, e1) \<Rightarrow> (Inl (Wrapf ''cannot read random bytes: %w'' [] (ExtErr ''rand'')), e1)
      | (Some b, e1) \<Rightarrow> (Inr b, e1))"

definition randomNoisePrivateKey :: "entropy \<Rightarrow> bytes res \<times> entropy" where
  "randomNoisePrivateKey e =
     (case randomBytes 32 e of (Inl err, e1) \<Rightarrow> (Inl err, e1) | (Inr b, e1) \<Rightarrow> (Inr (clampPrivateKey b), e1))"


section \<open>Reading keys\<close>

text \<open>
  The four base64 encodings never disagree on a text that two of them accept, so the order in which
  \<^verbatim>\<open>decodeBase64Any\<close> tries them does not matter.
\<close>

lemma b64_val_agree: "b64_val enc c = Some v \<Longrightarrow> b64_val enc' c = Some v' \<Longrightarrow> v = v'"
  by (auto simp: b64_val_def Let_def split: if_splits)

lemma b64_quanta_agree: "b64_quanta enc s = Some bs \<Longrightarrow> b64_quanta enc' s = Some bs' \<Longrightarrow> bs = bs'"
proof (induction enc s arbitrary: bs bs' rule: b64_quanta.induct)
  case (3 enc p q)
  then show ?case by (auto split: if_splits option.splits dest: b64_val_agree)
next
  case (4 enc p q r)
  then show ?case by (auto split: if_splits option.splits dest: b64_val_agree)
next
  case (5 enc p q r t s)
  show ?case
  proof (cases "b64_val enc r = None \<or> b64_val enc t = None")
    case True
    with 5 show ?thesis by (auto split: if_splits option.splits dest: b64_val_agree)
  next
    case False
    then obtain c d where cd: "b64_val enc r = Some c" "b64_val enc t = Some d" by auto
    with 5(2) obtain a b l where ab: "b64_val enc p = Some a" "b64_val enc q = Some b" "b64_quanta enc s = Some l"
      by (auto split: option.splits)
    from cd have "r \<noteq> CHR ''=''" "t \<noteq> CHR ''=''" by auto
    with 5(3) obtain a' b' c' d' l' where p: "b64_val enc' p = Some a'" "b64_val enc' q = Some b'" "b64_val enc' r = Some c'"
      "b64_val enc' t = Some d'" "b64_quanta enc' s = Some l'"
      by (auto split: option.splits if_splits)
    have "a' = a" "b' = b" "c' = c" "d' = d"
      using ab cd p by (auto dest: b64_val_agree)
    moreover have "l' = l" using 5(1)[OF _ ab(1,2) cd ab(3) p(5)] by auto
    ultimately show ?thesis using ab cd p 5(2,3) by simp
  qed
qed simp_all

lemma b64_decode_agree: "b64_decode enc s = Inr bs \<Longrightarrow> b64_decode enc' s = Inr bs' \<Longrightarrow> bs = bs'"
  by (auto simp: b64_decode_def split: option.splits dest: b64_quanta_agree)

lemma first_decoded_any: "enc \<in> set encs \<Longrightarrow> b64_decode enc s = Inr bs \<Longrightarrow> first_decoded encs s = Inr bs"
  by (induction encs) (auto split: sum.splits dest: b64_decode_agree)

lemma decodeBase64Any_encode [simp]: "decodeBase64Any (b64_encode enc bs) = Inr bs"
proof -
  have "enc \<in> {StdEncoding, RawStdEncoding, URLEncoding, RawURLEncoding}"
    by (cases enc) (auto simp: StdEncoding_def RawStdEncoding_def URLEncoding_def RawURLEncoding_def)
  then show ?thesis unfolding decodeBase64Any_def by (intro first_decoded_any[of enc]) auto
qed

lemma b64_char_plain [simp]: "v < 64 \<Longrightarrow> plain_char (b64_char enc v)"
  by (auto simp: b64_char_def plain_char_def is_space_ascii_def)

lemma b64_char_comma [simp]: "v < 64 \<Longrightarrow> b64_char enc v \<noteq> CHR '',''" "v < 64 \<Longrightarrow> CHR '','' \<noteq> b64_char enc v"
proof -
  have "b64_val enc (CHR '','') = None" by (simp add: b64_val_def)
  then show "v < 64 \<Longrightarrow> b64_char enc v \<noteq> CHR '',''" "v < 64 \<Longrightarrow> CHR '','' \<noteq> b64_char enc v"
    using b64_val_char[of v enc] by (metis option.distinct(1))+
qed

lemma b64_encode_plain: "list_all plain_char (b64_encode enc bs) \<and> CHR '','' \<notin> set (b64_encode enc bs)"
proof -
  have "plain_char (CHR ''='')" by (simp add: plain_char_def is_space_ascii_def)
  then show ?thesis by (induction enc bs rule: b64_encode.induct) (simp_all add: byte_parts)
qed

lemma trim_b64 [simp]: "trim_space (b64_encode enc bs) = b64_encode enc bs"
  using b64_encode_plain trim_space_all_plain by blast

lemma b64_encode_Nil [simp]: "b64_encode enc bs = [] \<longleftrightarrow> bs = []"
  by (cases "(enc, bs)" rule: b64_encode.cases) auto

lemma fit_same [simp]: "length bs = n \<Longrightarrow> fit n bs = bs"
  by (simp add: fit_def)

lemma length_fit [simp]: "length (fit n bs) = n"
  by (simp add: fit_def)

lemma reserved_parts_show:
  "reserved_parts v (map (\<lambda>b. show_nat (unat b)) bs) = Inr bs"
proof (induction bs)
  case (Cons b bs)
  have lt: "unat b < 256" by simp
  have "int (unat b) < 256" using lt by linarith
  then have "int (unat b) < 2 ^ 63" by (rule less_trans) simp
  then have "atoi (show_nat (unat b)) = Some (int (unat b))" by (rule atoi_show_nat)
  moreover have "\<not> 255 < uint b" using uint_nat[of b] lt by linarith
  ultimately show ?case using Cons by (simp del: show_nat.simps)
qed simp

text \<open>
  C26: A 32-byte key written in any of the four base64 spellings, and three reserved bytes written either as
  decimal numbers with commas or in any base64 spelling, are read back exactly.
\<close>

theorem wg_credentials_roundtrip:
  assumes "length key = 32"
  shows "parseNoiseKey (b64_encode enc key) field = Inr key
    \<and> parseReserved (b64_encode enc [x, y, z]) = Inr [x, y, z]
    \<and> parseReserved (show_nat (unat x) @ '','' @ show_nat (unat y) @ '','' @ show_nat (unat z)) = Inr [x, y, z]"
proof -
  have "key \<noteq> []" using assms by auto
  then have 1: "parseNoiseKey (b64_encode enc key) field = Inr key"
    using assms by (simp add: parseNoiseKey_def NoisePublicKeySize_def)
  have 2: "parseReserved (b64_encode enc [x, y, z]) = Inr [x, y, z]"
    using b64_encode_plain[of enc "[x, y, z]"] decodeBase64Any_encode[of enc "[x, y, z]"] trim_b64[of enc "[x, y, z]"]
    by (simp add: parseReserved_def Let_def del: b64_encode.simps decodeBase64Any_encode trim_b64)
  let ?s = "show_nat (unat x) @ '','' @ show_nat (unat y) @ '','' @ show_nat (unat z)"
  have comma: "CHR '','' \<notin> set (show_nat n)" for n using show_nat_chars[of "CHR '',''" n] by (auto simp: is_digit_def)
  have "plain_char c" if "c \<in> set ?s" for c
    using that show_nat_chars digit_not_sign by (auto simp: plain_char_def is_space_ascii_def)
  then have t: "trim_space ?s = ?s" by (intro trim_space_all_plain) (auto simp: list_all_iff)
  have sp: "split_on (CHR '','') ?s = map (\<lambda>b. show_nat (unat b)) [x, y, z]" using comma by simp
  have "parseReserved ?s = reserved_parts ?s (map (\<lambda>b. show_nat (unat b)) [x, y, z])"
    unfolding parseReserved_def Let_def t sp by simp
  with 1 2 show ?thesis using reserved_parts_show[of ?s "[x, y, z]"] by simp
qed

theorem wg_credentials_roundtrip_witness:
  "parseNoiseKey (b64_encode RawURLEncoding (replicate 32 250)) ''publicKey'' = Inr (replicate 32 250)
   \<and> parseReserved (show_nat (unat (7 :: byte)) @ '','' @ show_nat (unat (255 :: byte)) @ '','' @ show_nat (unat (0 :: byte))) = Inr [7, 255, 0]"
  using wg_credentials_roundtrip[of "replicate 32 250" RawURLEncoding "''publicKey''" 7 255 0] by simp


end
