(* ===== verification/Wg_Handshake.thy ===== *)
theory Wg_Handshake
  imports Wg_Keys
begin

text \<open>
  The initiator's half of the WireGuard handshake, byte for byte (\<^verbatim>\<open>createInitiation\<close>, \<^verbatim>\<open>consumeResponse\<close> and
  their helpers in \<^verbatim>\<open>libv2ray_wireguard_probe.go\<close>), and the proof that it completes with a responder that follows
  the protocol.

  The cryptographic packages and the \<^verbatim>\<open>device\<close> package are not part of the program: they are the
  record \<open>wg_lib\<close>, an argument of the definitions. What they document (that X25519 commutes, that an AEAD
  opens what it sealed, the message layouts of the WireGuard protocol) is stated by the predicates
  \<open>wg_crypto_ok\<close> and \<open>wg_layout_ok\<close>, hypotheses of the theorems that need it.
\<close>

section \<open>The handshake\<close>

text \<open>
  The fields of the two messages the code reads and writes; the MAC fields of an initiation are zero
  until \<^verbatim>\<open>AddMacs\<close> fills them in.
\<close>

record MessageInitiation =
  mi_Type :: "32 word"
  mi_Sender :: "32 word"
  mi_Ephemeral :: bytes
  mi_Static :: bytes
  mi_Timestamp :: bytes

record MessageResponse =
  mr_Receiver :: "32 word"
  mr_Ephemeral :: bytes
  mr_Empty :: bytes

record wg_lib =
  X25519 :: "bytes \<Rightarrow> bytes \<Rightarrow> bytes res"
  Basepoint :: bytes
  blake2s :: "bytes \<Rightarrow> bytes"
  Seal :: "bytes \<Rightarrow> bytes \<Rightarrow> bytes \<Rightarrow> bytes \<Rightarrow> bytes"
  Open :: "bytes \<Rightarrow> bytes \<Rightarrow> bytes \<Rightarrow> bytes \<Rightarrow> bytes option"
  KDF1 :: "bytes \<Rightarrow> bytes \<Rightarrow> bytes"
  KDF2 :: "bytes \<Rightarrow> bytes \<Rightarrow> bytes \<times> bytes"
  KDF3 :: "bytes \<Rightarrow> bytes \<Rightarrow> bytes \<times> bytes \<times> bytes"
  InitialHash :: bytes
  InitialChainKey :: bytes
  ZeroNonce :: bytes
  MessageInitiationType :: "32 word"
  MessageInitiationSize :: nat
  MessageResponseType :: nat
  MessageResponseSize :: nat
  StaticSize :: nat
  TimestampSize :: nat
  write_initiation :: "MessageInitiation \<Rightarrow> bytes res"
  read_response :: "bytes \<Rightarrow> MessageResponse res"
  AddMacs :: "bytes \<Rightarrow> bytes \<Rightarrow> bytes"

definition mixHash :: "wg_lib \<Rightarrow> bytes \<Rightarrow> bytes \<Rightarrow> bytes" where
  "mixHash L h d = blake2s L (h @ d)"

definition sharedSecret :: "wg_lib \<Rightarrow> bytes \<Rightarrow> bytes \<Rightarrow> bytes res" where
  "sharedSecret L private public =
     (case X25519 L private public of
        Inl err \<Rightarrow> Inl (Wrapf ''invalid key material: %w'' [] err)
      | Inr secret \<Rightarrow> Inr (fit 32 secret))"

definition publicKeyOf :: "wg_lib \<Rightarrow> bytes \<Rightarrow> bytes res" where
  "publicKeyOf L private =
     (case X25519 L private (Basepoint L) of
        Inl err \<Rightarrow> Inl (Wrapf ''invalid private key: %w'' [] err)
      | Inr public \<Rightarrow> Inr (fit NoisePublicKeySize public))"

text \<open>
  \<^verbatim>\<open>chacha20poly1305.New\<close> refuses a key that is not 32 bytes. \<^verbatim>\<open>Seal(field[:0], ...)\<close> appends to a slice of a
  zeroed array: what fits lands in the array, what does not is reallocated elsewhere and the array stays zero.
\<close>

definition new_aead :: "bytes \<Rightarrow> bytes res" where
  "new_aead key = (if length key \<noteq> 32 then Inl (ExtErr ''chacha20poly1305: bad key length'') else Inr key)"

definition seal_into :: "nat \<Rightarrow> bytes \<Rightarrow> bytes" where
  "seal_into n out = (if length out \<le> n then fit n out else replicate n 0)"

record initiatorState =
  is_hash :: bytes
  is_chainKey :: bytes
  is_localEphemeral :: bytes
  is_localIndex :: "32 word"

definition createInitiation :: "wg_lib \<Rightarrow> bytes \<Rightarrow> bytes \<Rightarrow> bytes \<Rightarrow> bytes \<Rightarrow> entropy
    \<Rightarrow> (initiatorState \<times> bytes) res \<times> entropy" where
  "createInitiation L timestamp ourPrivate peerPublic reserved e0 =
     (case randomNoisePrivateKey e0 of (Inl err, e1) \<Rightarrow> (Inl err, e1)
      | (Inr localEphemeral, e1) \<Rightarrow>
     (case publicKeyOf L ourPrivate of Inl err \<Rightarrow> (Inl err, e1)
      | Inr ourPublic \<Rightarrow>
     (case publicKeyOf L localEphemeral of Inl err \<Rightarrow> (Inl err, e1)
      | Inr ephemeral \<Rightarrow>
     let hash1 = mixHash L (InitialHash L) peerPublic;
         ck1 = KDF1 L (InitialChainKey L) ephemeral;
         hash2 = mixHash L hash1 ephemeral
     in (case sharedSecret L localEphemeral peerPublic of Inl err \<Rightarrow> (Inl err, e1)
      | Inr ss \<Rightarrow>
     (case KDF2 L ck1 ss of (ck2, key) \<Rightarrow>
     (case new_aead key of Inl err \<Rightarrow> (Inl err, e1)
      | Inr aead \<Rightarrow>
     let static = seal_into (StaticSize L) (Seal L aead (ZeroNonce L) ourPublic hash2);
         hash3 = mixHash L hash2 static
     in (case sharedSecret L ourPrivate peerPublic of Inl err \<Rightarrow> (Inl err, e1)
      | Inr staticStatic \<Rightarrow>
     (case KDF2 L ck2 staticStatic of (ck3, key2) \<Rightarrow>
     (case new_aead key2 of Inl err \<Rightarrow> (Inl err, e1)
      | Inr aead2 \<Rightarrow>
     let stamp = seal_into (TimestampSize L) (Seal L aead2 (ZeroNonce L) timestamp hash3)
     in (case randomBytes 4 e1 of (Inl err, e2) \<Rightarrow> (Inl err, e2)
      | (Inr indexBytes, e2) \<Rightarrow>
     let sender = le32_value indexBytes;
         hash4 = mixHash L hash3 stamp
     in (case write_initiation L \<lparr>mi_Type = MessageInitiationType L, mi_Sender = sender, mi_Ephemeral = ephemeral,
                mi_Static = static, mi_Timestamp = stamp\<rparr> of Inl err \<Rightarrow> (Inl err, e2)
      | Inr packet \<Rightarrow>
     if length packet \<noteq> MessageInitiationSize L then
       (Inl (Errorf ''built a %d byte initiation, want %d'' [N (int (length packet)), N (int (MessageInitiationSize L))]), e2)
     else let macced = AddMacs L peerPublic packet
     in (Inr (\<lparr>is_hash = hash4, is_chainKey = ck3, is_localEphemeral = localEphemeral, is_localIndex = sender\<rparr>,
              macced[1 := reserved ! 0, 2 := reserved ! 1, 3 := reserved ! 2]), e2))))))))))))"

definition consumeResponse :: "wg_lib \<Rightarrow> initiatorState \<Rightarrow> bytes \<Rightarrow> bytes \<Rightarrow> bytes \<Rightarrow> bool res" where
  "consumeResponse L hs packet ourPrivate psk =
     (case read_response L (packet[1 := 0, 2 := 0, 3 := 0]) of Inl err \<Rightarrow> Inl err
      | Inr msg \<Rightarrow>
     if mr_Receiver msg \<noteq> is_localIndex hs then Inr False
     else let hash1 = mixHash L (is_hash hs) (mr_Ephemeral msg);
              ck1 = KDF1 L (is_chainKey hs) (mr_Ephemeral msg)
     in (case sharedSecret L (is_localEphemeral hs) (mr_Ephemeral msg) of Inl _ \<Rightarrow> Inr False
      | Inr ss \<Rightarrow>
     let ck2 = KDF1 L ck1 ss
     in (case sharedSecret L ourPrivate (mr_Ephemeral msg) of Inl _ \<Rightarrow> Inr False
      | Inr ss2 \<Rightarrow>
     let ck3 = KDF1 L ck2 ss2
     in (case KDF3 L ck3 psk of (ck4, tau, key) \<Rightarrow>
     let hash2 = mixHash L hash1 tau
     in (case new_aead key of Inl err \<Rightarrow> Inl err
      | Inr aead \<Rightarrow>
     (case Open L aead (ZeroNonce L) (mr_Empty msg) hash2 of None \<Rightarrow> Inr False | Some _ \<Rightarrow> Inr True))))))"

section \<open>The handshake completes with a genuine peer\<close>

text \<open>
  What the libraries document. X25519 of two key pairs commutes and gives 32 bytes; BLAKE2s and the KDFs
  give 32-byte values; the AEAD adds 16 bytes and opens what it sealed under the same key, nonce and
  associated data; and the messages have the layout of the WireGuard protocol, with the MACs of an initiation in
  its last 32 bytes.
\<close>

definition wg_crypto_ok :: "wg_lib \<Rightarrow> bool" where
  "wg_crypto_ok L \<longleftrightarrow>
     (\<forall>k p s. X25519 L k p = Inr s \<longrightarrow> length s = 32)
     \<and> (\<forall>a b A B. X25519 L a (Basepoint L) = Inr A \<and> X25519 L b (Basepoint L) = Inr B \<longrightarrow> X25519 L a B = X25519 L b A)
     \<and> (\<forall>k c d. KDF2 L k c = d \<longrightarrow> length (snd d) = 32)
     \<and> (\<forall>k c d. KDF3 L k c = d \<longrightarrow> length (snd (snd d)) = 32)
     \<and> (\<forall>key n p ad. length (Seal L key n p ad) = length p + 16 \<and> Open L key n (Seal L key n p ad) ad = Some p)"

definition wg_layout_ok :: "wg_lib \<Rightarrow> bool" where
  "wg_layout_ok L \<longleftrightarrow>
     MessageInitiationType L = 1 \<and> MessageInitiationSize L = 148 \<and> MessageResponseType L = 2
     \<and> MessageResponseSize L = 92 \<and> StaticSize L = 48 \<and> TimestampSize L = 28
     \<and> (\<forall>m. write_initiation L m = Inr (le32 (mi_Type m) @ le32 (mi_Sender m) @ mi_Ephemeral m @ mi_Static m
              @ mi_Timestamp m @ replicate 32 0))
     \<and> (\<forall>p. length p = 92 \<longrightarrow> read_response L p = Inr \<lparr>mr_Receiver = le32_value (take 4 (drop 8 p)),
              mr_Ephemeral = take 32 (drop 12 p), mr_Empty = take 16 (drop 44 p)\<rparr>)
     \<and> (\<forall>k p. length p = 148 \<longrightarrow> length (AddMacs L k p) = 148 \<and> take 116 (AddMacs L k p) = take 116 p)"

text \<open>
  The responder of the WireGuard protocol, as its specification describes it: it holds the private key
  \<open>s\<close>, reads the initiation, recovers the initiator's static key, and answers with its own ephemeral key
  \<open>e\<close>. It fails when a secret cannot be computed or a sealed field does not open.
\<close>

definition wg_ok :: "bytes res \<Rightarrow> bytes option" where
  "wg_ok r = (case r of Inl _ \<Rightarrow> None | Inr b \<Rightarrow> Some b)"

definition responder_state :: "wg_lib \<Rightarrow> bytes \<Rightarrow> bytes \<Rightarrow> (bytes \<times> bytes \<times> bytes) option" where
  "responder_state L s p =
     (let eph = take 32 (drop 8 p); static = take 48 (drop 40 p); stamp = take 28 (drop 88 p)
      in Option.bind (wg_ok (X25519 L s (Basepoint L))) (\<lambda>ownPublic.
         let h1 = blake2s L (InitialHash L @ ownPublic);
             ck1 = KDF1 L (InitialChainKey L) eph;
             h2 = blake2s L (h1 @ eph)
         in Option.bind (wg_ok (X25519 L s eph)) (\<lambda>ss.
         let (ck2, k1) = KDF2 L ck1 ss
         in Option.bind (Open L k1 (ZeroNonce L) static h2) (\<lambda>initiator.
         let h3 = blake2s L (h2 @ static)
         in Option.bind (wg_ok (X25519 L s initiator)) (\<lambda>sss.
         let (ck3, k2) = KDF2 L ck2 sss
         in Option.bind (Open L k2 (ZeroNonce L) stamp h3) (\<lambda>_.
            Some (blake2s L (h3 @ stamp), ck3, initiator)))))))"

definition responder_seal :: "wg_lib \<Rightarrow> bytes \<Rightarrow> bytes \<Rightarrow> bytes \<Rightarrow> bytes \<Rightarrow> bytes \<Rightarrow> bytes \<Rightarrow> (bytes \<times> bytes) option" where
  "responder_seal L e psk h ck eph initiator =
     Option.bind (wg_ok (X25519 L e (Basepoint L))) (\<lambda>ownEph.
     Option.bind (wg_ok (X25519 L e eph)) (\<lambda>ee.
     Option.bind (wg_ok (X25519 L e initiator)) (\<lambda>se.
       let (ck4, tau, k) = KDF3 L (KDF1 L (KDF1 L (KDF1 L ck ownEph) ee) se) psk
       in Some (ownEph, Seal L k (ZeroNonce L) [] (blake2s L (blake2s L (h @ ownEph) @ tau))))))"

definition wg_responder :: "wg_lib \<Rightarrow> bytes \<Rightarrow> bytes \<Rightarrow> bytes \<Rightarrow> bytes \<Rightarrow> bytes \<Rightarrow> bytes \<Rightarrow> bytes \<Rightarrow> bytes option" where
  "wg_responder L s e psk reserved index macs p =
     Option.bind (responder_state L s p) (\<lambda>(h, ck, initiator).
     Option.bind (responder_seal L e psk h ck (take 32 (drop 8 p)) initiator) (\<lambda>(ownEph, sealed).
       Some ([2] @ reserved @ index @ take 4 (drop 4 p) @ ownEph @ sealed @ macs)))"

text \<open>The equations of a successful run of the initiator, and what it leaves on the wire.\<close>

lemma createInitiation_Inr:
  assumes "createInitiation L ts priv peer rsv e0 = (Inr (hs, p), e2)"
  obtains e1 ourPublic eph ss ck2 k1 sss k2 indexBytes packet static stamp where
    "randomNoisePrivateKey e0 = (Inr (is_localEphemeral hs), e1)"
    "publicKeyOf L priv = Inr ourPublic" "publicKeyOf L (is_localEphemeral hs) = Inr eph"
    "sharedSecret L (is_localEphemeral hs) peer = Inr ss" "sharedSecret L priv peer = Inr sss"
    "KDF2 L (KDF1 L (InitialChainKey L) eph) ss = (ck2, k1)" "KDF2 L ck2 sss = (is_chainKey hs, k2)"
    "length k1 = 32" "length k2 = 32"
    "static = seal_into (StaticSize L) (Seal L k1 (ZeroNonce L) ourPublic (mixHash L (mixHash L (InitialHash L) peer) eph))"
    "stamp = seal_into (TimestampSize L) (Seal L k2 (ZeroNonce L) ts (mixHash L (mixHash L (mixHash L (InitialHash L) peer) eph) static))"
    "randomBytes 4 e1 = (Inr indexBytes, e2)" "is_localIndex hs = le32_value indexBytes"
    "is_hash hs = mixHash L (mixHash L (mixHash L (mixHash L (InitialHash L) peer) eph) static) stamp"
    "write_initiation L \<lparr>mi_Type = MessageInitiationType L, mi_Sender = is_localIndex hs, mi_Ephemeral = eph,
       mi_Static = static, mi_Timestamp = stamp\<rparr> = Inr packet"
    "length packet = MessageInitiationSize L"
    "p = (AddMacs L peer packet)[1 := rsv ! 0, 2 := rsv ! 1, 3 := rsv ! 2]"
  using assms unfolding createInitiation_def Let_def new_aead_def
  by (auto split: prod.splits sum.splits if_splits)

lemma randomBytes_length: "randomBytes n e = (Inr b, e') \<Longrightarrow> length b = n"
  by (auto simp: randomBytes_def split: prod.splits option.splits dest: rand_read_length)

lemma length_seal_into [simp]: "length (seal_into n out) = n"
  by (simp add: seal_into_def)

lemma seal_into_fit [simp]: "length out = n \<Longrightarrow> seal_into n out = out"
  by (simp add: seal_into_def)

lemma publicKeyOf_length: "publicKeyOf L k = Inr b \<Longrightarrow> length b = 32"
  by (auto simp: publicKeyOf_def NoisePublicKeySize_def split: sum.splits)

lemma put_reserved:
  assumes "length rsv = 3" and "4 \<le> length q" and "q ! 0 = t"
  shows "q[1 := rsv ! 0, 2 := rsv ! 1, 3 := rsv ! 2] = [t] @ rsv @ drop 4 q"
proof -
  obtain a b c where r: "rsv = [a, b, c]" using assms(1) by (auto simp: numeral_eq_Suc length_Suc_conv)
  obtain x y z w q' where q: "q = x # y # z # w # q'" using assms(2) by (auto simp: numeral_eq_Suc Suc_le_length_iff)
  show ?thesis using assms(3) by (simp add: r q numeral_2_eq_2 numeral_3_eq_3)
qed

lemma macced_bytes:
  assumes "wg_layout_ok L" and "length rsv = 3" and "length eph = 32" and "length static = 48" and "length stamp = 28"
    and "write_initiation L \<lparr>mi_Type = MessageInitiationType L, mi_Sender = idx, mi_Ephemeral = eph,
       mi_Static = static, mi_Timestamp = stamp\<rparr> = Inr packet"
  shows "packet = [1, 0, 0, 0] @ le32 idx @ eph @ static @ stamp @ replicate 32 0"
    "(AddMacs L peer packet)[1 := rsv ! 0, 2 := rsv ! 1, 3 := rsv ! 2]
       = [1] @ rsv @ le32 idx @ eph @ static @ stamp @ drop 116 (AddMacs L peer packet)"
    "length (drop 116 (AddMacs L peer packet)) = 32"
proof -
  have one: "le32 1 = [1, 0, 0, 0]" by (simp add: le32_def)
  show pk: "packet = [1, 0, 0, 0] @ le32 idx @ eph @ static @ stamp @ replicate 32 0"
    using assms(1,6) one by (simp add: wg_layout_ok_def)
  let ?q = "AddMacs L peer packet"
  from pk have "length packet = 148" using assms(3-5) by simp
  then have m: "length ?q = 148" "take 116 ?q = take 116 packet"
    using assms(1) by (auto simp: wg_layout_ok_def)
  have t: "take 116 packet = [1, 0, 0, 0] @ le32 idx @ eph @ static @ stamp" using assms(3-5) by (simp add: pk)
  have q: "?q = [1, 0, 0, 0] @ le32 idx @ eph @ static @ stamp @ drop 116 ?q"
    using append_take_drop_id[of 116 ?q] unfolding m(2) t by simp
  have "?q ! 0 = 1" by (subst q) simp
  moreover have "drop 4 ?q = le32 idx @ eph @ static @ stamp @ drop 116 ?q" by (subst q) simp
  ultimately show "?q[1 := rsv ! 0, 2 := rsv ! 1, 3 := rsv ! 2] = [1] @ rsv @ le32 idx @ eph @ static @ stamp @ drop 116 ?q"
    using put_reserved[OF assms(2), of ?q 1] m(1) by simp
  show "length (drop 116 ?q) = 32" using m(1) by simp
qed

text \<open>
  C25: the datagram of every initiation has the layout of the protocol: 148 bytes, type 1, the reserved bytes in the
  three bytes after it, the random index in little endian, the fresh ephemeral public key, and MACs computed as if
  the reserved bytes were zero.
\<close>

theorem initiation_layout:
  assumes "wg_layout_ok L" and "length rsv = 3" and "createInitiation L ts priv peer rsv e0 = (Inr (hs, p), e2)"
  shows "length p = 148 \<and> p ! 0 = 1 \<and> take 3 (drop 1 p) = rsv \<and> le32_value (take 4 (drop 4 p)) = is_localIndex hs
    \<and> publicKeyOf L (is_localEphemeral hs) = Inr (take 32 (drop 8 p))
    \<and> drop 116 p = drop 116 (AddMacs L peer ([1, 0, 0, 0] @ drop 4 (take 116 p) @ replicate 32 0))"
proof -
  from createInitiation_Inr[OF assms(3)] obtain eph static stamp packet n1 n2
    where a: "publicKeyOf L (is_localEphemeral hs) = Inr eph"
      and st: "static = seal_into (StaticSize L) n1" "stamp = seal_into (TimestampSize L) n2"
      and w: "write_initiation L \<lparr>mi_Type = MessageInitiationType L, mi_Sender = is_localIndex hs, mi_Ephemeral = eph,
       mi_Static = static, mi_Timestamp = stamp\<rparr> = Inr packet"
      and p: "p = (AddMacs L peer packet)[1 := rsv ! 0, 2 := rsv ! 1, 3 := rsv ! 2]" by metis
  have l: "length eph = 32" "length static = 48" "length stamp = 28"
    using a st assms(1) by (auto simp: publicKeyOf_length wg_layout_ok_def)
  note M = macced_bytes(1)[OF assms(1,2) l w] macced_bytes(2,3)[OF assms(1,2) l w, of peer]
  have p': "p = [1] @ rsv @ le32 (is_localIndex hs) @ eph @ static @ stamp @ drop 116 (AddMacs L peer packet)"
    using p M(2) by simp
  have t: "[1, 0, 0, 0] @ drop 4 (take 116 p) @ replicate 32 0 = packet" using M(1) l assms(2) by (simp add: p')
  show ?thesis unfolding t using M(3) l assms(2) a by (simp add: p')
qed

lemma wg_secret:
  assumes "wg_crypto_ok L" and "sharedSecret L k q = Inr ss"
  shows "X25519 L k q = Inr ss"
proof -
  obtain s0 where s: "X25519 L k q = Inr s0" "ss = fit 32 s0" using assms(2) by (auto simp: sharedSecret_def split: sum.splits)
  with assms(1) have "length s0 = 32" unfolding wg_crypto_ok_def by blast
  with s show ?thesis by simp
qed

lemma wg_public:
  assumes "wg_crypto_ok L" and "publicKeyOf L k = Inr q"
  shows "X25519 L k (Basepoint L) = Inr q"
proof -
  obtain s0 where s: "X25519 L k (Basepoint L) = Inr s0" "q = fit 32 s0"
    using assms(2) by (auto simp: publicKeyOf_def NoisePublicKeySize_def split: sum.splits)
  with assms(1) have "length s0 = 32" unfolding wg_crypto_ok_def by blast
  with s show ?thesis by simp
qed

lemma wg_dh:
  assumes "wg_crypto_ok L" and "publicKeyOf L k = Inr q" and "X25519 L s (Basepoint L) = Inr peer" and "sharedSecret L k peer = Inr ss"
  shows "X25519 L s q = Inr ss"
proof -
  have "X25519 L k peer = X25519 L s q" using assms(1,3) wg_public[OF assms(1,2)] unfolding wg_crypto_ok_def by blast
  with wg_secret[OF assms(1,4)] show ?thesis by simp
qed

lemma wg_seal:
  assumes "wg_crypto_ok L"
  shows "length (Seal L key n p ad) = length p + 16" "Open L key n (Seal L key n p ad) ad = Some p"
  using assms unfolding wg_crypto_ok_def by blast+

lemma responder_agrees:
  assumes "wg_layout_ok L" and "wg_crypto_ok L" and "length rsv = 3" and "length ts = 12"
    and "createInitiation L ts priv peer rsv e0 = (Inr (hs, p), e2)"
    and "X25519 L s (Basepoint L) = Inr peer" and "publicKeyOf L priv = Inr ourPublic"
  shows "responder_state L s p = Some (is_hash hs, is_chainKey hs, ourPublic)"
proof -
  from createInitiation_Inr[OF assms(5)] assms(7) obtain eph ss ck2 k1 sss k2 packet static stamp
    where a: "publicKeyOf L (is_localEphemeral hs) = Inr eph"
      "sharedSecret L (is_localEphemeral hs) peer = Inr ss" "sharedSecret L priv peer = Inr sss"
      and k: "KDF2 L (KDF1 L (InitialChainKey L) eph) ss = (ck2, k1)" "KDF2 L ck2 sss = (is_chainKey hs, k2)"
      and st: "static = seal_into (StaticSize L) (Seal L k1 (ZeroNonce L) ourPublic (mixHash L (mixHash L (InitialHash L) peer) eph))"
        "stamp = seal_into (TimestampSize L) (Seal L k2 (ZeroNonce L) ts (mixHash L (mixHash L (mixHash L (InitialHash L) peer) eph) static))"
      and h: "is_hash hs = mixHash L (mixHash L (mixHash L (mixHash L (InitialHash L) peer) eph) static) stamp"
      and w: "write_initiation L \<lparr>mi_Type = MessageInitiationType L, mi_Sender = is_localIndex hs, mi_Ephemeral = eph,
       mi_Static = static, mi_Timestamp = stamp\<rparr> = Inr packet"
      and p: "p = (AddMacs L peer packet)[1 := rsv ! 0, 2 := rsv ! 1, 3 := rsv ! 2]"
    by (metis sum.inject(2))
  have sz: "StaticSize L = 48" "TimestampSize L = 28" using assms(1) by (auto simp: wg_layout_ok_def)
  have l: "length eph = 32" "length static = 48" "length stamp = 28" using a(1) st sz by (auto simp: publicKeyOf_length)
  have p': "p = [1] @ rsv @ le32 (is_localIndex hs) @ eph @ static @ stamp @ drop 116 (AddMacs L peer packet)"
    using p macced_bytes(2)[OF assms(1,3) l w, of peer] by simp
  have f: "take 32 (drop 8 p) = eph" "take 48 (drop 40 p) = static" "take 28 (drop 88 p) = stamp"
    using l assms(3) by (simp_all add: p')
  have o: "static = Seal L k1 (ZeroNonce L) ourPublic (mixHash L (mixHash L (InitialHash L) peer) eph)"
    "stamp = Seal L k2 (ZeroNonce L) ts (mixHash L (mixHash L (mixHash L (InitialHash L) peer) eph) static)"
    using st sz wg_seal(1)[OF assms(2)] publicKeyOf_length[OF assms(7)] assms(4) by simp_all
  have d: "X25519 L s eph = Inr ss" "X25519 L s ourPublic = Inr sss"
    using wg_dh[OF assms(2) a(1) assms(6) a(2)] wg_dh[OF assms(2,7,6) a(3)] by auto
  have op: "Open L k1 (ZeroNonce L) static (blake2s L (blake2s L (InitialHash L @ peer) @ eph)) = Some ourPublic"
    "Open L k2 (ZeroNonce L) stamp (blake2s L (blake2s L (blake2s L (InitialHash L @ peer) @ eph) @ static)) = Some ts"
    using o wg_seal(2)[OF assms(2)] by (simp_all add: mixHash_def)
  show ?thesis unfolding responder_state_def Let_def f
    using assms(6) d k op h by (simp add: wg_ok_def mixHash_def)
qed


text \<open>The response of a peer that knows the state the initiation left with it opens.\<close>

lemma consume_sealed:
  assumes "wg_layout_ok L" and "wg_crypto_ok L" and "publicKeyOf L priv = Inr ourPublic"
    and "publicKeyOf L (is_localEphemeral hs) = Inr eph"
    and "responder_seal L e psk (is_hash hs) (is_chainKey hs) eph ourPublic = Some (ownEph, sealed)"
    and "length rsv = 3" and "length index = 4" and "length macs = 32"
  shows "consumeResponse L hs ([2] @ rsv @ index @ le32 (is_localIndex hs) @ ownEph @ sealed @ macs) priv psk = Inr True
    \<and> length ownEph = 32 \<and> length sealed = 16"
proof -
  obtain ee se ck tau k where d: "X25519 L e (Basepoint L) = Inr ownEph" "X25519 L e eph = Inr ee" "X25519 L e ourPublic = Inr se"
    and K: "KDF3 L (KDF1 L (KDF1 L (KDF1 L (is_chainKey hs) ownEph) ee) se) psk = (ck, tau, k)"
    and em: "sealed = Seal L k (ZeroNonce L) [] (blake2s L (blake2s L (is_hash hs @ ownEph) @ tau))"
    using assms(5) by (auto simp: responder_seal_def wg_ok_def bind_eq_Some_conv split: sum.splits prod.splits)
  have len: "length ownEph = 32" "length ee = 32" "length se = 32" using d assms(2) unfolding wg_crypto_ok_def by blast+
  have "snd (snd (ck, tau, k)) = k" by simp
  with K assms(2) have lk: "length k = 32" unfolding wg_crypto_ok_def by metis
  have le: "length sealed = 16" using em wg_seal(1)[OF assms(2)] by simp
  let ?p = "[2] @ rsv @ index @ le32 (is_localIndex hs) @ ownEph @ sealed @ macs"
  obtain a b c where r: "rsv = [a, b, c]" using assms(6) by (auto simp: numeral_eq_Suc length_Suc_conv)
  have cl: "?p[1 := 0, 2 := 0, 3 := 0] = [2, 0, 0, 0] @ index @ le32 (is_localIndex hs) @ ownEph @ sealed @ macs"
    by (simp add: r numeral_2_eq_2 numeral_3_eq_3)
  let ?q = "[2, 0, 0, 0] @ index @ le32 (is_localIndex hs) @ ownEph @ sealed @ macs"
  have f: "take 4 (drop 8 ?q) = le32 (is_localIndex hs)" "take 32 (drop 12 ?q) = ownEph" "take 16 (drop 44 ?q) = sealed" "length ?q = 92"
    using assms(7,8) len le by simp_all
  have rd: "read_response L ?q = Inr \<lparr>mr_Receiver = is_localIndex hs, mr_Ephemeral = ownEph, mr_Empty = sealed\<rparr>"
    using assms(1) f unfolding wg_layout_ok_def by (metis le32_value_le32)
  have c: "X25519 L (is_localEphemeral hs) ownEph = Inr ee" "X25519 L priv ownEph = Inr se"
    using assms(2) d wg_public[OF assms(2,4)] wg_public[OF assms(2,3)] unfolding wg_crypto_ok_def by metis+
  then have ss: "sharedSecret L (is_localEphemeral hs) ownEph = Inr ee" "sharedSecret L priv ownEph = Inr se"
    using len by (simp_all add: sharedSecret_def)
  have op: "Open L k (ZeroNonce L) sealed (mixHash L (mixHash L (is_hash hs) ownEph) tau) = Some []"
    using em wg_seal(2)[OF assms(2)] by (simp add: mixHash_def)
  show ?thesis unfolding consumeResponse_def cl rd using ss K lk op len le by (simp add: new_aead_def)
qed

text \<open>
  A genuine peer is recognised. Whatever the keys, the reserved bytes and the pre-shared key are, the
  responder of the WireGuard protocol that holds the private key of the probed public key and answers
  the initiation the probe sent produces a response the probe authenticates, of the size and type it waits for.
\<close>

lemma genuine_peer_accepted:
  assumes "wg_layout_ok L" and "wg_crypto_ok L" and "length rsv = 3" and "length ts = 12"
    and "createInitiation L ts priv peer rsv e0 = (Inr (hs, p), e2)" and "X25519 L s (Basepoint L) = Inr peer"
    and "wg_responder L s e psk rsv' index macs p = Some resp" and "length rsv' = 3" and "length index = 4" and "length macs = 32"
  shows "consumeResponse L hs resp priv psk = Inr True \<and> length resp = MessageResponseSize L \<and> unat (resp ! 0) = MessageResponseType L"
proof -
  from createInitiation_Inr[OF assms(5)] obtain ourPublic eph packet n1 n2 static stamp
    where a: "publicKeyOf L priv = Inr ourPublic" "publicKeyOf L (is_localEphemeral hs) = Inr eph"
      and st: "static = seal_into (StaticSize L) n1" "stamp = seal_into (TimestampSize L) n2"
      and w: "write_initiation L \<lparr>mi_Type = MessageInitiationType L, mi_Sender = is_localIndex hs, mi_Ephemeral = eph,
       mi_Static = static, mi_Timestamp = stamp\<rparr> = Inr packet"
      and p: "p = (AddMacs L peer packet)[1 := rsv ! 0, 2 := rsv ! 1, 3 := rsv ! 2]" by metis
  have l: "length eph = 32" "length static = 48" "length stamp = 28"
    using a st assms(1) by (auto simp: publicKeyOf_length wg_layout_ok_def)
  have "p = [1] @ rsv @ le32 (is_localIndex hs) @ eph @ static @ stamp @ drop 116 (AddMacs L peer packet)"
    using p macced_bytes(2)[OF assms(1,3) l w, of peer] by simp
  then have f: "take 4 (drop 4 p) = le32 (is_localIndex hs)" "take 32 (drop 8 p) = eph" using l assms(3) by simp_all
  obtain ownEph sealed where s: "responder_seal L e psk (is_hash hs) (is_chainKey hs) eph ourPublic = Some (ownEph, sealed)"
    and r: "resp = [2] @ rsv' @ index @ le32 (is_localIndex hs) @ ownEph @ sealed @ macs"
    using assms(7) responder_agrees[OF assms(1-6) a(1)] f by (auto simp: wg_responder_def bind_eq_Some_conv)
  note C = consume_sealed[OF assms(1,2) a s assms(8-10)]
  have sz: "MessageResponseSize L = 92" "MessageResponseType L = 2" using assms(1) by (simp_all add: wg_layout_ok_def)
  show ?thesis using C assms(8-10) unfolding sz r by auto
qed


text \<open>A small instance of the libraries, on which the hypotheses hold.\<close>

definition demo_lib :: wg_lib where
  "demo_lib = \<lparr>X25519 = (\<lambda>k p. Inr (map2 (*) (fit 32 k) (fit 32 p))), Basepoint = replicate 32 1, blake2s = fit 32,
     Seal = (\<lambda>key n p ad. p @ fit 16 key),
     Open = (\<lambda>key n c ad. if drop (length c - 16) c = fit 16 key then Some (take (length c - 16) c) else None),
     KDF1 = (\<lambda>k c. fit 32 (c @ k)), KDF2 = (\<lambda>k c. (fit 32 c, fit 32 k)), KDF3 = (\<lambda>k c. (fit 32 k, fit 32 c, fit 32 k)),
     InitialHash = replicate 32 1, InitialChainKey = replicate 32 2, ZeroNonce = replicate 12 0,
     MessageInitiationType = 1, MessageInitiationSize = 148, MessageResponseType = 2, MessageResponseSize = 92,
     StaticSize = 48, TimestampSize = 28,
     write_initiation = (\<lambda>m. Inr (le32 (mi_Type m) @ le32 (mi_Sender m) @ mi_Ephemeral m @ mi_Static m @ mi_Timestamp m @ replicate 32 0)),
     read_response = (\<lambda>p. Inr \<lparr>mr_Receiver = le32_value (take 4 (drop 8 p)), mr_Ephemeral = take 32 (drop 12 p),
        mr_Empty = take 16 (drop 44 p)\<rparr>),
     AddMacs = (\<lambda>k p. take 116 p @ fit 32 k)\<rparr>"

lemma demo_lib_layout: "wg_layout_ok demo_lib"
  by (simp add: wg_layout_ok_def demo_lib_def)

lemma map2_times_one: "map2 (*) xs (replicate (length xs) 1) = (xs :: byte list)"
  by (induction xs) auto

lemma map2_times_commute: "map2 (*) xs ys = map2 (*) ys (xs :: byte list)"
  by (induction xs ys rule: list_induct2') (auto simp: mult.commute)

lemma demo_lib_pub: "X25519 demo_lib k (Basepoint demo_lib) = Inr (fit 32 k)"
  using map2_times_one[of "fit 32 k"] by (simp add: demo_lib_def)

lemma demo_lib_dh: "X25519 demo_lib k (fit 32 s) = Inr (map2 (*) (fit 32 k) (fit 32 s))"
  by (simp add: demo_lib_def)

lemma demo_lib_crypto: "wg_crypto_ok demo_lib"
proof -
  have "X25519 demo_lib k p = Inr s \<Longrightarrow> length s = 32" for k p s by (auto simp: demo_lib_def)
  moreover have "X25519 demo_lib a B = X25519 demo_lib b A"
    if "X25519 demo_lib a (Basepoint demo_lib) = Inr A" "X25519 demo_lib b (Basepoint demo_lib) = Inr B" for a b A B
    using that demo_lib_dh map2_times_commute unfolding demo_lib_pub by auto
  moreover have "length (Seal demo_lib key n p ad) = length p + 16 \<and> Open demo_lib key n (Seal demo_lib key n p ad) ad = Some p" for key n p ad
    by (simp add: demo_lib_def)
  ultimately show ?thesis unfolding wg_crypto_ok_def by (auto simp: demo_lib_def)
qed

lemma demo_lib_init:
  assumes "length ts = 12" and "length rsv = 3"
  shows "\<exists>hs p e2. createInitiation demo_lib ts priv peer rsv (replicate 40 5) = (Inr (hs, p), e2)"
  using assms
  by (simp add: createInitiation_def randomNoisePrivateKey_def randomBytes_def rand_read_def publicKeyOf_def sharedSecret_def
      NoisePublicKeySize_def new_aead_def demo_lib_def Let_def)

theorem initiation_layout_witness:
  "\<exists>hs p e2. createInitiation demo_lib (replicate 12 8) (replicate 32 3) (replicate 32 9) [7, 8, 9] (replicate 40 5) = (Inr (hs, p), e2)
     \<and> length p = 148 \<and> p ! 0 = 1 \<and> take 3 (drop 1 p) = [7, 8, 9]"
proof -
  obtain hs p e2 where c: "createInitiation demo_lib (replicate 12 8) (replicate 32 3) (replicate 32 9) [7, 8, 9] (replicate 40 5) = (Inr (hs, p), e2)"
    using demo_lib_init[of "replicate 12 8" "[7, 8, 9]" "replicate 32 3" "replicate 32 9"] by auto
  with initiation_layout[OF demo_lib_layout _ c] show ?thesis by auto
qed

end
