(* ===== verification/Wireguard.thy ===== *)
theory Wireguard
  imports Wg_Handshake
begin

text \<open>
  The probe that asks a UDP endpoint to prove it holds a WireGuard private key: one attempt with its
  receive loop (\<^verbatim>\<open>probeWireGuardOnce\<close>), and \<^verbatim>\<open>ProbeWireGuard\<close> with the loop over the attempts, in
  \<^verbatim>\<open>libv2ray_wireguard_probe.go\<close>. The network, the clock and the resolver are the record \<open>wg_env\<close>.
\<close>

section \<open>One attempt\<close>

text \<open>
  What the reads of one attempt deliver, in order. The list is finite, and its end is the read that the
  deadline cuts off: every turn of the loop sets the same deadline again, so only finitely many datagrams
  can come before it.
\<close>

datatype inbound =
    Datagram ip nat bytes
  | ReadFails go_error
  | SetDeadlineFails go_error

record udp_addr =
  ua_IP :: ip
  ua_Port :: nat

definition is_timeout :: "go_error \<Rightarrow> bool" where
  "is_timeout err = (err_root err \<in> {IOTimeout, CtxDeadlineExceeded})"

definition bufSize :: nat where "bufSize = 1500"

definition note_reply :: "bytes \<Rightarrow> WireGuardResult \<Rightarrow> WireGuardResult" where
  "note_reply d r =
     (let r1 = r\<lparr>wr_Responded := True, wr_ReplySize := length d\<rparr>
      in if length d \<ge> 1 then r1\<lparr>wr_ReplyType := unat (d ! 0)\<rparr> else r1)"

fun recv_loop :: "wg_lib \<Rightarrow> udp_addr \<Rightarrow> initiatorState \<Rightarrow> bytes \<Rightarrow> bytes \<Rightarrow> inbound list \<Rightarrow> WireGuardResult
    \<Rightarrow> go_error option \<times> WireGuardResult" where
  "recv_loop L dst hs priv psk [] r = (None, r)"
| "recv_loop L dst hs priv psk (SetDeadlineFails err # ins) r = (Some err, r)"
| "recv_loop L dst hs priv psk (ReadFails err # ins) r = (if is_timeout err then (None, r) else (Some err, r))"
| "recv_loop L dst hs priv psk (Datagram fip fport raw # ins) r =
     (let d = take bufSize raw in
      if \<not> ip_equal fip (ua_IP dst) \<or> fport \<noteq> ua_Port dst then recv_loop L dst hs priv psk ins r
      else let r1 = note_reply d r in
      if length d \<noteq> MessageResponseSize L \<or> wr_ReplyType r1 \<noteq> MessageResponseType L
      then recv_loop L dst hs priv psk ins r1
      else case consumeResponse L hs d priv psk of
          Inl err \<Rightarrow> (Some err, r1)
        | Inr ok \<Rightarrow> if ok then (None, r1\<lparr>wr_Alive := True\<rparr>) else recv_loop L dst hs priv psk ins r1)"

datatype wg_event = WgListen | WgNoise bytes | WgSent bytes udp_addr | WgClose

definition show_udp :: "udp_addr \<Rightarrow> string" where
  "show_udp a = join_host_port (show_ip (ua_IP a)) (show_nat (ua_Port a))"

record wg_env =
  wg_lib_of :: wg_lib
  wg_resolve :: "string \<Rightarrow> udp_addr res"
  wg_listen :: "go_error option"
  wg_noise_write :: "nat \<Rightarrow> go_error option"
  wg_noise_done :: "nat \<Rightarrow> go_error option"
  wg_stamp :: "nat \<Rightarrow> bytes"
  wg_write :: "nat \<Rightarrow> go_error option"
  wg_inbox :: "nat \<Rightarrow> duration \<Rightarrow> inbound list"
  wg_rtt :: "nat \<Rightarrow> int"
  wg_ctx_done :: "nat \<Rightarrow> bool"

definition probeWireGuardOnce :: "wg_env \<Rightarrow> nat \<Rightarrow> udp_addr \<Rightarrow> bytes \<Rightarrow> bytes \<Rightarrow> bytes \<Rightarrow> bytes \<Rightarrow> duration
    \<Rightarrow> WireGuardResult \<Rightarrow> entropy \<Rightarrow> go_error option \<times> WireGuardResult \<times> wg_event list \<times> entropy" where
  "probeWireGuardOnce env i dst ourPrivate peerPublic psk reserved wait r e =
     (case createInitiation (wg_lib_of env) (wg_stamp env i) ourPrivate peerPublic reserved e of
        (Inl err, e1) \<Rightarrow> (Some err, r, [], e1)
      | (Inr (hs, packet), e1) \<Rightarrow>
          (case wg_write env i of
             Some err \<Rightarrow> (Some (Wrapf ''cannot send the handshake initiation to %s: %w'' [S (show_udp dst)] err), r, [], e1)
           | None \<Rightarrow>
               (case recv_loop (wg_lib_of env) dst hs ourPrivate psk (wg_inbox env i wait) r of
                  (err, r1) \<Rightarrow> (err, r1, [WgSent packet dst], e1))))"

section \<open>ProbeWireGuard\<close>

text \<open>The loop over the attempts: \<open>i\<close> is the loop variable and \<open>k\<close> the attempts left.\<close>

fun wg_loop :: "wg_env \<Rightarrow> udp_addr \<Rightarrow> bytes \<Rightarrow> bytes \<Rightarrow> bytes \<Rightarrow> bytes \<Rightarrow> duration \<Rightarrow> nat \<Rightarrow> nat
    \<Rightarrow> WireGuardResult \<Rightarrow> entropy \<Rightarrow> WireGuardResult \<times> wg_event list \<times> entropy" where
  "wg_loop env dst priv peer psk rsv per i 0 r e = (r, [], e)"
| "wg_loop env dst priv peer psk rsv per i (Suc k) r e =
     (case probeWireGuardOnce env i dst priv peer psk rsv per (r\<lparr>wr_Attempts := i + 1\<rparr>) e of
        (err, r1, evs, e1) \<Rightarrow>
          let r2 = r1\<lparr>wr_RttMs := wg_rtt env i\<rparr> in
          if wr_Alive r2 then (r2\<lparr>wr_RespError := None\<rparr>, evs, e1)
          else let r3 = (case err of None \<Rightarrow> r2 | Some x \<Rightarrow> r2\<lparr>wr_RespError := Some x\<rparr>) in
          if wg_ctx_done env i then (r3, evs, e1)
          else (case wg_loop env dst priv peer psk rsv per (Suc i) k r3 e1 of
                  (r4, evs', e2) \<Rightarrow> (r4, evs @ evs', e2)))"

definition private_key :: "wireGuardProbeOptions \<Rightarrow> entropy \<Rightarrow> bytes res \<times> entropy" where
  "private_key o' e =
     (if wo_PrivateKey o' = [] then randomNoisePrivateKey e
      else case parseNoiseKey (wo_PrivateKey o') ''privateKey'' of
          Inl err \<Rightarrow> (Inl err, e) | Inr key \<Rightarrow> (Inr (clampPrivateKey key), e))"

definition preshared_key :: "wireGuardProbeOptions \<Rightarrow> bytes res" where
  "preshared_key o' =
     (if wo_PresharedKey o' = [] then Inr (replicate 32 0) else parseNoiseKey (wo_PresharedKey o') ''presharedKey'')"

definition wg_target :: "wireGuardProbeOptions \<Rightarrow> string res" where
  "wg_target o' =
     (if wo_Address o' = [] then Inl (Errorf ''address is required'' [])
      else case split_host_port (wo_Address o') of
          Inl err \<Rightarrow> Inl (Errorf ''address %q is not host:port: %v'' [S (wo_Address o')])
        | Inr (host, port) \<Rightarrow>
            if wo_IP o' \<noteq> [] then
              (if \<not> valid_ip (wo_IP o') then Inl (Errorf ''ip %q is not a valid IP address'' [S (wo_IP o')])
               else Inr (join_host_port (wo_IP o') port))
            else Inr (join_host_port host port))"

record wg_plan =
  pl_dst :: udp_addr
  pl_private :: bytes
  pl_peer :: bytes
  pl_psk :: bytes
  pl_reserved :: bytes
  pl_noise :: "noiseConfig option"

text \<open>Everything before the socket is used: reading the options in the order of the code and opening the socket.\<close>

definition wg_prepare :: "wg_env \<Rightarrow> wireGuardProbeOptions \<Rightarrow> entropy \<Rightarrow> wg_plan res \<times> entropy" where
  "wg_prepare env o' e0 =
     (case wg_target o' of Inl err \<Rightarrow> (Inl err, e0)
      | Inr addr \<Rightarrow>
     (case parseNoiseKey (wo_PublicKey o') ''publicKey'' of Inl err \<Rightarrow> (Inl err, e0)
      | Inr peerPublic \<Rightarrow>
     (case private_key o' e0 of (Inl err, e1) \<Rightarrow> (Inl err, e1)
      | (Inr ourPrivate, e1) \<Rightarrow>
     (case preshared_key o' of Inl err \<Rightarrow> (Inl err, e1)
      | Inr psk \<Rightarrow>
     (case parseReserved (wo_Reserved o') of Inl err \<Rightarrow> (Inl err, e1)
      | Inr reserved \<Rightarrow>
     (case wg_noise o' of Inl err \<Rightarrow> (Inl err, e1)
      | Inr noise \<Rightarrow>
     (case wg_resolve env addr of Inl err \<Rightarrow> (Inl (Errorf ''cannot resolve %q: %v'' [S (wo_Address o')]), e1)
      | Inr dst \<Rightarrow>
     (case wg_listen env of Some err \<Rightarrow> (Inl (Wrapf ''cannot open udp socket: %w'' [] err), e1)
      | None \<Rightarrow> (Inr \<lparr>pl_dst = dst, pl_private = ourPrivate, pl_peer = peerPublic, pl_psk = psk, pl_reserved = reserved,
           pl_noise = noise\<rparr>, e1)))))))))"

definition wg_send_noise :: "wg_env \<Rightarrow> wg_plan \<Rightarrow> entropy \<Rightarrow> (bytes \<times> int) list \<times> unit res \<times> entropy" where
  "wg_send_noise env pl e =
     (case pl_noise pl of None \<Rightarrow> ([], Inr (), e)
      | Some n \<Rightarrow> send n (show_udp (pl_dst pl)) (wg_noise_write env) (wg_noise_done env) e)"

definition no_answer :: "WireGuardResult \<Rightarrow> WireGuardResult" where
  "no_answer r = (if wr_RespError r = None \<and> \<not> wr_Alive r then r\<lparr>wr_RespError := Some (Errorf ''no handshake response'' [])\<rparr> else r)"

definition ProbeWireGuard :: "wg_env \<Rightarrow> wireGuardProbeOptions res \<Rightarrow> entropy
    \<Rightarrow> WireGuardResult \<times> wg_event list \<times> entropy" where
  "ProbeWireGuard env decoded e0 =
     (case decoded of Inl err \<Rightarrow> (wg_failed (Wrapf ''invalid options json: %w'' [] err), [], e0)
      | Inr o' \<Rightarrow>
     (case wg_prepare env o' e0 of (Inl err, e1) \<Rightarrow> (wg_failed err, [], e1)
      | (Inr pl, e1) \<Rightarrow>
     (case wg_send_noise env pl e1 of
        (ps, Inl err, e2) \<Rightarrow> (wg_failed err, WgListen # map (WgNoise \<circ> fst) ps @ [WgClose], e2)
      | (ps, Inr _, e2) \<Rightarrow>
     (case wg_loop env (pl_dst pl) (pl_private pl) (pl_peer pl) (pl_psk pl) (pl_reserved pl)
             (go_div (wg_timeout o') (wg_attempts o')) 0 (nat (wg_attempts o')) no_result e2 of
        (r, evs, e3) \<Rightarrow> (no_answer r, WgListen # map (WgNoise \<circ> fst) ps @ evs @ [WgClose], e3)))))"

section \<open>The verdict of an attempt\<close>

fun is_datagram :: "inbound \<Rightarrow> bool" where
  "is_datagram (Datagram _ _ _) = True"
| "is_datagram _ = False"

fun accepts :: "wg_lib \<Rightarrow> udp_addr \<Rightarrow> initiatorState \<Rightarrow> bytes \<Rightarrow> bytes \<Rightarrow> inbound \<Rightarrow> bool" where
  "accepts L dst hs priv psk (Datagram fip fport raw) =
     (let d = take bufSize raw in
      ip_equal fip (ua_IP dst) \<and> fport = ua_Port dst \<and> length d = MessageResponseSize L
      \<and> unat (d ! 0) = MessageResponseType L \<and> consumeResponse L hs d priv psk = Inr True)"
| "accepts L dst hs priv psk _ = False"

lemma note_reply_fields [simp]:
  "wr_Alive (note_reply d r) = wr_Alive r" "wr_Responded (note_reply d r)" "wr_Attempts (note_reply d r) = wr_Attempts r"
  "wr_RespError (note_reply d r) = wr_RespError r" "1 \<le> length d \<Longrightarrow> wr_ReplyType (note_reply d r) = unat (d ! 0)"
  by (auto simp: note_reply_def Let_def)

lemma consumeResponse_total:
  assumes "wg_layout_ok L" and "wg_crypto_ok L" and "length p = MessageResponseSize L"
  shows "\<exists>b. consumeResponse L hs p priv psk = Inr b"
proof -
  have "length (p[1 := 0, 2 := 0, 3 := 0]) = 92" using assms(1,3) by (simp add: wg_layout_ok_def)
  then obtain m where m: "read_response L (p[1 := 0, 2 := 0, 3 := 0]) = Inr m" using assms(1) unfolding wg_layout_ok_def by blast
  have "length (snd (snd (KDF3 L x y))) = 32" for x y using assms(2) unfolding wg_crypto_ok_def by blast
  then have "KDF3 L x y = (a, b, c) \<Longrightarrow> length c = 32" for x y a b c by (metis snd_conv)
  then show ?thesis unfolding consumeResponse_def m Let_def new_aead_def
    by (auto split: sum.splits prod.splits option.splits)
qed

lemma recv_loop_alive:
  assumes "wg_layout_ok L" and "wg_crypto_ok L"
  shows "wr_Alive (snd (recv_loop L dst hs priv psk ins r))
    \<longleftrightarrow> wr_Alive r \<or> (\<exists>d \<in> set (takeWhile is_datagram ins). accepts L dst hs priv psk d)"
proof (induction ins arbitrary: r)
  case (Cons i ins)
  show ?case
  proof (cases i)
    case (Datagram fip fport raw)
    let ?d = "take bufSize raw"
    have one: "1 \<le> length ?d" if "length ?d = MessageResponseSize L" using that assms(1) by (simp add: wg_layout_ok_def)
    show ?thesis
    proof (cases "ip_equal fip (ua_IP dst) \<and> fport = ua_Port dst \<and> length ?d = MessageResponseSize L \<and> unat (?d ! 0) = MessageResponseType L")
      case True
      then obtain b where "consumeResponse L hs ?d priv psk = Inr b" using consumeResponse_total[OF assms] by blast
      with True one Cons Datagram show ?thesis by (cases b) (simp_all add: Let_def)
    next
      case False
      then have "recv_loop L dst hs priv psk (i # ins) r = recv_loop L dst hs priv psk ins r
          \<or> recv_loop L dst hs priv psk (i # ins) r = recv_loop L dst hs priv psk ins (note_reply ?d r)"
        using one Datagram by (auto simp: Let_def)
      moreover have "\<not> accepts L dst hs priv psk i" using False Datagram by (auto simp: Let_def)
      ultimately show ?thesis using Cons Datagram by auto
    qed
  qed simp_all
qed simp

lemma recv_loop_keeps:
  "recv_loop L dst hs priv psk ins r = (err, r') \<Longrightarrow>
     wr_Attempts r' = wr_Attempts r \<and> wr_RespError r' = wr_RespError r \<and> (wr_Responded r \<longrightarrow> wr_Responded r')
     \<and> (wr_Alive r' \<longrightarrow> wr_Alive r \<or> wr_Responded r')"
proof (induction L dst hs priv psk ins r rule: recv_loop.induct)
  case (4 L dst hs priv psk fip fport raw ins r)
  then show ?case by (auto simp: Let_def split: if_splits sum.splits)
qed (auto split: if_splits)


text \<open>
  C22: A live peer is found, whatever else is on the wire. When the WireGuard responder that holds the private key of
  the probed public key answers the initiation of an attempt, and its datagram reaches the socket before a
  read fails, the attempt ends with the verdict alive; datagrams from elsewhere, forged responses and cookie
  replies before it change nothing.
\<close>

theorem live_peer_found:
  assumes "wg_layout_ok (wg_lib_of env)" and "wg_crypto_ok (wg_lib_of env)" and "length rsv = 3" and "length (wg_stamp env i) = 12"
    and "createInitiation (wg_lib_of env) (wg_stamp env i) priv peer rsv e0 = (Inr (hs, p), e1)" and "wg_write env i = None"
    and "X25519 (wg_lib_of env) s (Basepoint (wg_lib_of env)) = Inr peer"
    and "wg_responder (wg_lib_of env) s e psk rsv' index macs p = Some resp" and "length rsv' = 3" and "length index = 4" and "length macs = 32"
    and "Datagram fip (ua_Port dst) resp \<in> set (takeWhile is_datagram (wg_inbox env i wait))" and "ip_equal fip (ua_IP dst)"
  shows "wr_Alive (fst (snd (probeWireGuardOnce env i dst priv peer psk rsv wait r e0)))"
proof -
  let ?L = "wg_lib_of env"
  have g: "consumeResponse ?L hs resp priv psk = Inr True" "length resp = MessageResponseSize ?L" "unat (resp ! 0) = MessageResponseType ?L"
    using genuine_peer_accepted[OF assms(1-5,7,8-11)] by blast+
  have "take bufSize resp = resp" using g(2) assms(1) by (simp add: bufSize_def wg_layout_ok_def)
  with g assms(13) have "accepts ?L dst hs priv psk (Datagram fip (ua_Port dst) resp)" by simp
  with assms(12) recv_loop_alive[OF assms(1,2)] have "wr_Alive (snd (recv_loop ?L dst hs priv psk (wg_inbox env i wait) r))" by blast
  then show ?thesis using assms(5,6) by (auto simp: probeWireGuardOnce_def split: prod.splits)
qed


section \<open>The verdict of the probe\<close>

fun is_sent :: "udp_addr \<Rightarrow> wg_event \<Rightarrow> bool" where
  "is_sent dst (WgSent _ a) = (a = dst)"
| "is_sent dst _ = False"

lemma probe_once_keeps:
  assumes "probeWireGuardOnce env i dst priv peer psk rsv wait r e = (err, r', evs, e')" and "\<not> wr_Alive r"
  shows "wr_Attempts r' = wr_Attempts r \<and> wr_RespError r' = wr_RespError r \<and> (wr_Alive r' \<longrightarrow> wr_Responded r')
    \<and> length evs \<le> 1 \<and> list_all (is_sent dst) evs"
  using assms by (auto simp: probeWireGuardOnce_def split: prod.splits sum.splits option.splits dest: recv_loop_keeps)

lemma wg_loop_result:
  assumes "wg_loop env dst priv peer psk rsv per i k r e = (r', evs, e')" and "\<not> wr_Alive r" and "wr_Attempts r = i"
  shows "(wr_Alive r' \<longrightarrow> wr_RespError r' = None \<and> wr_Responded r') \<and> wr_Attempts r' \<le> i + k
    \<and> length evs + i \<le> wr_Attempts r' \<and> list_all (is_sent dst) evs"
  using assms
proof (induction k arbitrary: i r e r' evs e')
  case (Suc k)
  let ?r0 = "r\<lparr>wr_Attempts := i + 1\<rparr>"
  obtain err r1 ev1 e1 where o: "probeWireGuardOnce env i dst priv peer psk rsv per ?r0 e = (err, r1, ev1, e1)" by (rule prod_cases4)
  have K: "wr_Attempts r1 = i + 1" "wr_Alive r1 \<longrightarrow> wr_Responded r1" "length ev1 \<le> 1" "list_all (is_sent dst) ev1"
    using probe_once_keeps[OF o] Suc.prems(2) by auto
  show ?case
  proof (cases "wr_Alive r1 \<or> wg_ctx_done env i")
    case True
    with Suc.prems(1) o K show ?thesis by (auto simp: Let_def split: option.splits if_splits)
  next
    case False
    let ?r3 = "case err of None \<Rightarrow> r1\<lparr>wr_RttMs := wg_rtt env i\<rparr> | Some x \<Rightarrow> r1\<lparr>wr_RttMs := wg_rtt env i, wr_RespError := Some x\<rparr>"
    obtain r4 ev2 e2 where l: "wg_loop env dst priv peer psk rsv per (Suc i) k ?r3 e1 = (r4, ev2, e2)" by (rule prod_cases3)
    have "r' = r4" "evs = ev1 @ ev2" using Suc.prems(1) o False l by (auto simp: Let_def split: option.splits)
    moreover have "\<not> wr_Alive ?r3" "wr_Attempts ?r3 = Suc i" using False K by (auto split: option.splits)
    ultimately show ?thesis using Suc.IH[OF l] K by auto
  qed
qed auto


text \<open>The three ways \<^verbatim>\<open>ProbeWireGuard\<close> ends: before it has a socket, during the noise, or after the attempts.\<close>

lemma ProbeWireGuard_cases:
  obtains (refused) err e' where "ProbeWireGuard env dec e = (wg_failed err, [], e')"
    | (noise_failed) err ps e' where "ProbeWireGuard env dec e = (wg_failed err, WgListen # map WgNoise ps @ [WgClose], e')"
    | (probed) o' and pl :: wg_plan and per e2 r evs e' ps where "dec = Inr o'"
      "wg_loop env (pl_dst pl) (pl_private pl) (pl_peer pl) (pl_psk pl) (pl_reserved pl) per 0 (nat (wg_attempts o')) no_result e2 = (r, evs, e')"
      "ProbeWireGuard env dec e = (no_answer r, WgListen # map WgNoise ps @ evs @ [WgClose], e')"
proof (cases dec)
  case (Inl err)
  then show thesis using refused by (simp add: ProbeWireGuard_def)
next
  case (Inr o')
  obtain p e1 where P: "wg_prepare env o' e = (p, e1)" by fastforce
  show thesis
  proof (cases p)
    case (Inl err)
    then show thesis using refused Inr P by (simp add: ProbeWireGuard_def)
  next
    case (Inr pl)
    obtain ps n e2 where N: "wg_send_noise env pl e1 = (ps, n, e2)" by (rule prod_cases3)
    obtain r evs e3 where L: "wg_loop env (pl_dst pl) (pl_private pl) (pl_peer pl) (pl_psk pl) (pl_reserved pl)
        (go_div (wg_timeout o') (wg_attempts o')) 0 (nat (wg_attempts o')) no_result e2 = (r, evs, e3)" by (rule prod_cases3)
    note D = ProbeWireGuard_def \<open>dec = Inr o'\<close> P Inr N
    show thesis
    proof (cases n)
      case (Inl err)
      then show thesis using noise_failed[of err "map fst ps"] by (simp add: D)
    next
      case (Inr u)
      then show thesis using probed[OF \<open>dec = Inr o'\<close> L, of "map fst ps"] by (simp add: D L)
    qed
  qed
qed

text \<open>
  C24: the verdict of a probe is consistent, for every input and every behaviour of the network: the error is empty
  exactly when the peer is alive, no more attempts are made than were asked for,
  and the socket is closed after a run of noise first and then at most one initiation per attempt, all
  to the same address.
\<close>

theorem ProbeWireGuard_verdict:
  "\<exists>r evs e'. ProbeWireGuard env dec e = (r, evs, e') \<and> (wr_Alive r \<longleftrightarrow> wr_RespError r = None)
     \<and> wr_Attempts r \<le> (case dec of Inl _ \<Rightarrow> 0 | Inr o' \<Rightarrow> nat (wg_attempts o'))
     \<and> (evs = [] \<or> (\<exists>ps sent dst. evs = WgListen # map WgNoise ps @ sent @ [WgClose] \<and> list_all (is_sent dst) sent
          \<and> length sent \<le> wr_Attempts r))"
proof (cases rule: ProbeWireGuard_cases[of env dec e])
  case (refused err e')
  then show ?thesis by (simp add: wg_failed_def no_result_def)
next
  case (noise_failed err ps e')
  then have "WgListen # map WgNoise ps @ [WgClose] = WgListen # map WgNoise ps @ [] @ [WgClose]" by simp
  with noise_failed show ?thesis by (fastforce simp: wg_failed_def no_result_def)
next
  case (probed o' pl per e2 r evs e' ps)
  have R: "wr_Alive r \<longrightarrow> wr_RespError r = None \<and> wr_Responded r" "wr_Attempts r \<le> nat (wg_attempts o')"
    "length evs \<le> wr_Attempts r" "list_all (is_sent (pl_dst pl)) evs"
    using wg_loop_result[OF probed(2)] by (auto simp: no_result_def)
  have n: "wr_Attempts (no_answer r) = wr_Attempts r" "wr_Alive (no_answer r) = wr_Alive r" "wr_Responded (no_answer r) = wr_Responded r"
    "wr_RespError (no_answer r) = None \<longleftrightarrow> wr_Alive r"
    using R(1) by (auto simp: no_answer_def)
  have "\<exists>ps' sent dst. WgListen # map WgNoise ps @ evs @ [WgClose] = WgListen # map WgNoise ps' @ sent @ [WgClose]
      \<and> list_all (is_sent dst) sent \<and> length sent \<le> wr_Attempts (no_answer r)"
    by (intro exI[of _ ps] exI[of _ evs] exI[of _ "pl_dst pl"]) (simp add: R(3,4) n(1))
  then show ?thesis unfolding probed(3) using probed(1) R(2) n by simp
qed


text \<open>A run of one attempt in which a stray and a forged datagram come before the genuine response.\<close>

definition demo_dst :: udp_addr where "demo_dst = \<lparr>ua_IP = [10, 0, 0, 1], ua_Port = 2408\<rparr>"

definition demo_wg :: "bytes \<Rightarrow> wg_env" where
  "demo_wg resp = \<lparr>wg_lib_of = demo_lib, wg_resolve = (\<lambda>_. Inr demo_dst), wg_listen = None, wg_noise_write = (\<lambda>_. None),
     wg_noise_done = (\<lambda>_. None), wg_stamp = (\<lambda>_. replicate 12 8), wg_write = (\<lambda>_. None),
     wg_inbox = (\<lambda>_ _. [Datagram [9, 9, 9, 9] 53 [1], Datagram [10, 0, 0, 1] 2408 (2 # replicate 91 0), Datagram [10, 0, 0, 1] 2408 resp]),
     wg_rtt = (\<lambda>_. 3), wg_ctx_done = (\<lambda>_. False)\<rparr>"

lemma demo_exchange:
  obtains hs p e2 resp where
    "createInitiation demo_lib (replicate 12 8) (replicate 32 3) (replicate 32 9) [7, 8, 9] (replicate 40 5) = (Inr (hs, p), e2)"
    "wg_responder demo_lib (replicate 32 9) (replicate 32 6) (replicate 32 0) [7, 8, 9] [1, 2, 3, 4] (replicate 32 0) p = Some resp"
proof -
  obtain hs p e2 where c: "createInitiation demo_lib (replicate 12 8) (replicate 32 3) (replicate 32 9) [7, 8, 9] (replicate 40 5) = (Inr (hs, p), e2)"
    using demo_lib_init[of "replicate 12 8" "[7, 8, 9]" "replicate 32 3" "replicate 32 9"] by auto
  have s: "X25519 demo_lib (replicate 32 9) (Basepoint demo_lib) = Inr (replicate 32 9)" by (simp add: demo_lib_pub)
  obtain pub where pub: "publicKeyOf demo_lib (replicate 32 3) = Inr pub" using demo_lib_pub by (auto simp: publicKeyOf_def)
  have "responder_state demo_lib (replicate 32 9) p = Some (is_hash hs, is_chainKey hs, pub)"
    by (rule responder_agrees[OF demo_lib_layout demo_lib_crypto _ _ c s pub]) simp_all
  then obtain resp where "wg_responder demo_lib (replicate 32 9) (replicate 32 6) (replicate 32 0) [7, 8, 9] [1, 2, 3, 4] (replicate 32 0) p = Some resp"
    by (auto simp: wg_responder_def responder_seal_def wg_ok_def demo_lib_def)
  with c that show thesis by blast
qed

theorem live_peer_found_witness:
  "\<exists>resp. wr_Alive (fst (snd (probeWireGuardOnce (demo_wg resp) 0 demo_dst (replicate 32 3) (replicate 32 9) (replicate 32 0) [7, 8, 9] 5
      no_result (replicate 40 5))))"
proof -
  obtain hs p e2 resp where c: "createInitiation demo_lib (replicate 12 8) (replicate 32 3) (replicate 32 9) [7, 8, 9] (replicate 40 5) = (Inr (hs, p), e2)"
    and r: "wg_responder demo_lib (replicate 32 9) (replicate 32 6) (replicate 32 0) [7, 8, 9] [1, 2, 3, 4] (replicate 32 0) p = Some resp"
    by (rule demo_exchange)
  have s: "X25519 demo_lib (replicate 32 9) (Basepoint demo_lib) = Inr (replicate 32 9)" by (simp add: demo_lib_pub)
  have f: "wg_lib_of (demo_wg resp) = demo_lib" "wg_stamp (demo_wg resp) 0 = replicate 12 8" "wg_write (demo_wg resp) 0 = None"
    by (simp_all add: demo_wg_def)
  have i: "Datagram [10, 0, 0, 1] (ua_Port demo_dst) resp \<in> set (takeWhile is_datagram (wg_inbox (demo_wg resp) 0 5))" "ip_equal [10, 0, 0, 1] (ua_IP demo_dst)"
    by (simp_all add: demo_wg_def demo_dst_def ip_equal_def)
  from live_peer_found[of "demo_wg resp" "[7, 8, 9]" 0, unfolded f, OF demo_lib_layout demo_lib_crypto _ _ c _ s r _ _ _ i]
  show ?thesis by auto
qed


end
