(* ===== verification/Cert.thy ===== *)
theory Cert
  imports Tls_Dial
begin

text \<open>
  \<^verbatim>\<open>libv2ray_fetch_cert.go\<close>: \<open>ProbeCert\<close> makes one handshake over TCP or QUIC and reports the certificate the peer
  sent, also when the handshake fails. The sink the verify callback writes to is explicit state; what the
  callback is given during a handshake is an answer of the environment, a list of chains because the
  QUIC ladder may handshake more than once. \<^verbatim>\<open>crypto/x509\<close> and \<^verbatim>\<open>crypto/sha256\<close> are parameters.
\<close>

section \<open>The model\<close>

record CertResult =
  ct_Subject :: string
  ct_Issuer :: string
  ct_CommonName :: string
  ct_IssuerOrg :: string
  ct_DNSNames :: string
  ct_Alpn :: string
  ct_AlpnKnown :: bool
  ct_SpkiSha256 :: string
  ct_NotBefore :: string
  ct_NotAfter :: string
  ct_Leaf :: bytes
  ct_ChainLen :: nat
  ct_Proto :: string
  ct_HandshakeOK :: bool
  ct_RttMs :: int
  ct_RespError :: "go_error option"

definition zero_cert :: CertResult where
  "zero_cert = \<lparr>ct_Subject = [], ct_Issuer = [], ct_CommonName = [], ct_IssuerOrg = [], ct_DNSNames = [], ct_Alpn = [],
     ct_AlpnKnown = False, ct_SpkiSha256 = [], ct_NotBefore = [], ct_NotAfter = [], ct_Leaf = [], ct_ChainLen = 0,
     ct_Proto = [], ct_HandshakeOK = False, ct_RttMs = 0, ct_RespError = None\<rparr>"

definition cert_error :: "go_error \<Rightarrow> CertResult" where
  "cert_error err = zero_cert\<lparr>ct_RespError := Some err\<rparr>"

record probeCertOptions = transportOptions +
  po_Address :: string

text \<open>What the program reads from a parsed certificate; the dates are already in RFC 3339.\<close>

record x509_cert =
  x_Subject :: string
  x_Issuer :: string
  x_CommonName :: string
  x_IssuerOrganization :: "string list"
  x_DNSNames :: "string list"
  x_NotBefore :: string
  x_NotAfter :: string
  x_PKIX :: "bytes res"

text \<open>
  \<open>env_presented\<close> is what the verify callback receives in a handshake that starts after the given
  history, \<open>env_quic_alpn\<close> the protocol a QUIC connection negotiated.
\<close>

record 'f cert_env = "'f tls_env" +
  env_presented :: "history \<Rightarrow> bytes list list"
  env_quic_alpn :: "history \<Rightarrow> string"
  env_x509 :: "bytes \<Rightarrow> x509_cert res"
  env_sha256 :: "bytes \<Rightarrow> bytes"
  env_rtt :: "history \<Rightarrow> int"

type_synonym certSink = "bytes list"

definition capture :: "bytes list \<Rightarrow> certSink \<Rightarrow> certSink" where
  "capture rawCerts s = (if length s = 0 \<and> length rawCerts > 0 then rawCerts else s)"

definition certTLSConfig :: "('a transportOptions_scheme) \<Rightarrow> string \<Rightarrow> alpn_mode \<Rightarrow> tls_config" where
  "certTLSConfig o' host mode =
     (let sni = (if opt_ServerName o' = [] then host else opt_ServerName o')
      in empty_tls\<lparr>tc_ServerName := sni, tc_InsecureSkipVerify := True, tc_NextProtos := alpnOffer mode\<rparr>)"

definition handshakeTCP :: "('f, 'z) cert_env_scheme \<Rightarrow> ('a transportOptions_scheme) \<Rightarrow> string \<Rightarrow> tls_config
    \<Rightarrow> certSink \<Rightarrow> history \<Rightarrow> string res \<times> certSink \<times> history" where
  "handshakeTCP env o' target cfg sink tr =
     (case fragmentConfig env o' of Inl err \<Rightarrow> (Inl err, sink, tr)
      | Inr frag \<Rightarrow>
     (case rawDial env o' target frag tr of
        (Inl err, tr1) \<Rightarrow> (Inl err, sink, tr1)
      | (Inr conn, tr1) \<Rightarrow>
          let sink1 = fold capture (env_presented env tr1) sink;
              tr2 = tr1 @ [StdHandshake conn cfg, ConnClose conn]
          in (case env_std_hs env tr1 conn cfg of
                Inl err \<Rightarrow> (Inl err, sink1, tr2)
              | Inr (proto, _) \<Rightarrow> (Inr proto, sink1, tr2))))"

text \<open>The noise, the ladder and the closing of the QUIC connection, on the socket \<open>sock\<close>.\<close>

definition quic_exchange :: "('f, 'z) cert_env_scheme \<Rightarrow> connid \<Rightarrow> string \<Rightarrow> tls_config \<Rightarrow> quic_version list list
    \<Rightarrow> noiseConfig option \<Rightarrow> certSink \<Rightarrow> history \<Rightarrow> string res \<times> certSink \<times> history" where
  "quic_exchange env sock target cfg attempts noise sink tr =
     (case (case noise of
              None \<Rightarrow> (Inr (), tr)
            | Some n \<Rightarrow>
                (case send n target (env_udp_write env tr) (env_ctx_done env tr) (env_rand env tr) of
                   (ps, r, _) \<Rightarrow> (r, tr @ [NoiseBurst sock target ps]))) of
        (Inl err, tr1) \<Rightarrow> (Inl err, sink, tr1)
      | (Inr _, tr1) \<Rightarrow>
          let sink1 = fold capture (env_presented env tr1) sink in
          (case env_quic_dial env tr1 target cfg attempts of
             Some err \<Rightarrow> (Inl err, sink1, tr1 @ [QuicDial sock target cfg False])
           | None \<Rightarrow> (Inr (env_quic_alpn env tr1), sink1, tr1 @ [QuicDial sock target cfg True, QuicClose (length tr1)])))"

definition handshakeQUIC :: "('f, 'z) cert_env_scheme \<Rightarrow> ('a transportOptions_scheme) \<Rightarrow> string \<Rightarrow> tls_config
    \<Rightarrow> certSink \<Rightarrow> history \<Rightarrow> string res \<times> certSink \<times> history" where
  "handshakeQUIC env o' target cfg sink tr =
     (case quicAttempts (env_ladder env) o' of Inl err \<Rightarrow> (Inl err, sink, tr)
      | Inr attempts \<Rightarrow>
     (case build_noiseConfig o' of Inl err \<Rightarrow> (Inl err, sink, tr)
      | Inr noise \<Rightarrow>
     (case env_resolve_udp env target of Some err \<Rightarrow> (Inl (Wrapf ''h3: cannot resolve %q: %w'' [S target] err), sink, tr)
      | None \<Rightarrow>
     (case env_listen_udp env tr of
        Some err \<Rightarrow> (Inl (Wrapf ''h3: cannot open udp socket: %w'' [] err), sink, tr @ [ListenUDP False])
      | None \<Rightarrow>
          (case quic_exchange env (length tr) target cfg attempts noise sink (tr @ [ListenUDP True]) of
             (r, sink1, tr1) \<Rightarrow> (r, sink1, tr1 @ [UdpClose (length tr)]))))))"

text \<open>The fields filled from the parsed leaf (lines 211 to 229).\<close>

definition fill_leaf :: "('f, 'z) cert_env_scheme \<Rightarrow> bytes \<Rightarrow> CertResult \<Rightarrow> CertResult" where
  "fill_leaf env der r =
     (case env_x509 env der of
        Inl err \<Rightarrow> r\<lparr>ct_RespError := Some (Wrapf ''cannot parse the leaf certificate: %w'' [] err)\<rparr>
      | Inr leaf \<Rightarrow>
          let r1 = r\<lparr>ct_Subject := x_Subject leaf, ct_Issuer := x_Issuer leaf, ct_CommonName := x_CommonName leaf\<rparr>;
              r2 = (if length (x_IssuerOrganization leaf) > 0 then r1\<lparr>ct_IssuerOrg := x_IssuerOrganization leaf ! 0\<rparr> else r1);
              r3 = r2\<lparr>ct_DNSNames := join_with '','' (x_DNSNames leaf), ct_NotBefore := x_NotBefore leaf, ct_NotAfter := x_NotAfter leaf\<rparr>
          in (case x_PKIX leaf of
                Inl _ \<Rightarrow> r3
              | Inr spki \<Rightarrow> r3\<lparr>ct_SpkiSha256 := hex_encode (env_sha256 env spki)\<rparr>))"

text \<open>What is reported of a handshake (lines 187 to 229).\<close>

definition cert_report :: "('f, 'z) cert_env_scheme \<Rightarrow> string \<Rightarrow> int \<Rightarrow> string res \<Rightarrow> certSink \<Rightarrow> CertResult" where
  "cert_report env proto rtt hs chain =
     (if length chain = 0 then
        zero_cert\<lparr>ct_Proto := proto, ct_RttMs := rtt, ct_RespError :=
          Some (case hs of Inl err \<Rightarrow> err | Inr _ \<Rightarrow> Errorf ''no certificate was presented'' [])\<rparr>
      else
        let r0 = zero_cert\<lparr>ct_Leaf := chain ! 0, ct_ChainLen := length chain, ct_Proto := proto, ct_RttMs := rtt,
              ct_HandshakeOK := is_ok hs\<rparr>;
            r1 = (case hs of Inl err \<Rightarrow> r0\<lparr>ct_RespError := Some err\<rparr> | Inr alpn \<Rightarrow> r0\<lparr>ct_Alpn := alpn, ct_AlpnKnown := True\<rparr>)
        in fill_leaf env (chain ! 0) r1)"

text \<open>Everything that is checked before anything is dialed (lines 143 to 165): the host, the mode and the target.\<close>

definition cert_target :: "('f, 'z) cert_env_scheme \<Rightarrow> probeCertOptions \<Rightarrow> (string \<times> alpn_mode \<times> string) res" where
  "cert_target env o' =
     (if po_Address o' = [] then Inl (Errorf ''address is required'' [])
      else case split_host_port (po_Address o') of
        Inl err \<Rightarrow> Inl (Errorf ''address %q is not host:port: %v'' [S (po_Address o')])
      | Inr (host, port) \<Rightarrow>
      if host = [] then Inl (Errorf ''address %q has no host'' [S (po_Address o')])
      else (case validate (env_knownFP env) (env_ladder env) o' of Inl err \<Rightarrow> Inl err
      | Inr _ \<Rightarrow>
      (case alpnMode o' of Inl err \<Rightarrow> Inl err
      | Inr mode \<Rightarrow>
          Inr (host, mode, if opt_IP o' \<noteq> [] then join_host_port (opt_IP o') port else join_host_port host port))))"

definition ProbeCert :: "('f, 'z) cert_env_scheme \<Rightarrow> probeCertOptions res \<Rightarrow> history \<Rightarrow> CertResult \<times> history" where
  "ProbeCert env decoded tr =
     (case decoded of Inl err \<Rightarrow> (cert_error (Wrapf ''invalid options json: %w'' [] err), tr)
      | Inr o' \<Rightarrow>
     (case cert_target env o' of Inl err \<Rightarrow> (cert_error err, tr)
      | Inr (host, mode, target) \<Rightarrow>
          let cfg = (certTLSConfig o' host mode)\<lparr>tc_Capture := True\<rparr> in
          if mode = AlpnH3 then
            (case handshakeQUIC env o' target cfg [] tr of
               (r, sink, tr1) \<Rightarrow> (cert_report env ''h3'' (env_rtt env tr1) r sink, tr1))
          else
            (case handshakeTCP env o' target cfg [] tr of
               (r, sink, tr1) \<Rightarrow> (cert_report env ''tcp'' (env_rtt env tr1) r sink, tr1))))"

section \<open>The sink\<close>

text \<open>The sink keeps the first chain that is not empty, whatever comes after it.\<close>

lemma capture_simps [simp]: "capture [] s = s" "capture c [] = c" "s \<noteq> [] \<Longrightarrow> capture c s = s"
  by (auto simp: capture_def)

lemma capture_kept: "s \<noteq> [] \<Longrightarrow> fold capture cs s = s"
  by (induction cs arbitrary: s) auto

lemma capture_first: "fold capture cs [] = (case dropWhile (\<lambda>c. c = []) cs of [] \<Rightarrow> [] | c # _ \<Rightarrow> c)"
proof (induction cs)
  case (Cons c cs)
  then show ?case by (cases "c = []") (simp_all add: capture_kept)
qed simp

section \<open>What a probe does on the network\<close>

text \<open>A handshake of the probe trusts nobody, hides nothing and feeds the sink.\<close>

fun blind :: "event \<Rightarrow> bool" where
  "blind (StdHandshake c cfg) = (tc_InsecureSkipVerify cfg \<and> tc_EchConfigList cfg = [] \<and> tc_Capture cfg)"
| "blind (QuicDial c a cfg b) = (tc_InsecureSkipVerify cfg \<and> tc_EchConfigList cfg = [] \<and> tc_Capture cfg)"
| "blind (UtlsHandshake c fp cfg) = False"
| "blind (HttpDo m u h b) = False"
| "blind _ = True"

lemma rawDial_blind: "rawDial env o' addr frag tr = (r, tr') \<Longrightarrow> \<exists>t. tr' = tr @ t \<and> list_all blind t"
  by (auto simp: rawDial_def dialViaProxy_def proxyConnect_def tcp_dial_def socks_dial_def Let_def
      split: sum.splits option.splits if_splits prod.splits)

definition clean_run :: "history \<Rightarrow> history \<Rightarrow> bool" where
  "clean_run tr tr' \<longleftrightarrow> (\<exists>t. tr' = tr @ t \<and> list_all blind t)
     \<and> (wf_history tr \<longrightarrow> wf_history tr' \<and> set (open_conns tr') = set (open_conns tr))"

lemma clean_run_refl [simp]: "clean_run tr tr"
  by (auto simp: clean_run_def)

lemma clean_run_contract:
  assumes "dial_contract tr (Inl err) tr'" and "tr' = tr @ t" and "list_all blind t"
  shows "clean_run tr tr'"
  using assms by (auto simp: clean_run_def dial_contract_def)

lemma cert_config_blind:
  "blind (StdHandshake c ((certTLSConfig o' host mode)\<lparr>tc_Capture := True\<rparr>))"
  "blind (QuicDial c a ((certTLSConfig o' host mode)\<lparr>tc_Capture := True\<rparr>) b)"
  by (simp_all add: certTLSConfig_def empty_tls_def Let_def)

lemma handshakeTCP_clean:
  assumes "handshakeTCP env o' target cfg sink tr = (r, sink', tr')" and "\<And>c. blind (StdHandshake c cfg)"
  shows "clean_run tr tr'"
proof (cases "fragmentConfig env o'")
  case (Inl err)
  with assms(1) show ?thesis by (auto simp: handshakeTCP_def)
next
  case (Inr frag)
  obtain d tr1 where d: "rawDial env o' target frag tr = (d, tr1)" by fastforce
  obtain t where t: "tr1 = tr @ t" "list_all blind t" using rawDial_blind[OF d] by blast
  note C = rawDial_contract[OF d]
  show ?thesis
  proof (cases d)
    case (Inl err)
    with assms(1) \<open>fragmentConfig env o' = Inr frag\<close> d C t show ?thesis
      by (auto simp: handshakeTCP_def intro: clean_run_contract)
  next
    case (Inr conn)
    have "tr' = tr1 @ [StdHandshake conn cfg, ConnClose conn]"
      using assms(1) \<open>fragmentConfig env o' = Inr frag\<close> d Inr by (auto simp: handshakeTCP_def Let_def split: sum.splits)
    moreover have "dial_contract tr (Inl IOTimeout) (tr1 @ [StdHandshake conn cfg] @ [ConnClose conn])"
      using C Inr by (intro contract_close) simp_all
    ultimately show ?thesis using t assms(2) by (auto intro!: clean_run_contract)
  qed
qed


lemma clean_run_trans: "clean_run a b \<Longrightarrow> clean_run b c \<Longrightarrow> clean_run a c"
  by (auto simp: clean_run_def)

lemma clean_run_quiet: "list_all quiet t \<Longrightarrow> list_all blind t \<Longrightarrow> clean_run tr (tr @ t)"
  using quiet_append[of tr t] by (auto simp: clean_run_def)

text \<open>Opening, something clean, and closing what was opened.\<close>

lemma clean_run_bracket:
  assumes "opens e" and "closes e = {}" and "blind e" and "clean_run (tr @ [e]) tr1" and "closes f = {length tr}" and "\<not> opens f" and "blind f"
  shows "clean_run tr (tr1 @ [f])"
proof -
  obtain t where t: "tr1 = tr @ [e] @ t" "list_all blind t" using assms(4) by (auto simp: clean_run_def)
  have "wf_history (tr1 @ [f]) \<and> set (open_conns (tr1 @ [f])) = set (open_conns tr)" if w: "wf_history tr"
  proof -
    have c: "dial_contract tr (Inr (length tr)) (tr @ [e])" by (rule contract_open[OF assms(1,2)])
    with assms(4) w have o: "wf_history tr1" "set (open_conns tr1) = insert (length tr) (set (open_conns tr))" "length tr \<notin> set (open_conns tr)"
      by (auto simp: clean_run_def dial_contract_def)
    have "length tr < length tr1" using t by simp
    with o(1) assms(5) have "wf_history (tr1 @ [f])" by (intro wf_history_append1) auto
    with open_conns_append1[OF o(1), of f] o assms(5,6) show ?thesis by auto
  qed
  with t assms(3,7) show ?thesis by (auto simp: clean_run_def)
qed

lemma quic_exchange_clean:
  assumes "quic_exchange env sock target cfg attempts noise sink tr = (r, sink', tr')" and "\<And>c a b. blind (QuicDial c a cfg b)"
  shows "clean_run tr tr'"
proof -
  obtain n tr1 where n: "(case noise of None \<Rightarrow> (Inr (), tr)
      | Some n \<Rightarrow> (case send n target (env_udp_write env tr) (env_ctx_done env tr) (env_rand env tr) of
           (ps, r, _) \<Rightarrow> (r, tr @ [NoiseBurst sock target ps]))) = (n, tr1)" by fastforce
  have t1: "clean_run tr tr1" using n by (auto simp: clean_run_quiet split: option.splits prod.splits)
  have "clean_run tr1 (tr1 @ [QuicDial sock target cfg False])" using assms(2) by (intro clean_run_quiet) simp_all
  moreover have "clean_run tr1 ((tr1 @ [QuicDial sock target cfg True]) @ [QuicClose (length tr1)])"
    by (rule clean_run_bracket[OF _ _ assms(2)[of sock target True]]) simp_all
  ultimately show ?thesis using assms(1) n t1
    by (auto simp: quic_exchange_def Let_def split: sum.splits option.splits intro: clean_run_trans)
qed

lemma handshakeQUIC_clean:
  assumes "handshakeQUIC env o' target cfg sink tr = (r, sink', tr')" and "\<And>c a b. blind (QuicDial c a cfg b)"
  shows "clean_run tr tr'"
proof (cases "\<exists>attempts noise. quicAttempts (env_ladder env) o' = Inr attempts \<and> build_noiseConfig o' = Inr noise
      \<and> env_resolve_udp env target = None \<and> env_listen_udp env tr = None")
  case False
  have "clean_run tr (tr @ [ListenUDP False])" by (intro clean_run_quiet) simp_all
  with False assms(1) show ?thesis by (auto simp: handshakeQUIC_def split: sum.splits option.splits)
next
  case True
  then obtain attempts noise where h: "quicAttempts (env_ladder env) o' = Inr attempts" "build_noiseConfig o' = Inr noise"
      "env_resolve_udp env target = None" "env_listen_udp env tr = None" by blast
  obtain q s1 tr1 where q: "quic_exchange env (length tr) target cfg attempts noise sink (tr @ [ListenUDP True]) = (q, s1, tr1)"
    by (rule prod_cases3)
  have "tr' = tr1 @ [UdpClose (length tr)]" using assms(1) h q by (simp add: handshakeQUIC_def)
  with quic_exchange_clean[OF q assms(2)] show ?thesis by (auto intro!: clean_run_bracket)
qed

text \<open>
  C30: A certificate probe leaves nothing behind and never pretends to trust. Whatever the network answers, on TCP, through a
  proxy or over QUIC, every connection and socket the probe opens is closed when it returns; every handshake it makes
  has verification off, offers no ECH and feeds the sink; and no HTTP request is sent.
\<close>

theorem ProbeCert_clean:
  assumes "ProbeCert env dec tr = (r, tr')"
  shows "\<exists>t. tr' = tr @ t \<and> list_all blind t \<and> (wf_history tr \<longrightarrow> set (open_conns tr') = set (open_conns tr))"
proof -
  have "clean_run tr tr'"
  proof (cases "\<exists>o' host mode target. dec = Inr o' \<and> cert_target env o' = Inr (host, mode, target)")
    case False
    with assms show ?thesis by (auto simp: ProbeCert_def split: sum.splits)
  next
    case True
    then obtain o' host mode target where o: "dec = Inr o'" "cert_target env o' = Inr (host, mode, target)" by blast
    let ?cfg = "(certTLSConfig o' host mode)\<lparr>tc_Capture := True\<rparr>"
    obtain r1 s1 q1 where q: "handshakeQUIC env o' target ?cfg [] tr = (r1, s1, q1)" by (rule prod_cases3)
    obtain r2 s2 q2 where t: "handshakeTCP env o' target ?cfg [] tr = (r2, s2, q2)" by (rule prod_cases3)
    have "clean_run tr q1" "clean_run tr q2"
      by (rule handshakeQUIC_clean[OF q], rule cert_config_blind, rule handshakeTCP_clean[OF t], rule cert_config_blind)
    with assms o q t show ?thesis by (auto simp: ProbeCert_def Let_def split: if_splits)
  qed
  then show ?thesis by (auto simp: clean_run_def)
qed

section \<open>What a probe reports\<close>



definition demo_leaf :: x509_cert where
  "demo_leaf = \<lparr>x_Subject = ''CN=masque'', x_Issuer = ''O=Org'', x_CommonName = ''masque'', x_IssuerOrganization = [''Org''],
     x_DNSNames = [''a'', ''b''], x_NotBefore = [], x_NotAfter = [], x_PKIX = Inr [1]\<rparr>"

definition demo_cert :: "unit cert_env" where
  "demo_cert = tls_env.extend (demo_tls\<lparr>env_std_hs := \<lambda>_ _ _. Inl IOTimeout\<rparr>)
     (cert_env.fields (\<lambda>_. [[], [[1, 2], [3]], [[4]]]) (\<lambda>_. []) (\<lambda>_. Inr demo_leaf) (\<lambda>_. [255]) (\<lambda>_. 7))"

definition demo_cert_opts :: probeCertOptions where
  "demo_cert_opts = transportOptions.extend zeroOptions (probeCertOptions.fields ''10.0.0.1:443'')"

theorem ProbeCert_clean_witness:
  "\<exists>t r. ProbeCert demo_cert (Inr demo_cert_opts) [] = (r, t) \<and> list_all blind t \<and> open_conns t = []"
proof -
  obtain r t where p: "ProbeCert demo_cert (Inr demo_cert_opts) [] = (r, t)" by fastforce
  with ProbeCert_clean[OF p] show ?thesis by (auto simp: open_conns_def)
qed


end
