(* ===== verification/Point_Api.thy ===== *)
theory Point_Api
  imports Http_Stack
begin

text \<open>
  The calls of \<^verbatim>\<open>libv2ray_main.go\<close> beside the life cycle: the traffic counters (\<^verbatim>\<open>QueryStats\<close>), the plain web
  request (\<^verbatim>\<open>GetDataFromWeb\<close>), the environment of the core (\<^verbatim>\<open>InitV2Env\<close>), the log writer and the version text. The HTTP
  client, the core and the operating system answer through arguments. The delay measurements are in \<open>Core_Measure\<close>.
\<close>

section \<open>Traffic counters\<close>

text \<open>The statistics manager of the core: its counters by name, each an \<^verbatim>\<open>int64\<close>.\<close>

type_synonym stats = "string \<Rightarrow> int option"

definition counter_name :: "string \<Rightarrow> string \<Rightarrow> string" where
  "counter_name tag direct = ''outbound>>>'' @ tag @ ''>>>traffic>>>'' @ direct"

text \<open>\<open>mgr\<close> is the manager the object refers to, \<^const>\<open>None\<close> for nil. \<^verbatim>\<open>Set\<close> returns the old value.\<close>

definition QueryStats :: "stats option \<Rightarrow> string \<Rightarrow> string \<Rightarrow> int \<times> stats option" where
  "QueryStats mgr tag direct =
     (case mgr of
        None \<Rightarrow> (0, mgr)
      | Some m \<Rightarrow>
          (case m (counter_name tag direct) of
             None \<Rightarrow> (0, mgr)
           | Some n \<Rightarrow> (n, Some (m(counter_name tag direct \<mapsto> 0)))))"

section \<open>GetDataFromWeb\<close>

record WebResult =
  wb_RespBody :: string
  wb_RespHeader :: string
  wb_RespError :: "go_error option"

definition uagent_list :: "string list" where
  "uagent_list =
     [''Mozilla/5.0 (Windows NT 10.0; Win64; x64) AppleWebKit/537.36 (KHTML, like Gecko) Chrome/138.0.0.0 Safari/537.36'',
      ''Mozilla/5.0 (Windows NT 10.0; Win64; x64; rv:141.0) Gecko/20100101 Firefox/141.0'',
      ''Mozilla/5.0 (Macintosh; Intel Mac OS X 10_15_7) AppleWebKit/605.1.15 (KHTML, like Gecko) Version/18.1 Safari/605.1.15'',
      ''Mozilla/5.0 (iPhone; CPU iPhone OS 18_6 like Mac OS X) AppleWebKit/605.1.15 (KHTML, like Gecko) Version/18.4 Mobile/15E148 Safari/604.1'',
      ''Mozilla/5.0 (iPhone; CPU iPhone OS 18_6 like Mac OS X) AppleWebKit/605.1.15 (KHTML, like Gecko) CriOS/139.0.7258.60 Mobile/15E148 Safari/604.1'',
      ''Mozilla/5.0 (Android 16; Mobile; rv:141.0) Gecko/141.0 Firefox/141.0'',
      ''Mozilla/5.0 (Linux; Android 16) AppleWebKit/537.36 (KHTML, like Gecko) Chrome/138.0.7204.180 Mobile Safari/537.36'',
      ''Mozilla/5.0 (Linux; Android 10; K) AppleWebKit/537.36 (KHTML, like Gecko) Chrome/138.0.0.0 Mobile Safari/537.36'']"

text \<open>A request with the settings of the client and of the transport that carry it.\<close>

record web_request =
  wq_Method :: string
  wq_URL :: string
  wq_Header :: header
  wq_Body :: string
  wq_Proxy :: string
  wq_Insecure :: bool
  wq_DialTimeout :: duration
  wq_KeepAlive :: duration
  wq_TLSHandshakeTimeout :: duration
  wq_ResponseHeaderTimeout :: duration
  wq_IdleConnTimeout :: duration
  wq_Timeout :: duration

text \<open>\<open>we_rand\<close> is the number behind \<^verbatim>\<open>rand.Intn\<close>, which takes it below its bound.\<close>

record web_env =
  we_rand :: nat
  we_url_parse :: "string \<Rightarrow> go_error option"
  we_new_request :: "string \<Rightarrow> string \<Rightarrow> go_error option"
  we_do :: "web_request \<Rightarrow> http_response res"
  we_gunzip :: "string \<times> go_error option \<Rightarrow> string res"

definition web_error :: "go_error \<Rightarrow> WebResult" where
  "web_error err = \<lparr>wb_RespBody = [], wb_RespHeader = [], wb_RespError = Some err\<rparr>"

definition post_headers :: "bool \<Rightarrow> string \<Rightarrow> header" where
  "post_headers is_CF_API ua =
     (if is_CF_API then
        set_all [(''Content-Type'', ''application/json; charset=UTF-8''), (''Host'', ''api.cloudflareclient.com''),
          (''Connection'', ''Keep-Alive''), (''Accept-Encoding'', ''gzip''), (''User-Agent'', ''okhttp/3.12.1''),
          (''CF-Client-Version'', ''a-6.30-3596'')] []
      else set_all [(''Content-Type'', ''application/json''), (''Accept'', ''application/json''), (''User-Agent'', ua)] [])"

text \<open>
  Building the request (lines 178 to 208). On the GET path the header is set before the error of \<^verbatim>\<open>NewRequest\<close> is
  looked at, and a failed \<^verbatim>\<open>NewRequest\<close> returns nil.
\<close>

definition web_build :: "web_env \<Rightarrow> string \<Rightarrow> string \<Rightarrow> string \<Rightarrow> int \<Rightarrow> bool \<Rightarrow> bool \<Rightarrow> bool \<Rightarrow> web_request res gocall" where
  "web_build env myurl mydata my_proxy mytimeout allow_sscrt is_post is_CF_API =
     (let ua = uagent_list ! (we_rand env mod length uagent_list);
          req = \<lparr>wq_Method = ''GET'', wq_URL = myurl, wq_Header = [], wq_Body = [], wq_Proxy = my_proxy,
                 wq_Insecure = allow_sscrt, wq_DialTimeout = 5 * second, wq_KeepAlive = 15 * second, wq_TLSHandshakeTimeout = 5 * second,
                 wq_ResponseHeaderTimeout = 5 * second, wq_IdleConnTimeout = 15 * second, wq_Timeout = wrap64 (mytimeout * millisecond)\<rparr>
      in if is_post then
           (case we_new_request env ''POST'' myurl of
              Some err \<Rightarrow> Ret (Inl err)
            | None \<Rightarrow> Ret (Inr (req\<lparr>wq_Method := ''POST'', wq_Body := mydata, wq_Header := post_headers is_CF_API ua\<rparr>)))
         else
           (case we_new_request env ''GET'' myurl of
              Some err \<Rightarrow> Panic
            | None \<Rightarrow> Ret (Inr (req\<lparr>wq_Header := header_Set ''User-Agent'' ua []\<rparr>))))"

text \<open>The answer (lines 214 to 246).\<close>

definition web_answer :: "web_env \<Rightarrow> http_response \<Rightarrow> WebResult" where
  "web_answer env resp =
     (let resp_header = header_Get (hr_Header resp) ''X-From-Server'';
          body = (if header_Get (hr_Header resp) ''Content-Encoding'' = ''gzip'' then we_gunzip env (hr_Body resp, hr_BodyErr resp)
                  else case hr_BodyErr resp of None \<Rightarrow> Inr (hr_Body resp) | Some err \<Rightarrow> Inl err)
      in case body of
           Inl err \<Rightarrow> web_error err
         | Inr resp_body \<Rightarrow>
             if hr_StatusCode resp > 299 then
               \<lparr>wb_RespBody = [], wb_RespHeader = resp_header,
                wb_RespError = Some (Errorf ''ERR status code: %d %s'' [N (hr_StatusCode resp), S resp_body])\<rparr>
             else \<lparr>wb_RespBody = resp_body, wb_RespHeader = resp_header, wb_RespError = None\<rparr>)"

definition GetDataFromWeb :: "web_env \<Rightarrow> string \<Rightarrow> string \<Rightarrow> string \<Rightarrow> int \<Rightarrow> bool \<Rightarrow> bool \<Rightarrow> bool \<Rightarrow> WebResult gocall" where
  "GetDataFromWeb env myurl mydata my_proxy mytimeout allow_sscrt is_post is_CF_API =
     (case (if my_proxy = [] then None else we_url_parse env my_proxy) of
        Some err \<Rightarrow> Ret (web_error err)
      | None \<Rightarrow>
          (case web_build env myurl mydata my_proxy mytimeout allow_sscrt is_post is_CF_API of
             Panic \<Rightarrow> Panic
           | Ret (Inl err) \<Rightarrow> Ret (web_error err)
           | Ret (Inr req) \<Rightarrow>
               (case we_do env req of
                  Inl err \<Rightarrow> Ret (web_error err)
                | Inr resp \<Rightarrow> Ret (web_answer env resp))))"

section \<open>The environment of the core\<close>

definition v2Asset :: string where "v2Asset = ''xray.location.asset''"
definition xudpBaseKey :: string where "xudpBaseKey = ''xray.xudp.basekey''"

definition InitV2Env :: "string \<Rightarrow> string \<Rightarrow> (string \<Rightarrow> string option) \<Rightarrow> (string \<Rightarrow> string option)" where
  "InitV2Env envPath key m0 =
     (let m1 = (if length envPath > 0 then m0(v2Asset \<mapsto> envPath) else m0)
      in if length key > 0 then m1(xudpBaseKey \<mapsto> key) else m1)"

text \<open>The file reader it installs: a file that does not exist is looked for by its base name among the assets of the application.\<close>

definition base_name :: "string \<Rightarrow> string" where
  "base_name path = (case split_last (CHR ''/'') path of None \<Rightarrow> path | Some (_, file) \<Rightarrow> file)"

definition NewFileReader :: "(string \<Rightarrow> bool) \<Rightarrow> (string \<Rightarrow> string res) \<Rightarrow> (string \<Rightarrow> string res) \<Rightarrow> string \<Rightarrow> string res" where
  "NewFileReader missing asset os_open path = (if missing path then asset (base_name path) else os_open path)"

section \<open>The log and the version\<close>

text \<open>
  \<^verbatim>\<open>Print\<close> of a \<^verbatim>\<open>log.Logger\<close> without prefix and flags: the text, and a newline if it does not end in one. Standard output is the
  string written so far.
\<close>

definition newline :: char where "newline = CHR 0x0A"

definition logger_Print :: "string \<Rightarrow> string \<Rightarrow> string" where
  "logger_Print m out = out @ m @ (if m = [] \<or> last m \<noteq> newline then [newline] else [])"

definition consoleLogWriter_Write :: "string \<Rightarrow> string \<Rightarrow> go_error option \<times> string" where
  "consoleLogWriter_Write m out = (None, logger_Print m out)"

definition consoleLogWriter_Close :: "string \<Rightarrow> go_error option \<times> string" where
  "consoleLogWriter_Close out = (None, out)"

definition CheckVersionX :: "string \<Rightarrow> string" where
  "CheckVersionX core_version = ''Mahsa-XrayCore v'' @ core_version"

text \<open>The complete lines of an output.\<close>

fun out_lines :: "string \<Rightarrow> string \<Rightarrow> string list" where
  "out_lines acc [] = []"
| "out_lines acc (c # cs) = (if c = newline then rev acc # out_lines [] cs else out_lines (c # acc) cs)"

definition log_all :: "string list \<Rightarrow> string" where
  "log_all ms = foldl (\<lambda>out m. snd (consoleLogWriter_Write m out)) [] ms"

lemma out_lines_message: "newline \<notin> set m \<Longrightarrow> out_lines acc (m @ newline # cs) = (rev acc @ m) # out_lines [] cs"
  by (induction m arbitrary: acc) auto

lemma log_all_snoc: "newline \<notin> set m \<Longrightarrow> log_all (ms @ [m]) = log_all ms @ m @ [newline]"
  by (cases m rule: rev_cases) (auto simp: log_all_def consoleLogWriter_Write_def logger_Print_def)

lemma log_all_concat: "\<forall>m \<in> set ms. newline \<notin> set m \<Longrightarrow> log_all ms = concat (map (\<lambda>m. m @ [newline]) ms)"
  by (induction ms rule: rev_induct) (auto simp: log_all_snoc, simp add: log_all_def)

text \<open>Messages of one line come out as they went in, in order.\<close>

lemma log_lines: "\<forall>m \<in> set ms. newline \<notin> set m \<Longrightarrow> out_lines [] (log_all ms) = ms"
proof -
  assume n: "\<forall>m \<in> set ms. newline \<notin> set m"
  then have "out_lines [] (concat (map (\<lambda>m. m @ [newline]) ms)) = ms" by (induction ms) (auto simp: out_lines_message)
  with n show ?thesis by (simp add: log_all_concat)
qed

section \<open>No traffic is lost or counted twice\<close>

text \<open>
  The core adds to a counter (in \<^verbatim>\<open>int64\<close> arithmetic) while the application queries; a run gives what each query returned, with the
  name of its counter.
\<close>

datatype traffic = Add string int | Query string string

fun traffic_run :: "traffic list \<Rightarrow> stats \<Rightarrow> (string \<times> int) list \<times> stats" where
  "traffic_run [] m = ([], m)"
| "traffic_run (Add k n # ts) m = traffic_run ts (case m k of None \<Rightarrow> m | Some c \<Rightarrow> m(k \<mapsto> wrap64 (c + n)))"
| "traffic_run (Query tag direct # ts) m =
     (case QueryStats (Some m) tag direct of (n, m1) \<Rightarrow>
       (case traffic_run ts (the m1) of (ns, m2) \<Rightarrow> ((counter_name tag direct, n) # ns, m2)))"

fun added :: "string \<Rightarrow> traffic list \<Rightarrow> int" where
  "added k [] = 0"
| "added k (Add k' n # ts) = (if k' = k then n else 0) + added k ts"
| "added k (Query _ _ # ts) = added k ts"

fun upload :: "traffic \<Rightarrow> bool" where
  "upload (Add _ n) = (0 \<le> n)"
| "upload _ = True"

definition returned :: "string \<Rightarrow> (string \<times> int) list \<Rightarrow> int" where
  "returned k ns = sum_list (map snd (filter (\<lambda>(k', _). k' = k) ns))"

lemma added_nonneg: "list_all upload ts \<Longrightarrow> 0 \<le> added k ts"
  by (induction k ts rule: added.induct) auto

text \<open>
  C40: reading the counters loses no traffic and counts none twice. However the application interleaves its queries with the traffic
  of the core, what the queries of a counter returned and what the counter still holds add up to what it held and all that was added,
  as long as that fits an int64.
\<close>

theorem QueryStats_conserves:
  assumes "m k = Some c" and "0 \<le> c" and "list_all upload ts" and "c + added k ts < 2 ^ 63" and "traffic_run ts m = (ns, m')"
  shows "\<exists>c'. m' k = Some c' \<and> returned k ns + c' = c + added k ts"
  using assms
proof (induction ts arbitrary: m c ns)
  case Nil
  then show ?case by (simp add: returned_def)
next
  case (Cons t ts)
  note nn = added_nonneg[of ts k]
  show ?case
  proof (cases t)
    case (Add k' n)
    let ?m1 = "case m k' of None \<Rightarrow> m | Some x \<Rightarrow> m(k' \<mapsto> wrap64 (x + n))"
    let ?c1 = "if k' = k then c + n else c"
    have "in_int64 (c + n)" if "k' = k" using Cons.prems(2-4) Add nn that by (auto simp: in_int64_def)
    then have "?m1 k = Some ?c1" using Cons.prems(1) by (auto split: option.splits)
    moreover have "0 \<le> ?c1" "list_all upload ts" "?c1 + added k ts < 2 ^ 63" "traffic_run ts ?m1 = (ns, m')"
      using Cons.prems Add by auto
    ultimately obtain c' where "m' k = Some c' \<and> returned k ns + c' = ?c1 + added k ts" using Cons.IH by blast
    then show ?thesis using Add by auto
  next
    case (Query tag direct)
    let ?q = "counter_name tag direct"
    obtain n m1 ns1 where q: "QueryStats (Some m) tag direct = (n, Some m1)" "traffic_run ts m1 = (ns1, m')" "ns = (?q, n) # ns1"
      using Cons.prems(5) Query by (auto simp: QueryStats_def split: option.splits prod.splits)
    let ?c1 = "if ?q = k then 0 else c"
    have m1: "m1 k = Some ?c1" and n: "?q = k \<Longrightarrow> n = c" using q(1) Cons.prems(1) by (auto simp: QueryStats_def split: option.splits)
    moreover have "0 \<le> ?c1" "list_all upload ts" "?c1 + added k ts < 2 ^ 63" using Cons.prems Query by auto
    ultimately obtain c' where "m' k = Some c' \<and> returned k ns1 + c' = ?c1 + added k ts" using Cons.IH q(2) by blast
    then show ?thesis using Query q(3) n by (auto simp: returned_def)
  qed
qed

theorem QueryStats_conserves_witness:
  "returned ''outbound>>>p>>>traffic>>>up'' (fst (traffic_run [Add ''outbound>>>p>>>traffic>>>up'' 5, Query ''p'' ''up'',
     Add ''outbound>>>p>>>traffic>>>up'' 7, Query ''p'' ''up'', Query ''p'' ''down''] ((\<lambda>_. None)(''outbound>>>p>>>traffic>>>up'' \<mapsto> 1)))) = 13"
proof -
  let ?k = "''outbound>>>p>>>traffic>>>up''"
  let ?ts = "[Add ?k 5, Query ''p'' ''up'', Add ?k 7, Query ''p'' ''up'', Query ''p'' ''down'']"
  let ?m = "(\<lambda>_. None)(?k \<mapsto> 1)"
  have z: "snd (traffic_run ?ts ?m) ?k = Some 0" by code_simp
  have "traffic_run ?ts ?m = (fst (traffic_run ?ts ?m), snd (traffic_run ?ts ?m))" by simp
  from QueryStats_conserves[OF _ _ _ _ this, of ?k 1] z show ?thesis by simp
qed

section \<open>When the calls panic\<close>

text \<open>
  GetDataFromWeb crashes exactly on a GET whose URL is refused. It panics if and only if the proxy is usable, the request is a GET
  and no request can be made from the URL; every other failure, of the proxy, the URL of a POST, the network or the body, comes back as a
  result with an error and no body.
\<close>

theorem GetDataFromWeb_panics_iff:
  "(GetDataFromWeb env url d p t sscrt is_post cf = Panic
     \<longleftrightarrow> (p = [] \<or> we_url_parse env p = None) \<and> is_post = False \<and> we_new_request env ''GET'' url \<noteq> None)
   \<and> (case GetDataFromWeb env url d p t sscrt is_post cf of Panic \<Rightarrow> True
       | Ret r \<Rightarrow> wb_RespError r = None \<or> wb_RespBody r = [])"
  by (cases is_post) (auto simp: GetDataFromWeb_def web_build_def web_answer_def web_error_def Let_def split: option.splits sum.splits)

end
