(* ===== verification/Support.thy ===== *)
theory Support
  imports Go_Net "HOL-Library.Multiset"
begin

text \<open>
  \<^verbatim>\<open>libv2ray_support.go\<close>: the dialer that the core uses on Android. It caches the addresses of the
  proxy server (\<open>resolved\<close>), rotates through them when a connection fails (\<open>NextIP\<close>), and opens sockets that
  the VPN service protects (\<open>fdConn\<close>). The resolver, the clock, the VPN service and the kernel are
  outside: their answers are arguments. \<open>fdConn\<close> and \<open>Dial\<close> also return the system calls they made, in order,
  so that what happens to the descriptor can be stated. Each operation is atomic here, as the
  mutex of \<^verbatim>\<open>resolved\<close> makes \<open>NextIP\<close> and \<open>currentIP\<close>.
\<close>

section \<open>The cached server\<close>

record resolved =
  rs_domain :: string
  rs_IPs :: "ip list"
  rs_Port :: int
  rs_lastResolved :: gotime
  rs_ipIdx :: "8 word"
  rs_lastSwitched :: gotime

definition NextIP :: "gotime \<Rightarrow> resolved \<Rightarrow> resolved gocall" where
  "NextIP now r =
     (if length (rs_IPs r) > 1 then
        if time_sub now (rs_lastSwitched r) < 5 * second then Ret r
        else let r1 = r\<lparr>rs_lastSwitched := now, rs_ipIdx := rs_ipIdx r + 1\<rparr>;
                 r2 = (if rs_ipIdx r1 \<ge> of_nat (length (rs_IPs r1)) then r1\<lparr>rs_ipIdx := 0\<rparr> else r1)
             in (case go_index (rs_IPs r2) (unat (rs_ipIdx r2)) of Panic \<Rightarrow> Panic | Ret _ \<Rightarrow> Ret r2)
      else Ret r)"

definition currentIP :: "resolved option \<Rightarrow> ip option gocall" where
  "currentIP r =
     (case r of None \<Rightarrow> Ret None
      | Some r' \<Rightarrow>
          if rs_IPs r' = [] then Ret None
          else (case go_index (rs_IPs r') (unat (rs_ipIdx r')) of Panic \<Rightarrow> Panic | Ret a \<Rightarrow> Ret (Some a)))"

section \<open>Resolving\<close>

record ProtectedDialer =
  pd_currentServer :: string
  pd_preferIPv6 :: bool
  pd_vServer :: "resolved option"

definition NewPreotectedDialer :: ProtectedDialer where
  "NewPreotectedDialer = \<lparr>pd_currentServer = [], pd_preferIPv6 = False, pd_vServer = None\<rparr>"

definition IsVServerReady :: "ProtectedDialer \<Rightarrow> bool" where
  "IsVServerReady d = (pd_vServer d \<noteq> None)"

text \<open>What one call of the resolver answers: the port, the addresses, and the time when it is done.\<close>

record lookup_env =
  le_port :: "string \<Rightarrow> int res"
  le_ips :: "string \<Rightarrow> ip list res"
  le_now :: gotime

definition lookupAddr :: "lookup_env \<Rightarrow> ProtectedDialer \<Rightarrow> string \<Rightarrow> resolved res" where
  "lookupAddr env d addr =
     (case split_host_port addr of Inl err \<Rightarrow> Inl err
      | Inr (host, port) \<Rightarrow>
      (case le_port env port of Inl err \<Rightarrow> Inl err
      | Inr portnum \<Rightarrow>
      (case le_ips env host of Inl err \<Rightarrow> Inl err
      | Inr addrs \<Rightarrow>
          if length addrs = 0 then Inl (Errorf ''domain %s Failed to resolve'' [S addr])
          else
            let IPs0 = (if pd_preferIPv6 d then filter (\<lambda>ia. To4 ia = None) addrs else []);
                IPs1 = IPs0 @ filter (\<lambda>ia. To4 ia \<noteq> None) addrs;
                IPs2 = (if \<not> pd_preferIPv6 d then IPs1 @ filter (\<lambda>ia. To4 ia = None) addrs else IPs1)
            in Inr \<lparr>rs_domain = host, rs_IPs = IPs2, rs_Port = portnum, rs_lastResolved = le_now env,
                    rs_ipIdx = 0, rs_lastSwitched = 0\<rparr>)))"

text \<open>
  The loop of \<^verbatim>\<open>PrepareDomain\<close>. \<open>envs i\<close> is what the resolver answers to lookup \<open>i\<close>, \<open>closed i\<close> whether the close
  channel (rather than the two-second timer) ends the wait after it. The result is the number of
  lookups made and the record of the first that succeeded.
\<close>

fun prepare_loop :: "(nat \<Rightarrow> lookup_env) \<Rightarrow> (nat \<Rightarrow> bool) \<Rightarrow> ProtectedDialer \<Rightarrow> string \<Rightarrow> nat \<Rightarrow> nat
    \<Rightarrow> nat \<times> resolved option" where
  "prepare_loop envs closed d domainName 0 i = (i, None)"
| "prepare_loop envs closed d domainName (Suc maxRetry) i =
     (case lookupAddr (envs i) d domainName of
        Inr r \<Rightarrow> (Suc i, Some r)
      | Inl err \<Rightarrow> if closed i then (Suc i, None)
                  else prepare_loop envs closed d domainName maxRetry (Suc i))"

definition begin_prepare :: "string \<Rightarrow> bool \<Rightarrow> ProtectedDialer \<Rightarrow> ProtectedDialer" where
  "begin_prepare domainName prefIPv6 d = d\<lparr>pd_currentServer := domainName, pd_preferIPv6 := prefIPv6\<rparr>"

definition PrepareDomain :: "(nat \<Rightarrow> lookup_env) \<Rightarrow> (nat \<Rightarrow> bool) \<Rightarrow> string \<Rightarrow> bool
    \<Rightarrow> ProtectedDialer \<Rightarrow> ProtectedDialer" where
  "PrepareDomain envs closed domainName prefIPv6 d =
     (let d1 = begin_prepare domainName prefIPv6 d in
      case snd (prepare_loop envs closed d1 domainName 10 0) of
        None \<Rightarrow> d1
      | Some r \<Rightarrow> d1\<lparr>pd_vServer := Some r\<rparr>)"

section \<open>Sockets\<close>

datatype network = Network_TCP | Network_UDP | Network_Unknown

text \<open>The system calls, with the descriptor they are made on.\<close>

datatype syscall =
    Socket network int
  | Protect int
  | Bind int
  | Connect int "ip option" int
  | NewFile int
  | FileConn int
  | FileClose int
  | CloseFd int

datatype conn = TCPConn "ip option" int | PacketConnWrapper "ip option" int

text \<open>What the kernel and the VPN service answer to the calls of one dial.\<close>

record sock_env =
  se_socket :: "network \<Rightarrow> int res"
  se_protect :: "int \<Rightarrow> bool"
  se_bind :: "int \<Rightarrow> go_error option"
  se_connect :: "int \<Rightarrow> go_error option"
  se_newfile :: "int \<Rightarrow> bool"
  se_fileconn :: "int \<Rightarrow> go_error option"
  se_now :: gotime

definition getFd :: "sock_env \<Rightarrow> network \<Rightarrow> int res" where
  "getFd env net =
     (case net of
        Network_TCP \<Rightarrow> se_socket env Network_TCP
      | Network_UDP \<Rightarrow> se_socket env Network_UDP
      | Network_Unknown \<Rightarrow> Inl (Errorf ''unknow network'' []))"

definition fdConn :: "sock_env \<Rightarrow> ip option \<Rightarrow> int \<Rightarrow> int \<Rightarrow> network \<Rightarrow> conn res \<times> syscall list" where
  "fdConn env a port fd net =
     (if \<not> se_protect env fd then (Inl (Errorf ''fail to protect'' []), [Protect fd, CloseFd fd])
      else
        let addr16 = (case a of None \<Rightarrow> None | Some x \<Rightarrow> To16 x);
            (err, tr) = (if net = Network_UDP then (se_bind env fd, [Protect fd, Bind fd])
                         else (se_connect env fd, [Protect fd, Connect fd addr16 port]))
        in case err of
             Some e \<Rightarrow> (Inl e, tr @ [CloseFd fd])
           | None \<Rightarrow>
               if \<not> se_newfile env fd then (Inl (Errorf ''fdConn fd invalid'' []), tr @ [NewFile fd, CloseFd fd])
               else case se_fileconn env fd of
                   Some e \<Rightarrow> (Inl e, tr @ [NewFile fd, FileConn fd, FileClose fd, CloseFd fd])
                 | None \<Rightarrow>
                     (Inr (if net = Network_UDP then PacketConnWrapper a port else TCPConn a port),
                      tr @ [NewFile fd, FileConn fd, FileClose fd, CloseFd fd]))"

text \<open>
  \<^verbatim>\<open>Dial\<close>. \<open>waited\<close> is the server record another goroutine has stored by the time the resolve channel is
  closed, read only when none was there before. The result is the connection, the new dialer and the
  system calls.
\<close>

definition Dial :: "lookup_env \<Rightarrow> sock_env \<Rightarrow> resolved option \<Rightarrow> ProtectedDialer \<Rightarrow> network \<Rightarrow> string
    \<Rightarrow> (conn res \<times> ProtectedDialer \<times> syscall list) gocall" where
  "Dial lenv env waited d net Address =
     (if Address = pd_currentServer d then
        let d1 = (if pd_vServer d = None then d\<lparr>pd_vServer := waited\<rparr> else d) in
        case pd_vServer d1 of
          None \<Rightarrow> Ret (Inl (Errorf ''fail to prepare domain %s'' [S (pd_currentServer d)]), d1, [])
        | Some srv \<Rightarrow>
            (case getFd env net of
               Inl err \<Rightarrow> Ret (Inl err, d1, [])
             | Inr fd \<Rightarrow>
                 (case currentIP (Some srv) of
                    Panic \<Rightarrow> Panic
                  | Ret curIP \<Rightarrow>
                      (case fdConn env curIP (rs_Port srv) fd net of
                         (Inl err, tr) \<Rightarrow>
                           (case NextIP (se_now env) srv of
                              Panic \<Rightarrow> Panic
                            | Ret srv' \<Rightarrow> Ret (Inl err, d1\<lparr>pd_vServer := Some srv'\<rparr>, Socket net fd # tr))
                       | (Inr c, tr) \<Rightarrow> Ret (Inr c, d1, Socket net fd # tr))))
      else
        (case lookupAddr lenv d Address of
           Inl err \<Rightarrow> Ret (Inl err, d, [])
         | Inr r \<Rightarrow>
             (case getFd env net of
                Inl err \<Rightarrow> Ret (Inl err, d, [])
              | Inr fd \<Rightarrow>
                  (case go_index (rs_IPs r) 0 of
                     Panic \<Rightarrow> Panic
                   | Ret a \<Rightarrow> (case fdConn env (Some a) (rs_Port r) fd net of
                                (c, tr) \<Rightarrow> Ret (c, d, Socket net fd # tr))))))"

definition DestIpAddress :: "ProtectedDialer option \<Rightarrow> ip option gocall" where
  "DestIpAddress d =
     (case d of None \<Rightarrow> Ret None
      | Some d' \<Rightarrow> (case pd_vServer d' of None \<Rightarrow> Ret None | Some r \<Rightarrow> currentIP (Some r)))"

section \<open>The address cache as an interface\<close>

text \<open>
  What a dialer needs from the cache: under the invariant the current address exists and is one of
  the resolved ones, and switching neither panics nor changes the set of addresses.
\<close>

fun run_next :: "(gotime \<Rightarrow> 'r \<Rightarrow> 'r gocall) \<Rightarrow> gotime list \<Rightarrow> 'r \<Rightarrow> 'r gocall" where
  "run_next nxt [] r = Ret r"
| "run_next nxt (t # ts) r = (case nxt t r of Panic \<Rightarrow> Panic | Ret r' \<Rightarrow> run_next nxt ts r')"

locale address_cache =
  fixes inv :: "'r \<Rightarrow> bool"
    and current :: "'r \<Rightarrow> 'a option gocall"
    and nxt :: "gotime \<Rightarrow> 'r \<Rightarrow> 'r gocall"
    and addrs :: "'r \<Rightarrow> 'a list"
  assumes current_in: "inv r \<Longrightarrow> \<exists>a. current r = Ret (Some a) \<and> a \<in> set (addrs r)"
    and nxt_keeps: "inv r \<Longrightarrow> \<exists>r'. nxt t r = Ret r' \<and> inv r' \<and> addrs r' = addrs r"
begin

lemma run_safe:
  "inv r \<Longrightarrow> \<exists>r'. run_next nxt ts r = Ret r' \<and> inv r' \<and> addrs r' = addrs r"
proof (induction ts arbitrary: r)
  case (Cons t ts)
  obtain r1 where r1: "nxt t r = Ret r1" "inv r1" "addrs r1 = addrs r" using nxt_keeps[OF Cons.prems] by blast
  with Cons.IH[OF r1(2)] show ?case by auto
qed simp

lemma run_current:
  assumes "inv r"
  shows "\<exists>r' a. run_next nxt ts r = Ret r' \<and> current r' = Ret (Some a) \<and> a \<in> set (addrs r)"
proof -
  obtain r' where r': "run_next nxt ts r = Ret r'" "inv r'" "addrs r' = addrs r" using run_safe[OF assms] by blast
  with current_in[OF r'(2)] show ?thesis by auto
qed

end

definition resolved_ok :: "resolved \<Rightarrow> bool" where
  "resolved_ok r \<longleftrightarrow> unat (rs_ipIdx r) < length (rs_IPs r)"

lemma unat_of_nat8: "unat (of_nat n :: 8 word) = n mod 256"
  by (simp add: unat_of_nat)

lemma unat_plus8: "unat (w + 1 :: 8 word) = (unat w + 1) mod 256"
  by (simp add: unat_word_ariths)

lemma next_index:
  assumes "1 < length (rs_IPs r)" and "5 * second \<le> time_sub now (rs_lastSwitched r)"
  shows "\<exists>r'. NextIP now r = Ret r' \<and> rs_IPs r' = rs_IPs r \<and> rs_lastSwitched r' = now
    \<and> unat (rs_ipIdx r') = (let j = (unat (rs_ipIdx r) + 1) mod 256 in if j < length (rs_IPs r) mod 256 then j else 0)
    \<and> resolved_ok r'"
proof -
  have "rs_ipIdx r + 1 \<ge> of_nat (length (rs_IPs r))
      \<longleftrightarrow> length (rs_IPs r) mod 256 \<le> (unat (rs_ipIdx r) + 1) mod 256"
    by (simp add: word_le_nat_alt unat_of_nat8 unat_plus8)
  moreover have "length (rs_IPs r) mod 256 \<le> length (rs_IPs r)" by simp
  moreover have "(rs_IPs r = []) = False" using assms(1) by auto
  ultimately show ?thesis
    using assms by (auto simp: NextIP_def go_index_def resolved_ok_def unat_plus8 Let_def)
qed

lemma NextIP_safe: "resolved_ok r \<Longrightarrow> \<exists>r'. NextIP now r = Ret r' \<and> resolved_ok r' \<and> rs_IPs r' = rs_IPs r"
proof -
  assume ok: "resolved_ok r"
  show ?thesis
  proof (cases "1 < length (rs_IPs r) \<and> 5 * second \<le> time_sub now (rs_lastSwitched r)")
    case True
    then show ?thesis using next_index[of r now] by blast
  next
    case False
    then have "NextIP now r = Ret r" by (auto simp: NextIP_def)
    with ok show ?thesis by simp
  qed
qed

lemma currentIP_safe: "resolved_ok r \<Longrightarrow> \<exists>a. currentIP (Some r) = Ret (Some a) \<and> a \<in> set (rs_IPs r)"
  by (auto simp: currentIP_def resolved_ok_def go_index_def)

interpretation rcache: address_cache resolved_ok "\<lambda>r. currentIP (Some r)" NextIP rs_IPs
  by unfold_locales (auto simp: currentIP_safe NextIP_safe)

text \<open>
  Switching addresses is memory-safe for every number of addresses, 256 and more included, where
  the 8-bit index wraps: after any sequence of switches from a fresh resolution, at any times, nothing
  has panicked and the current address is one of the resolved ones.
\<close>

theorem rotation_safe:
  assumes "resolved_ok r"
  shows "\<exists>r' a. run_next NextIP ts r = Ret r' \<and> currentIP (Some r') = Ret (Some a) \<and> a \<in> set (rs_IPs r)"
  using assms by (rule rcache.run_current)

definition demo_resolved :: resolved where
  "demo_resolved = \<lparr>rs_domain = ''a'', rs_IPs = [[1, 1, 1, 1], [2, 2, 2, 2]], rs_Port = 443, rs_lastResolved = 0,
     rs_ipIdx = 0, rs_lastSwitched = 0\<rparr>"

theorem rotation_safe_witness:
  "\<exists>r' a. run_next NextIP [6000000000, 6000000001, 20000000000] demo_resolved = Ret r'
     \<and> currentIP (Some r') = Ret (Some a) \<and> a \<in> {[1, 1, 1, 1], [2, 2, 2, 2]}"
  using rotation_safe[of demo_resolved "[6000000000, 6000000001, 20000000000]"]
  by (simp add: demo_resolved_def resolved_ok_def)

text \<open>Switches that the throttle lets through: each at least five seconds after the one before.\<close>

fun spaced :: "gotime \<Rightarrow> gotime list \<Rightarrow> bool" where
  "spaced lst [] = True"
| "spaced lst (t # ts) = (5 * second \<le> time_sub t lst \<and> spaced t ts)"

text \<open>
  C34: with 2 to 255 addresses, failures at least five seconds apart walk round-robin through all of
  them: after k switches the index is the start index plus k modulo the number of addresses, so every
  address is tried again after as many failures as there are addresses.
\<close>

theorem rotation_round_robin:
  assumes "resolved_ok r" and "2 \<le> length (rs_IPs r)" and "length (rs_IPs r) \<le> 255"
    and "spaced (rs_lastSwitched r) ts"
  shows "\<exists>r'. run_next NextIP ts r = Ret r' \<and> rs_IPs r' = rs_IPs r
    \<and> unat (rs_ipIdx r') = (unat (rs_ipIdx r) + length ts) mod length (rs_IPs r)"
  using assms
proof (induction ts arbitrary: r)
  case Nil
  then show ?case by (simp add: resolved_ok_def)
next
  case (Cons t ts)
  let ?n = "length (rs_IPs r)"
  obtain r1 where r1: "NextIP t r = Ret r1" "rs_IPs r1 = rs_IPs r" "rs_lastSwitched r1 = t" "resolved_ok r1"
    and i: "unat (rs_ipIdx r1) = (let j = (unat (rs_ipIdx r) + 1) mod 256 in if j < ?n mod 256 then j else 0)"
    using next_index[of r t] Cons.prems by auto
  have "unat (rs_ipIdx r) < ?n" using Cons.prems(1) by (simp add: resolved_ok_def)
  then have idx: "unat (rs_ipIdx r1) = (unat (rs_ipIdx r) + 1) mod ?n"
    using i Cons.prems(2,3) by (auto simp: Let_def mod_if)
  obtain r2 where r2: "run_next NextIP ts r1 = Ret r2" "rs_IPs r2 = rs_IPs r1"
    "unat (rs_ipIdx r2) = (unat (rs_ipIdx r1) + length ts) mod ?n"
    using Cons.IH[of r1] r1 Cons.prems by auto
  have "(unat (rs_ipIdx r1) + length ts) mod ?n = (unat (rs_ipIdx r) + length (t # ts)) mod ?n"
    unfolding idx by (simp add: mod_add_left_eq add.assoc)
  with r1 r2 show ?case by simp
qed

theorem rotation_round_robin_witness:
  "\<exists>r'. run_next NextIP [6000000000, 12000000000, 18000000000] demo_resolved = Ret r' \<and> unat (rs_ipIdx r') = 1"
  using rotation_round_robin[of demo_resolved "[6000000000, 12000000000, 18000000000]"]
  by (auto simp: demo_resolved_def resolved_ok_def time_sub_def mod_Suc)

text \<open>
  C35: with exactly 256 addresses the 8-bit conversion of the length is 0 and the cache never leaves
  the first address, however often the connection fails.
\<close>

theorem rotation_stuck_at_256:
  assumes "length (rs_IPs r) = 256" and "rs_ipIdx r = 0"
  shows "\<exists>r'. run_next NextIP ts r = Ret r' \<and> rs_ipIdx r' = 0"
  using assms
proof (induction ts arbitrary: r)
  case (Cons t ts)
  obtain r1 where "NextIP t r = Ret r1" "rs_IPs r1 = rs_IPs r" "rs_ipIdx r1 = 0"
  proof (cases "5 * second \<le> time_sub t (rs_lastSwitched r)")
    case True
    then show ?thesis using next_index[of r t] Cons.prems that by (auto simp: Let_def unat_eq_0)
  next
    case False
    then show ?thesis using Cons.prems that by (auto simp: NextIP_def)
  qed
  with Cons show ?case by simp
qed simp

theorem rotation_stuck_at_256_witness:
  "\<exists>r'. run_next NextIP [6000000000, 12000000000] (demo_resolved\<lparr>rs_IPs := replicate 256 [1, 1, 1, 1]\<rparr>) = Ret r'
     \<and> rs_ipIdx r' = 0"
  by (rule rotation_stuck_at_256) (simp_all add: demo_resolved_def)

section \<open>Resolution\<close>

definition is_v4 :: "ip \<Rightarrow> bool" where "is_v4 a = (To4 a \<noteq> None)"

lemma mset_partition: "mset (filter P xs @ filter (\<lambda>x. \<not> P x) xs) = mset xs"
  by (induction xs) auto

text \<open>
  A resolution keeps every address the resolver returned, each as often as it was returned, puts
  the preferred family first and keeps the resolver's order within a family; the record it makes is
  ready to use (there is a current address and it is the first one).
\<close>

theorem lookupAddr_order:
  assumes "lookupAddr env d addr = Inr r" and "split_host_port addr = Inr (host, port)"
    and "le_ips env host = Inr addrs"
  shows "mset (rs_IPs r) = mset addrs
    \<and> rs_IPs r = (if pd_preferIPv6 d then filter (\<lambda>a. \<not> is_v4 a) addrs @ filter is_v4 addrs
                   else filter is_v4 addrs @ filter (\<lambda>a. \<not> is_v4 a) addrs)
    \<and> resolved_ok r \<and> currentIP (Some r) = Ret (Some (hd (rs_IPs r)))"
proof -
  have e: "is_v4 = (\<lambda>a. To4 a \<noteq> None)" by (auto simp: is_v4_def)
  from assms have ne: "addrs \<noteq> []"
    and ips: "rs_IPs r = (if pd_preferIPv6 d then filter (\<lambda>a. \<not> is_v4 a) addrs @ filter is_v4 addrs
                   else filter is_v4 addrs @ filter (\<lambda>a. \<not> is_v4 a) addrs)" and idx: "rs_ipIdx r = 0"
    by (auto simp: lookupAddr_def e Let_def split: sum.splits if_splits)
  have m: "mset (rs_IPs r) = mset addrs"
    using mset_partition[of is_v4 addrs] by (simp add: ips add.commute)
  then have "rs_IPs r \<noteq> []" using ne by auto
  then show ?thesis
    using m ips idx by (auto simp: resolved_ok_def currentIP_def go_index_def hd_conv_nth)
qed

definition demo_env :: lookup_env where
  "demo_env = \<lparr>le_port = (\<lambda>_. Inr 443), le_ips = (\<lambda>_. Inr [[9, 9, 9, 9], replicate 16 7]), le_now = 5\<rparr>"

theorem lookupAddr_order_witness:
  "\<exists>r. lookupAddr demo_env (NewPreotectedDialer\<lparr>pd_preferIPv6 := True\<rparr>) ''a:443'' = Inr r
     \<and> rs_IPs r = [replicate 16 7, [9, 9, 9, 9]]"
proof -
  let ?d = "NewPreotectedDialer\<lparr>pd_preferIPv6 := True\<rparr>"
  have s: "split_host_port ''a:443'' = Inr (''a'', ''443'')" by code_simp
  have i: "le_ips demo_env ''a'' = Inr [[9, 9, 9, 9], replicate 16 7]" by (simp add: demo_env_def)
  have v: "is_v4 [9, 9, 9, 9]" "\<not> is_v4 (replicate 16 7)" by code_simp+
  obtain r where r: "lookupAddr demo_env ?d ''a:443'' = Inr r"
    using s by (simp add: lookupAddr_def demo_env_def)
  have "rs_IPs r = [replicate 16 7, [9, 9, 9, 9]]"
    using lookupAddr_order[OF r s i] v by (simp add: NewPreotectedDialer_def)
  with r show ?thesis by blast
qed

text \<open>When the loop gives up, every one of its lookups failed; there are at most ten.\<close>

lemma prepare_loop_result:
  assumes "prepare_loop envs closed d name m i = (k, res)"
  shows "k \<le> i + m
    \<and> (\<forall>j. i \<le> j \<and> Suc j < k \<longrightarrow> \<not> is_ok (lookupAddr (envs j) d name) \<and> \<not> closed j)
    \<and> (case res of Some r \<Rightarrow> i < k \<and> lookupAddr (envs (k - 1)) d name = Inr r
       | None \<Rightarrow> (\<forall>j. i \<le> j \<and> j < k \<longrightarrow> \<not> is_ok (lookupAddr (envs j) d name))
                 \<and> (k = i + m \<or> (i < k \<and> closed (k - 1))))"
  using assms
proof (induction m arbitrary: i)
  case (Suc m)
  show ?case
  proof (cases "lookupAddr (envs i) d name")
    case (Inr r)
    then show ?thesis using Suc.prems by auto
  next
    case (Inl err)
    show ?thesis
    proof (cases "closed i")
      case True
      then show ?thesis using Suc.prems Inl by (auto dest: le_antisym)
    next
      case False
      then have rec: "prepare_loop envs closed d name m (Suc i) = (k, res)" using Suc.prems Inl by simp
      have "\<not> is_ok (lookupAddr (envs i) d name)" using Inl by simp
      moreover have "i \<le> j \<longleftrightarrow> j = i \<or> Suc i \<le> j" for j by auto
      ultimately show ?thesis
        using Suc.IH[OF rec] False by (auto split: option.splits)
    qed
  qed
qed auto

text \<open>
  C36: preparing a domain always comes to an end, after at most ten lookups. If the k-th lookup is the
  first to succeed and the core was not closed while waiting, its record becomes the cached server;
  if all ten fail the cache is left as it was.
\<close>

theorem PrepareDomain_result:
  assumes "d1 = begin_prepare name pref d"
  shows "fst (prepare_loop envs closed d1 name 10 0) \<le> 10
    \<and> (k < 10 \<and> (\<forall>j < k. \<not> is_ok (lookupAddr (envs j) d1 name) \<and> \<not> closed j) \<and> lookupAddr (envs k) d1 name = Inr r
        \<longrightarrow> PrepareDomain envs closed name pref d = d1\<lparr>pd_vServer := Some r\<rparr>)
    \<and> ((\<forall>j < 10. \<not> is_ok (lookupAddr (envs j) d1 name))
        \<longrightarrow> PrepareDomain envs closed name pref d = d1)"
proof -
  obtain n res where p: "prepare_loop envs closed d1 name 10 0 = (n, res)" by fastforce
  note R = prepare_loop_result[OF p]
  have a: "n \<le> 10" using R by simp
  have b: "res = Some r"
    if h: "k < 10" "\<forall>j < k. \<not> is_ok (lookupAddr (envs j) d1 name) \<and> \<not> closed j" "lookupAddr (envs k) d1 name = Inr r"
  proof (cases res)
    case None
    have "n \<le> k" using R None h(3) by (metis (no_types, lifting) is_ok.simps(1) leI option.simps(4) zero_le)
    with R None h(1,2) show ?thesis by auto
  next
    case (Some r')
    then have n: "0 < n" "lookupAddr (envs (n - 1)) d1 name = Inr r'" using R by auto
    have "k < n" by (rule ccontr) (use n h(2) in \<open>force dest: spec[of _ "n - 1"]\<close>)
    moreover have "\<not> Suc k < n" using R h(3) by auto
    ultimately have "n - 1 = k" by simp
    with n h(3) Some show ?thesis by simp
  qed
  have c: "res = None" if "\<forall>j < 10. \<not> is_ok (lookupAddr (envs j) d1 name)"
  proof (rule ccontr)
    assume "res \<noteq> None"
    then obtain r' where "0 < n" "lookupAddr (envs (n - 1)) d1 name = Inr r'" using R by auto
    moreover have "n - 1 < 10" using a \<open>0 < n\<close> by simp
    ultimately show False using that by force
  qed
  show ?thesis using a b c p assms by (auto simp: PrepareDomain_def Let_def)
qed

theorem PrepareDomain_result_witness:
  "pd_vServer (PrepareDomain (\<lambda>i. demo_env\<lparr>le_ips := \<lambda>_. if i < 3 then Inl (ExtErr ''down'') else Inr [[9, 9, 9, 9]]\<rparr>)
      (\<lambda>_. False) ''a:443'' False NewPreotectedDialer)
   = Some \<lparr>rs_domain = ''a'', rs_IPs = [[9, 9, 9, 9]], rs_Port = 443, rs_lastResolved = 5, rs_ipIdx = 0,
           rs_lastSwitched = 0\<rparr>"
proof -
  define envs where
    "envs = (\<lambda>i :: nat. demo_env\<lparr>le_ips := \<lambda>_. if i < 3 then Inl (ExtErr ''down'') else Inr [[9, 9, 9, 9]]\<rparr>)"
  let ?r = "\<lparr>rs_domain = ''a'', rs_IPs = [[9, 9, 9, 9]], rs_Port = 443, rs_lastResolved = 5, rs_ipIdx = 0,
           rs_lastSwitched = 0\<rparr>"
  have s: "split_host_port ''a:443'' = Inr (''a'', ''443'')" by code_simp
  have l: "lookupAddr (envs j) d ''a:443'' = (if j < 3 then Inl (ExtErr ''down'') else Inr ?r)" for j d
    by (simp add: lookupAddr_def s demo_env_def To4_def Let_def envs_def)
  show ?thesis
    using PrepareDomain_result[OF refl, where k = 3 and r = ?r and envs = envs and closed = "\<lambda>_. False"
        and name = "''a:443''" and pref = False and d = NewPreotectedDialer]
    unfolding envs_def[symmetric] by (simp add: l)
qed

section \<open>Dialing\<close>

text \<open>The descriptors a list of system calls closes.\<close>

fun closes :: "int \<Rightarrow> syscall list \<Rightarrow> nat" where
  "closes fd [] = 0"
| "closes fd (CloseFd f # tr) = (if f = fd then 1 else 0) + closes fd tr"
| "closes fd (FileClose f # tr) = (if f = fd then 1 else 0) + closes fd tr"
| "closes fd (_ # tr) = closes fd tr"

text \<open>No connect and no bind before the VPN service has been asked to protect the descriptor.\<close>

fun protected_first :: "syscall list \<Rightarrow> bool" where
  "protected_first [] = True"
| "protected_first (Protect _ # tr) = True"
| "protected_first (Connect _ _ _ # tr) = False"
| "protected_first (Bind _ # tr) = False"
| "protected_first (_ # tr) = protected_first tr"

definition dialer_ok :: "ProtectedDialer \<Rightarrow> bool" where
  "dialer_ok d = (case pd_vServer d of None \<Rightarrow> True | Some r \<Rightarrow> resolved_ok r)"

lemma fdConn_trace:
  assumes "fdConn env a port fd net = (c, tr)"
  shows "protected_first (Socket net fd # tr)
    \<and> closes fd (Socket net fd # tr) = (if NewFile fd \<in> set tr \<and> se_newfile env fd then 2 else 1)
    \<and> (is_ok c \<longrightarrow> se_protect env fd \<and> closes fd (Socket net fd # tr) = 2)
    \<and> (\<forall>g. Socket net g \<notin> set tr)"
  using assms by (auto simp: fdConn_def Let_def split: if_splits option.splits)

lemma lookupAddr_resolved_ok: "lookupAddr env d addr = Inr r \<Longrightarrow> resolved_ok r"
proof -
  assume h: "lookupAddr env d addr = Inr r"
  then obtain host port addrs where "split_host_port addr = Inr (host, port)" "le_ips env host = Inr addrs"
    by (auto simp: lookupAddr_def split: sum.splits)
  then have ne: "addrs \<noteq> []" and "rs_ipIdx r = 0" and
    "mset (rs_IPs r) = mset (filter (\<lambda>a. To4 a = None) addrs @ filter (\<lambda>a. \<not> To4 a = None) addrs)"
    using h by (auto simp: lookupAddr_def Let_def split: sum.splits if_splits)
  then have "mset (rs_IPs r) = mset addrs" using mset_partition[of "\<lambda>a. To4 a = None" addrs] by simp
  then show ?thesis using ne \<open>rs_ipIdx r = 0\<close> by (auto simp: resolved_ok_def)
qed

lemma Dial_prepared:
  assumes "Address = pd_currentServer d" and "pd_vServer d = Some srv" and "resolved_ok srv"
    and "getFd env net = Inr fd" and "currentIP (Some srv) = Ret (Some a)"
    and "fdConn env (Some a) (rs_Port srv) fd net = (c, tr)"
  shows "\<exists>d'. Dial lenv env waited d net Address = Ret (c, d', Socket net fd # tr) \<and> dialer_ok d'
    \<and> (is_ok c \<longrightarrow> d' = d)"
proof (cases c)
  case (Inl err)
  obtain srv' where "NextIP (se_now env) srv = Ret srv'" "resolved_ok srv'" using NextIP_safe[OF assms(3)] by blast
  with Inl assms show ?thesis by (simp add: Dial_def dialer_ok_def)
next
  case (Inr cc)
  with assms show ?thesis by (simp add: Dial_def dialer_ok_def)
qed

lemma Dial_cases_server:
  assumes "dialer_ok d" and "\<forall>r. waited = Some r \<longrightarrow> resolved_ok r" and "Address = pd_currentServer d"
  shows "\<exists>c d' tr. Dial lenv env waited d net Address = Ret (c, d', tr) \<and> dialer_ok d'
    \<and> (tr = [] \<and> \<not> is_ok c
       \<or> (\<exists>fd a port t. tr = Socket net fd # t \<and> fdConn env (Some a) port fd net = (c, t)))"
proof -
  note True = assms(3)
  let ?d = "if pd_vServer d = None then d\<lparr>pd_vServer := waited\<rparr> else d"
  have D: "Dial lenv env waited d net Address = Dial lenv env waited ?d net Address"
    by (cases "pd_vServer d"; cases waited; simp add: Dial_def Let_def True)
  show ?thesis
  proof (cases "pd_vServer ?d")
    case None
    with True show ?thesis by (cases "pd_vServer d") (auto simp: Dial_def dialer_ok_def)
  next
    case (Some srv)
    then have ok: "resolved_ok srv" using assms by (auto simp: dialer_ok_def split: if_splits)
    obtain a where a: "currentIP (Some srv) = Ret (Some a)" using currentIP_safe[OF ok] by blast
    show ?thesis
    proof (cases "getFd env net")
      case (Inl err)
      with Some True ok show ?thesis
        by (cases "pd_vServer d") (auto simp: Dial_def dialer_ok_def)
    next
      case (Inr fd)
      obtain c tr where f: "fdConn env (Some a) (rs_Port srv) fd net = (c, tr)" by fastforce
      have "Address = pd_currentServer ?d" using True by simp
      from Dial_prepared[OF this Some ok Inr a f, of lenv waited]
      obtain d' where "Dial lenv env waited ?d net Address = Ret (c, d', Socket net fd # tr)" "dialer_ok d'" by blast
      then have "Dial lenv env waited d net Address = Ret (c, d', Socket net fd # tr) \<and> dialer_ok d'"
        by (simp only: D)
      with f show ?thesis by blast
    qed
  qed
qed

lemma Dial_cases_other:
  assumes "dialer_ok d" and "Address \<noteq> pd_currentServer d"
  shows "\<exists>c d' tr. Dial lenv env waited d net Address = Ret (c, d', tr) \<and> dialer_ok d'
    \<and> (tr = [] \<and> \<not> is_ok c
       \<or> (\<exists>fd a port t. tr = Socket net fd # t \<and> fdConn env (Some a) port fd net = (c, t)))"
proof (cases "lookupAddr lenv d Address")
  case (Inl err)
  with assms show ?thesis by (simp add: Dial_def)
next
  case (Inr r)
  have "0 < length (rs_IPs r)" using lookupAddr_resolved_ok[OF Inr] by (auto simp: resolved_ok_def)
  then show ?thesis using Inr assms
    by (cases "getFd env net") (auto simp: Dial_def go_index_def split: prod.splits)
qed

lemma Dial_cases:
  assumes "dialer_ok d" and "\<forall>r. waited = Some r \<longrightarrow> resolved_ok r"
  shows "\<exists>c d' tr. Dial lenv env waited d net Address = Ret (c, d', tr) \<and> dialer_ok d'
    \<and> (tr = [] \<and> \<not> is_ok c
       \<or> (\<exists>fd a port t. tr = Socket net fd # t \<and> fdConn env (Some a) port fd net = (c, t)))"
proof (cases "Address = pd_currentServer d")
  case True
  show ?thesis by (rule Dial_cases_server[OF assms True])
next
  case False
  show ?thesis by (rule Dial_cases_other[OF assms(1) False])
qed

text \<open>
  C37: dialing never panics and never leaks a descriptor. Whatever the resolver, the kernel and the
  VPN service answer, a dial returns; a descriptor it opened has been closed on every path, success
  included; no connect or bind is made before the descriptor was handed to the VPN service, and a
  connection is returned only if the service protected it.
\<close>

theorem Dial_fd_discipline:
  assumes "dialer_ok d" and "\<forall>r. waited = Some r \<longrightarrow> resolved_ok r"
  shows "\<exists>c d' tr. Dial lenv env waited d net Address = Ret (c, d', tr) \<and> dialer_ok d'
    \<and> protected_first tr
    \<and> (\<forall>fd. Socket net fd \<in> set tr \<longrightarrow> 1 \<le> closes fd tr \<and> (is_ok c \<longrightarrow> se_protect env fd))"
proof -
  obtain c d' tr where D: "Dial lenv env waited d net Address = Ret (c, d', tr)" "dialer_ok d'"
    and t: "tr = [] \<and> \<not> is_ok c
       \<or> (\<exists>fd a port t. tr = Socket net fd # t \<and> fdConn env (Some a) port fd net = (c, t))"
    by (rule exE[OF Dial_cases[OF assms]]) (elim exE conjE, rule that)
  have "protected_first tr \<and> (\<forall>fd. Socket net fd \<in> set tr \<longrightarrow> 1 \<le> closes fd tr \<and> (is_ok c \<longrightarrow> se_protect env fd))"
    using t
  proof
    assume "\<exists>fd a port t. tr = Socket net fd # t \<and> fdConn env (Some a) port fd net = (c, t)"
    then obtain fd a port t where tr: "tr = Socket net fd # t" and f: "fdConn env (Some a) port fd net = (c, t)" by blast
    note F = fdConn_trace[OF f, folded tr]
    have one: "1 \<le> closes fd tr" using F by (auto split: if_splits)
    have "g = fd" if "Socket net g \<in> set tr" for g using that F unfolding tr by simp
    with one F show ?thesis by blast
  qed simp
  with D show ?thesis by blast
qed

definition demo_sock :: sock_env where
  "demo_sock = \<lparr>se_socket = (\<lambda>_. Inr 7), se_protect = (\<lambda>_. True), se_bind = (\<lambda>_. None), se_connect = (\<lambda>_. None),
     se_newfile = (\<lambda>_. True), se_fileconn = (\<lambda>_. None), se_now = 0\<rparr>"

definition demo_dialer :: ProtectedDialer where
  "demo_dialer = \<lparr>pd_currentServer = ''old:443'', pd_preferIPv6 = False, pd_vServer = Some demo_resolved\<rparr>"

theorem Dial_fd_discipline_witness:
  "\<exists>c d' tr. Dial demo_env demo_sock None demo_dialer Network_TCP ''old:443'' = Ret (c, d', tr)
    \<and> protected_first tr \<and> (Socket Network_TCP 7 \<in> set tr \<longrightarrow> 1 \<le> closes 7 tr)"
proof -
  have "dialer_ok demo_dialer" by (simp add: dialer_ok_def demo_dialer_def demo_resolved_def resolved_ok_def)
  from Dial_fd_discipline[OF this, of None demo_env demo_sock Network_TCP "''old:443''"] show ?thesis by auto
qed

text \<open>
  A successful dial closes the same descriptor number twice: once through the os.File it was
  wrapped in and once by the deferred unix.Close. Between the two another thread may have been given
  that number.
\<close>

theorem Dial_closes_twice:
  assumes "dialer_ok d" and "\<forall>r. waited = Some r \<longrightarrow> resolved_ok r"
    and "Dial lenv env waited d net Address = Ret (Inr c, d', tr)"
  shows "\<exists>fd. Socket net fd \<in> set tr \<and> closes fd tr = 2"
proof -
  obtain fd a port t where "tr = Socket net fd # t" "fdConn env (Some a) port fd net = (Inr c, t)"
    using Dial_cases[OF assms(1,2), of lenv env net Address] assms(3) by auto
  then show ?thesis using fdConn_trace by fastforce
qed

theorem Dial_closes_twice_witness:
  "\<exists>fd. Socket Network_TCP fd \<in> set [Socket Network_TCP 7, Protect 7, Connect 7 (To16 [1, 1, 1, 1]) 443, NewFile 7,
      FileConn 7, FileClose 7, CloseFd 7]
     \<and> closes fd [Socket Network_TCP 7, Protect 7, Connect 7 (To16 [1, 1, 1, 1]) 443, NewFile 7, FileConn 7,
      FileClose 7, CloseFd 7] = 2"
proof (rule Dial_closes_twice)
  show "dialer_ok demo_dialer" by (simp add: dialer_ok_def demo_dialer_def demo_resolved_def resolved_ok_def)
  show "\<forall>r. None = Some r \<longrightarrow> resolved_ok r" by simp
  show "Dial demo_env demo_sock None demo_dialer Network_TCP ''old:443''
    = Ret (Inr (TCPConn (Some [1, 1, 1, 1]) 443), demo_dialer, [Socket Network_TCP 7, Protect 7,
        Connect 7 (To16 [1, 1, 1, 1]) 443, NewFile 7, FileConn 7, FileClose 7, CloseFd 7])"
    by (simp add: Dial_def demo_dialer_def demo_resolved_def demo_sock_def getFd_def currentIP_def go_index_def
        fdConn_def Let_def)
qed

text \<open>
  A failed preparation of a new server keeps the previous server's record. The dialer then
  counts as ready, and a dial to the new server is answered with a connection to the old server's
  address and port.
\<close>

theorem prepare_failure_dials_old_server:
  assumes "pd_vServer d = Some old" and "currentIP (Some old) = Ret (Some a)"
    and "\<forall>i. \<not> is_ok (lookupAddr (envs i) (begin_prepare name pref d) name)"
    and "getFd env Network_TCP = Inr fd" and "fdConn env (Some a) (rs_Port old) fd Network_TCP = (Inr c, tr)"
  shows "IsVServerReady (PrepareDomain envs closed name pref d)
    \<and> (\<exists>d'. Dial lenv env None (PrepareDomain envs closed name pref d) Network_TCP name
         = Ret (Inr (TCPConn (Some a) (rs_Port old)), d', Socket Network_TCP fd # tr))"
proof -
  obtain n res where p: "prepare_loop envs closed (begin_prepare name pref d) name 10 0 = (n, res)" by fastforce
  have "res = None" using prepare_loop_result[OF p] assms(3) by (cases res) (auto, metis is_ok.simps(1))
  then have P: "PrepareDomain envs closed name pref d = begin_prepare name pref d"
    using p by (simp add: PrepareDomain_def Let_def)
  have "c = TCPConn (Some a) (rs_Port old)"
    using assms(5) by (auto simp: fdConn_def Let_def split: if_splits option.splits)
  with assms show ?thesis unfolding P by (simp add: IsVServerReady_def begin_prepare_def Dial_def)
qed

theorem prepare_failure_dials_old_server_witness:
  "\<exists>d'. Dial demo_env demo_sock None
      (PrepareDomain (\<lambda>_. demo_env\<lparr>le_ips := \<lambda>_. Inl (ExtErr ''down'')\<rparr>) (\<lambda>_. False) ''new:443'' False demo_dialer)
      Network_TCP ''new:443''
    = Ret (Inr (TCPConn (Some [1, 1, 1, 1]) 443), d', [Socket Network_TCP 7, Protect 7,
        Connect 7 (To16 [1, 1, 1, 1]) 443, NewFile 7, FileConn 7, FileClose 7, CloseFd 7])"
proof -
  have s: "split_host_port ''new:443'' = Inr (''new'', ''443'')" by code_simp
  have h1: "pd_vServer demo_dialer = Some demo_resolved" by (simp add: demo_dialer_def)
  have h2: "currentIP (Some demo_resolved) = Ret (Some [1, 1, 1, 1])"
    by (simp add: currentIP_def demo_resolved_def go_index_def)
  have h3: "\<forall>i :: nat. \<not> is_ok (lookupAddr (demo_env\<lparr>le_ips := \<lambda>_. Inl (ExtErr ''down'')\<rparr>)
      (begin_prepare ''new:443'' False demo_dialer) ''new:443'')"
    by (simp add: lookupAddr_def s demo_env_def)
  have h4: "getFd demo_sock Network_TCP = Inr 7" by (simp add: getFd_def demo_sock_def)
  have h5: "fdConn demo_sock (Some [1, 1, 1, 1]) (rs_Port demo_resolved) 7 Network_TCP
    = (Inr (TCPConn (Some [1, 1, 1, 1]) 443), [Protect 7, Connect 7 (To16 [1, 1, 1, 1]) 443, NewFile 7, FileConn 7,
        FileClose 7, CloseFd 7])"
    by (simp add: fdConn_def demo_sock_def demo_resolved_def Let_def)
  have "rs_Port demo_resolved = 443" by (simp add: demo_resolved_def)
  with prepare_failure_dials_old_server[OF h1 h2 h3 h4 h5, of "\<lambda>_. False" demo_env] show ?thesis by simp
qed

end
