(* ===== verification/Machine.thy ===== *)
theory Machine
  imports Main
begin

text \<open>
  Machines: a state, and a partial step function for every action. What can be reached from a start
  state, what an invariant gives, and how one machine simulates another. The components with several
  goroutines are machines: the core (\<open>Point\<close>), the core with the dials it makes (\<open>Core_Dials\<close>), and both with the delay
  measurements (\<open>Core_Measure\<close>).
\<close>

section \<open>Runs\<close>

inductive reachable :: "'s \<Rightarrow> ('a \<Rightarrow> 's \<Rightarrow> 's option) \<Rightarrow> 's \<Rightarrow> bool" for s0 step where
  start: "reachable s0 step s0"
| step: "reachable s0 step s \<Longrightarrow> step a s = Some s' \<Longrightarrow> reachable s0 step s'"

fun run_steps :: "('a \<Rightarrow> 's \<Rightarrow> 's option) \<Rightarrow> 'a list \<Rightarrow> 's \<Rightarrow> 's option" where
  "run_steps step [] s = Some s"
| "run_steps step (a # as) s = (case step a s of None \<Rightarrow> None | Some s1 \<Rightarrow> run_steps step as s1)"

lemma run_steps_append:
  "run_steps step (as @ bs) s = (case run_steps step as s of None \<Rightarrow> None | Some s1 \<Rightarrow> run_steps step bs s1)"
  by (induction as arbitrary: s) (auto split: option.splits)

lemma run_steps_reachable: "reachable s0 step s \<Longrightarrow> run_steps step as s = Some s' \<Longrightarrow> reachable s0 step s'"
  by (induction as arbitrary: s) (auto split: option.splits intro: reachable.step)

lemma reachable_run: "reachable s0 step s \<Longrightarrow> \<exists>as. run_steps step as s0 = Some s"
proof (induction rule: reachable.induct)
  case start
  show ?case by (rule exI[of _ "[]"]) simp
next
  case (step s a s')
  then obtain as where "run_steps step as s0 = Some s" by blast
  with step.hyps(2) show ?case by (intro exI[of _ "as @ [a]"]) (simp add: run_steps_append)
qed

text \<open>A concrete run reaches its last state.\<close>

lemma sample_run:
  assumes "case run_steps step as s0 of None \<Rightarrow> False | Some s \<Rightarrow> Q s"
  obtains s where "run_steps step as s0 = Some s" "reachable s0 step s" "Q s"
  using assms run_steps_reachable[OF reachable.start, of step as s0] by (auto split: option.splits)

text \<open>The machine with only those of its steps that satisfy a guard.\<close>

definition guarded :: "('a \<Rightarrow> 's \<Rightarrow> bool) \<Rightarrow> ('a \<Rightarrow> 's \<Rightarrow> 's option) \<Rightarrow> 'a \<Rightarrow> 's \<Rightarrow> 's option" where
  "guarded G step a s = (if G a s then step a s else None)"

lemma guarded_reachable: "reachable s0 (guarded G step) s \<Longrightarrow> reachable s0 step s"
  by (induction rule: reachable.induct) (auto simp: guarded_def split: if_splits intro: reachable.start reachable.step)

lemma guarded_weaken:
  assumes "run_steps (guarded G step) as s = Some s'" and "\<And>a x. G a x \<Longrightarrow> H a x"
  shows "run_steps (guarded H step) as s = Some s'"
  using assms(1) by (induction as arbitrary: s) (auto simp: guarded_def assms(2) split: if_splits option.splits)

section \<open>Invariants\<close>

text \<open>A property that every step keeps holds along every run.\<close>

locale stable =
  fixes step :: "'a \<Rightarrow> 's \<Rightarrow> 's option" and P :: "'s \<Rightarrow> bool"
  assumes keep: "P s \<Longrightarrow> step a s = Some s' \<Longrightarrow> P s'"
begin

lemma along: "P s \<Longrightarrow> run_steps step as s = Some s' \<Longrightarrow> P s'"
  by (induction as arbitrary: s) (auto split: option.splits intro: keep)

end

text \<open>An invariant holds at the start as well, hence in every reachable state.\<close>

locale invariant = stable step P
  for step :: "'a \<Rightarrow> 's \<Rightarrow> 's option" and P :: "'s \<Rightarrow> bool" +
  fixes s0 :: 's
  assumes init: "P s0"
begin

lemma always: "reachable s0 step s \<Longrightarrow> P s"
  by (induction rule: reachable.induct) (auto intro: init keep)

end

section \<open>Simulation\<close>

text \<open>
  The concrete machine makes, seen through \<open>abs\<close>, either a step of the abstract one or none. What the
  abstract machine keeps, the concrete one keeps.
\<close>

locale simulation =
  fixes step :: "'a \<Rightarrow> 's \<Rightarrow> 's option" and step' :: "'b \<Rightarrow> 't \<Rightarrow> 't option" and abs :: "'s \<Rightarrow> 't"
  assumes simulates: "step a s = Some s' \<Longrightarrow> abs s' = abs s \<or> (\<exists>b. step' b (abs s) = Some (abs s'))"
begin

lemma abs_reachable: "reachable s0 step s \<Longrightarrow> reachable (abs s0) step' (abs s)"
proof (induction rule: reachable.induct)
  case start
  show ?case by (rule reachable.start)
next
  case (step s a s')
  from simulates[OF step.hyps(2)] step.IH show ?case by (auto intro: reachable.step)
qed

lemma abs_run: "run_steps step as s = Some s' \<Longrightarrow> \<exists>bs. run_steps step' bs (abs s) = Some (abs s')"
  using abs_reachable run_steps_reachable[OF reachable.start] by (metis reachable_run)

end

locale simulated_invariant = simulation step step' abs + abstract: invariant step' P "abs s0"
  for step :: "'a \<Rightarrow> 's \<Rightarrow> 's option" and step' :: "'b \<Rightarrow> 't \<Rightarrow> 't option" and abs :: "'s \<Rightarrow> 't" and P :: "'t \<Rightarrow> bool" and s0 :: 's

sublocale simulated_invariant \<subseteq> lifted: invariant step "\<lambda>s. P (abs s)" s0
  using simulates abstract.keep abstract.init by unfold_locales metis+

end
