(* ===== verification/Point.thy ===== *)
theory Point
  imports Support Machine
begin

text \<open>
  The life cycle of the core in \<^verbatim>\<open>libv2ray_main.go\<close>: \<open>V2RayPoint\<close> with \<^verbatim>\<open>RunLoop\<close>, \<^verbatim>\<open>StopLoop\<close>, \<^verbatim>\<open>pointloop\<close>,
  \<^verbatim>\<open>shutdownInit\<close> and \<^verbatim>\<open>QueryStats\<close>, together with the two channel methods of the dialer in \<^verbatim>\<open>libv2ray_support.go\<close>.

  \<^verbatim>\<open>RunLoop\<close> starts goroutines that outlive the mutex, so the model is a machine whose state has the shared
  object, the mutex, the channels and one program counter per thread. A channel is a number and is never
  reused; \<open>sy_closed\<close> holds the closed ones. A step of a thread is the code between two points where another thread can
  make a difference; \<^verbatim>\<open>StopLoop\<close> does everything under the mutex and is one step. The core (xray) and the
  resolver answer through the environment.
\<close>

section \<open>The object\<close>

record V2RayPoint =
  vp_statsManager :: "nat option"
  vp_dialer :: ProtectedDialer
  vp_resolveChan :: "nat option"
  vp_closeChan :: "nat option"
  vp_Vpoint :: "nat option"
  vp_IsRunning :: bool
  vp_DomainName :: string
  vp_AsyncResolve :: bool

definition NewV2RayPoint :: "bool \<Rightarrow> V2RayPoint" where
  "NewV2RayPoint adns = \<lparr>vp_statsManager = None, vp_dialer = NewPreotectedDialer, vp_resolveChan = None, vp_closeChan = None,
     vp_Vpoint = None, vp_IsRunning = False, vp_DomainName = [], vp_AsyncResolve = adns\<rparr>"

text \<open>What the program does to the core (by the number of the instance) and to the Android service.\<close>

datatype service_event =
    CoreNew nat
  | CoreStart nat bool
  | CoreClose nat
  | SvcPrepare
  | SvcSetup
  | EmitStatus string
  | SvcShutdown

text \<open>
  How loading the configuration, creating and starting the core go. \<open>NoStats\<close> is a core without a statistics
  feature, on which the type assertion panics.
\<close>

datatype core_outcome = BadConfig go_error | NewFails go_error | NoStats | StartFails go_error | Starts

definition pointloop :: "core_outcome \<Rightarrow> nat \<Rightarrow> V2RayPoint \<Rightarrow> (go_error option \<times> V2RayPoint \<times> service_event list) gocall" where
  "pointloop core i v =
     (case core of
        BadConfig err \<Rightarrow> Ret (Some err, v, [])
      | NewFails err \<Rightarrow> Ret (Some err, v\<lparr>vp_Vpoint := None\<rparr>, [])
      | NoStats \<Rightarrow> Panic
      | StartFails err \<Rightarrow>
          Ret (Some err, v\<lparr>vp_Vpoint := Some i, vp_statsManager := Some i, vp_IsRunning := False\<rparr>, [CoreNew i, CoreStart i False])
      | Starts \<Rightarrow>
          Ret (None, v\<lparr>vp_Vpoint := Some i, vp_statsManager := Some i, vp_IsRunning := True\<rparr>,
               [CoreNew i, CoreStart i True, SvcPrepare, SvcSetup, EmitStatus ''Running'']))"

definition shutdownInit :: "V2RayPoint \<Rightarrow> (V2RayPoint \<times> service_event list) gocall" where
  "shutdownInit v =
     (case vp_Vpoint v of
        None \<Rightarrow> Panic
      | Some i \<Rightarrow> Ret (v\<lparr>vp_IsRunning := False, vp_Vpoint := None, vp_statsManager := None\<rparr>, [CoreClose i]))"

text \<open>\<^verbatim>\<open>close\<close> of a channel: closing nil or a closed channel panics.\<close>

definition close_chan :: "nat option \<Rightarrow> nat set \<Rightarrow> nat set gocall" where
  "close_chan c cl = (case c of None \<Rightarrow> Panic | Some n \<Rightarrow> if n \<in> cl then Panic else Ret (insert n cl))"

text \<open>\<^verbatim>\<open>StopLoop\<close> while it holds the mutex.\<close>

definition StopLoop :: "V2RayPoint \<Rightarrow> nat set \<Rightarrow> (V2RayPoint \<times> nat set \<times> service_event list) gocall" where
  "StopLoop v cl =
     (if vp_IsRunning v then
        (case close_chan (vp_closeChan v) cl of
           Panic \<Rightarrow> Panic
         | Ret cl1 \<Rightarrow>
             (case shutdownInit v of
                Panic \<Rightarrow> Panic
              | Ret (v1, evs) \<Rightarrow> Ret (v1, cl1, evs @ [EmitStatus ''Closed''])))
      else Ret (v, cl, []))"

section \<open>The threads\<close>

text \<open>
  The program counters. \<open>RunWait\<close> to \<open>RunPoint\<close> are the points of \<^verbatim>\<open>RunLoop\<close>: waiting for the mutex; the close channel made;
  the resolve channel made; the watcher started; in \<^verbatim>\<open>pointloop\<close>. \<open>PrepStart\<close>, \<open>Lookup\<close>, \<open>Retry\<close> and \<open>CloseRes\<close> are the
  preparation of the domain and the closing of the resolve channel after it, done by \<^verbatim>\<open>RunLoop\<close> itself (\<^const>\<open>True\<close>) or by
  the goroutine of an asynchronous start (\<^const>\<open>False\<close>); they carry the close channel the preparation was given.
  \<open>WatchStart\<close>, \<open>WatchWait\<close>, \<open>WatchCheck\<close> are the watcher, \<open>StopWait\<close> a call of \<^verbatim>\<open>StopLoop\<close>, by the watcher if \<^const>\<open>True\<close>.
\<close>

datatype tpc =
    NotStarted
  | Finished
  | RunWait bool
  | RunA bool
  | RunB bool
  | RunC bool
  | PrepStart bool bool
  | Lookup bool "nat option" nat
  | Retry bool "nat option" nat
  | CloseRes bool
  | RunPoint
  | WatchStart
  | WatchWait "nat option" "nat option"
  | WatchCheck
  | StopWait bool
  | CallShutdown

record system =
  sy_v :: V2RayPoint
  sy_lock :: "nat option"
  sy_thr :: "nat \<Rightarrow> tpc"
  sy_closed :: "nat set"
  sy_fresh :: nat
  sy_runs :: nat
  sy_looks :: nat
  sy_log :: "service_event list"
  sy_panic :: bool

record point_env =
  pe_core :: "nat \<Rightarrow> core_outcome"
  pe_lookup :: "nat \<Rightarrow> lookup_env"

definition init_system :: "V2RayPoint \<Rightarrow> system" where
  "init_system v = \<lparr>sy_v = v, sy_lock = None, sy_thr = (\<lambda>_. NotStarted), sy_closed = {}, sy_fresh = 0, sy_runs = 0, sy_looks = 0,
     sy_log = [], sy_panic = False\<rparr>"

definition setpc :: "nat \<Rightarrow> tpc \<Rightarrow> system \<Rightarrow> system" where
  "setpc t p s = s\<lparr>sy_thr := (sy_thr s)(t := p)\<rparr>"

definition panics :: "system \<Rightarrow> system" where
  "panics s = s\<lparr>sy_panic := True\<rparr>"

definition ready_chan :: "nat option \<Rightarrow> system \<Rightarrow> bool" where
  "ready_chan c s = (case c of None \<Rightarrow> False | Some n \<Rightarrow> n \<in> sy_closed s)"

text \<open>One step of \<^verbatim>\<open>RunLoop\<close> up to the preparation; \<open>u\<close> is the thread a \<^verbatim>\<open>go\<close> statement starts.\<close>

definition run_enter :: "nat \<Rightarrow> bool \<Rightarrow> system \<Rightarrow> system option" where
  "run_enter t pref s =
     (if sy_lock s \<noteq> None then None
      else if vp_IsRunning (sy_v s) then Some (setpc t Finished s)
      else Some (setpc t (RunA pref)
        (s\<lparr>sy_lock := Some t, sy_v := (sy_v s)\<lparr>vp_closeChan := Some (sy_fresh s)\<rparr>, sy_fresh := Suc (sy_fresh s)\<rparr>)))"

definition PrepareResolveChan :: "system \<Rightarrow> system" where
  "PrepareResolveChan s = s\<lparr>sy_v := (sy_v s)\<lparr>vp_resolveChan := Some (sy_fresh s)\<rparr>, sy_fresh := Suc (sy_fresh s)\<rparr>"

definition spawn :: "nat \<Rightarrow> tpc \<Rightarrow> system \<Rightarrow> system option" where
  "spawn u p s = (if sy_thr s u = NotStarted then Some (setpc u p s) else None)"

text \<open>The preparation: one lookup, and the wait after a failed one, which the closed channel (\<open>u = 0\<close>) or the timer ends.\<close>

definition prep_lookup :: "point_env \<Rightarrow> nat \<Rightarrow> bool \<Rightarrow> nat option \<Rightarrow> nat \<Rightarrow> system \<Rightarrow> system" where
  "prep_lookup env t inrun cc k s =
     (case k of
        0 \<Rightarrow> setpc t (CloseRes inrun) s
      | Suc k' \<Rightarrow>
          let v = sy_v s; s1 = s\<lparr>sy_looks := Suc (sy_looks s)\<rparr> in
          (case lookupAddr (pe_lookup env (sy_looks s)) (vp_dialer v) (vp_DomainName v) of
             Inl _ \<Rightarrow> setpc t (Retry inrun cc k') s1
           | Inr r \<Rightarrow> setpc t (CloseRes inrun) (s1\<lparr>sy_v := v\<lparr>vp_dialer := (vp_dialer v)\<lparr>pd_vServer := Some r\<rparr>\<rparr>\<rparr>)))"

definition prep_wait :: "nat \<Rightarrow> nat \<Rightarrow> bool \<Rightarrow> nat option \<Rightarrow> nat \<Rightarrow> system \<Rightarrow> system option" where
  "prep_wait t u inrun cc k s =
     (if u = 0 then (if ready_chan cc s then Some (setpc t (CloseRes inrun) s) else None)
      else Some (setpc t (Lookup inrun cc k) s))"

definition close_resolve :: "nat \<Rightarrow> bool \<Rightarrow> system \<Rightarrow> system" where
  "close_resolve t inrun s =
     (case close_chan (vp_resolveChan (sy_v s)) (sy_closed s) of
        Panic \<Rightarrow> panics s
      | Ret cl \<Rightarrow> setpc t (if inrun then RunPoint else Finished) (s\<lparr>sy_closed := cl\<rparr>))"

definition run_point :: "point_env \<Rightarrow> nat \<Rightarrow> system \<Rightarrow> system" where
  "run_point env t s =
     (case pointloop (pe_core env (sy_runs s)) (sy_runs s) (sy_v s) of
        Panic \<Rightarrow> panics s
      | Ret (_, v, evs) \<Rightarrow>
          setpc t Finished (s\<lparr>sy_v := v, sy_lock := None, sy_runs := Suc (sy_runs s), sy_log := sy_log s @ evs\<rparr>))"

definition stop_step :: "nat \<Rightarrow> bool \<Rightarrow> system \<Rightarrow> system option" where
  "stop_step t watcher s =
     (if sy_lock s \<noteq> None then None
      else case StopLoop (sy_v s) (sy_closed s) of
          Panic \<Rightarrow> Some (panics s)
        | Ret (v, cl, evs) \<Rightarrow>
            Some (setpc t (if watcher then CallShutdown else Finished) (s\<lparr>sy_v := v, sy_closed := cl, sy_log := sy_log s @ evs\<rparr>)))"

definition watch_wait :: "nat \<Rightarrow> nat \<Rightarrow> nat option \<Rightarrow> nat option \<Rightarrow> system \<Rightarrow> system option" where
  "watch_wait t u rc cc s =
     (if u = 0 then (if ready_chan rc s then Some (setpc t WatchCheck s) else None)
      else (if ready_chan cc s then Some (setpc t Finished s) else None))"

definition go :: "point_env \<Rightarrow> nat \<Rightarrow> nat \<Rightarrow> system \<Rightarrow> system option" where
  "go env t u s =
     (case sy_thr s t of
        NotStarted \<Rightarrow> None
      | Finished \<Rightarrow> None
      | RunWait pref \<Rightarrow> run_enter t pref s
      | RunA pref \<Rightarrow> Some (setpc t (RunB pref) (PrepareResolveChan s))
      | RunB pref \<Rightarrow> spawn u WatchStart (setpc t (RunC pref) s)
      | RunC pref \<Rightarrow>
          if vp_AsyncResolve (sy_v s) then spawn u (PrepStart False pref) (setpc t RunPoint s)
          else Some (setpc t (PrepStart True pref) s)
      | PrepStart inrun pref \<Rightarrow>
          let v = sy_v s in
          Some (setpc t (Lookup inrun (vp_closeChan v) 10) (s\<lparr>sy_v := v\<lparr>vp_dialer := begin_prepare (vp_DomainName v) pref (vp_dialer v)\<rparr>\<rparr>))
      | Lookup inrun cc k \<Rightarrow> Some (prep_lookup env t inrun cc k s)
      | Retry inrun cc k \<Rightarrow> prep_wait t u inrun cc k s
      | CloseRes inrun \<Rightarrow> Some (close_resolve t inrun s)
      | RunPoint \<Rightarrow> Some (run_point env t s)
      | WatchStart \<Rightarrow> Some (setpc t (WatchWait (vp_resolveChan (sy_v s)) (vp_closeChan (sy_v s))) s)
      | WatchWait rc cc \<Rightarrow> watch_wait t u rc cc s
      | WatchCheck \<Rightarrow> Some (setpc t (if IsVServerReady (vp_dialer (sy_v s)) then Finished else StopWait True) s)
      | StopWait watcher \<Rightarrow> stop_step t watcher s
      | CallShutdown \<Rightarrow> Some (setpc t Finished (s\<lparr>sy_log := sy_log s @ [SvcShutdown]\<rparr>)))"

text \<open>
  The application calls \<^verbatim>\<open>RunLoop\<close> or \<^verbatim>\<open>StopLoop\<close> on a new thread, a thread takes a step, or a failed dial of the core moves the
  shared address cache on (the rest of a dial is in \<open>Core_Dials\<close>). A panic ends the process.
\<close>

datatype action = CallRun nat bool | CallStop nat | Go nat nat | DialFailed gotime

definition store_server :: "resolved \<Rightarrow> system \<Rightarrow> system" where
  "store_server r s = s\<lparr>sy_v := (sy_v s)\<lparr>vp_dialer := (vp_dialer (sy_v s))\<lparr>pd_vServer := Some r\<rparr>\<rparr>\<rparr>"

definition dial_failed :: "gotime \<Rightarrow> system \<Rightarrow> system option" where
  "dial_failed now s =
     (case pd_vServer (vp_dialer (sy_v s)) of
        None \<Rightarrow> None
      | Some r \<Rightarrow> (case NextIP now r of Panic \<Rightarrow> None | Ret r' \<Rightarrow> Some (store_server r' s)))"

definition act :: "point_env \<Rightarrow> action \<Rightarrow> system \<Rightarrow> system option" where
  "act env a s =
     (if sy_panic s then None
      else case a of
          CallRun t pref \<Rightarrow> spawn t (RunWait pref) s
        | CallStop t \<Rightarrow> spawn t (StopWait False) s
        | Go t u \<Rightarrow> go env t u s
        | DialFailed now \<Rightarrow> dial_failed now s)"

abbreviation reach :: "point_env \<Rightarrow> V2RayPoint \<Rightarrow> system \<Rightarrow> bool" where
  "reach env v \<equiv> reachable (init_system v) (act env)"

abbreviation run_schedule :: "point_env \<Rightarrow> action list \<Rightarrow> system \<Rightarrow> system option" where
  "run_schedule env \<equiv> run_steps (act env)"

section \<open>Invariants\<close>

text \<open>The points at which a thread holds the mutex, and those where the resolve channel of this start is still open.\<close>

fun inside :: "tpc \<Rightarrow> bool" where
  "inside (RunA _) = True"
| "inside (RunB _) = True"
| "inside (RunC _) = True"
| "inside (PrepStart b _) = b"
| "inside (Lookup b _ _) = b"
| "inside (Retry b _ _) = b"
| "inside (CloseRes b) = b"
| "inside RunPoint = True"
| "inside _ = False"

definition lock_inv :: "system \<Rightarrow> bool" where
  "lock_inv s \<longleftrightarrow> (\<forall>t. sy_lock s = Some t \<longleftrightarrow> inside (sy_thr s t))"

definition chan_inv :: "system \<Rightarrow> bool" where
  "chan_inv s \<longleftrightarrow>
     (\<forall>c \<in> sy_closed s. c < sy_fresh s)
     \<and> (\<forall>c. vp_closeChan (sy_v s) = Some c \<longrightarrow> c < sy_fresh s \<and> vp_resolveChan (sy_v s) \<noteq> Some c)
     \<and> (\<forall>c. vp_resolveChan (sy_v s) = Some c \<longrightarrow> c < sy_fresh s)"

definition core_inv :: "system \<Rightarrow> bool" where
  "core_inv s \<longleftrightarrow>
     (vp_IsRunning (sy_v s) \<or> sy_lock s \<noteq> None \<longrightarrow> (\<exists>c. vp_closeChan (sy_v s) = Some c \<and> c \<notin> sy_closed s))
     \<and> (vp_IsRunning (sy_v s) \<longrightarrow> vp_Vpoint (sy_v s) \<noteq> None \<and> sy_lock s = None)"

definition point_inv :: "system \<Rightarrow> bool" where
  "point_inv s \<longleftrightarrow> lock_inv s \<and> chan_inv s \<and> core_inv s"

lemmas point_defs = act_def go_def dial_failed_def store_server_def run_enter_def PrepareResolveChan_def spawn_def prep_lookup_def prep_wait_def close_resolve_def
  run_point_def stop_step_def watch_wait_def setpc_def panics_def close_chan_def Let_def

abbreviation new_point :: "bool \<Rightarrow> string \<Rightarrow> V2RayPoint" where
  "new_point adns domain \<equiv> (NewV2RayPoint adns)\<lparr>vp_DomainName := domain\<rparr>"

lemma point_inv_init: "point_inv (init_system (new_point adns domain))"
  by (simp add: point_inv_def lock_inv_def chan_inv_def core_inv_def init_system_def NewV2RayPoint_def)

lemma StopLoop_safe:
  assumes "core_inv s"
  shows "\<exists>v cl evs. StopLoop (sy_v s) (sy_closed s) = Ret (v, cl, evs)"
  using assms by (auto simp: core_inv_def StopLoop_def close_chan_def shutdownInit_def split: option.splits)

lemma lock_inv_keep: "lock_inv s \<Longrightarrow> act env a s = Some s' \<Longrightarrow> lock_inv s'"
proof (cases a)
  case (Go t u)
  assume i: "lock_inv s" and st: "act env a s = Some s'"
  then have l: "sy_lock s = Some t \<longleftrightarrow> inside (sy_thr s t)" by (simp add: lock_inv_def)
  have one: "inside (sy_thr s x) \<Longrightarrow> inside (sy_thr s t) \<Longrightarrow> x = t" for x using i by (simp add: lock_inv_def) (metis option.inject)
  from i st l Go one show ?thesis
    by (cases "sy_thr s t") (auto simp: point_defs lock_inv_def split: if_splits option.splits sum.splits nat.splits gocall.splits)
qed (auto simp: point_defs lock_inv_def split: if_splits option.splits gocall.splits)


fun before_close :: "tpc \<Rightarrow> bool" where
  "before_close (RunB _) = True"
| "before_close (RunC _) = True"
| "before_close (PrepStart _ _) = True"
| "before_close (Lookup _ _ _) = True"
| "before_close (Retry _ _ _) = True"
| "before_close (CloseRes _) = True"
| "before_close _ = False"

fun preparing :: "tpc \<Rightarrow> bool" where
  "preparing (RunA _) = True"
| "preparing p = before_close p"

lemma before_close_preparing [simp]: "before_close p \<Longrightarrow> preparing p"
  by (cases p) auto

definition busy :: "(nat \<Rightarrow> tpc) \<Rightarrow> bool" where
  "busy f \<longleftrightarrow> (\<exists>t. before_close (f t))"

lemma busy_upd [simp]: "\<not> before_close (f t) \<Longrightarrow> \<not> before_close p \<Longrightarrow> busy (f(t := p)) = busy f"
  by (auto simp: busy_def)

lemma busy_here [simp]: "before_close p \<Longrightarrow> busy (f(t := p))"
  by (auto simp: busy_def)

text \<open>The status messages of a log, in order.\<close>

fun statuses :: "service_event list \<Rightarrow> string list" where
  "statuses [] = []"
| "statuses (EmitStatus m # es) = m # statuses es"
| "statuses (_ # es) = statuses es"

lemma statuses_append [simp]: "statuses (xs @ ys) = statuses xs @ statuses ys"
  by (induction xs rule: statuses.induct) auto

text \<open>What the steps can change: most of them only move a thread or touch the address cache.\<close>

definition frame :: "system \<Rightarrow> system \<Rightarrow> bool" where
  "frame s s' \<longleftrightarrow> sy_lock s' = sy_lock s \<and> sy_closed s' = sy_closed s \<and> sy_fresh s' = sy_fresh s
     \<and> vp_closeChan (sy_v s') = vp_closeChan (sy_v s) \<and> vp_resolveChan (sy_v s') = vp_resolveChan (sy_v s)
     \<and> vp_IsRunning (sy_v s') = vp_IsRunning (sy_v s) \<and> vp_Vpoint (sy_v s') = vp_Vpoint (sy_v s)
     \<and> vp_AsyncResolve (sy_v s') = vp_AsyncResolve (sy_v s) \<and> sy_panic s' = sy_panic s
     \<and> statuses (sy_log s') = statuses (sy_log s) \<and> sy_runs s' = sy_runs s
     \<and> (sy_log s' = sy_log s \<or> sy_log s' = sy_log s @ [SvcShutdown])"

text \<open>No thread begins or ends a preparation, and none that holds the mutex in one lets it go.\<close>

definition calm :: "system \<Rightarrow> system \<Rightarrow> bool" where
  "calm s s' \<longleftrightarrow> (\<forall>x. (preparing (sy_thr s' x) \<longleftrightarrow> preparing (sy_thr s x)) \<and> (before_close (sy_thr s' x) \<longleftrightarrow> before_close (sy_thr s x))
     \<and> (before_close (sy_thr s x) \<and> inside (sy_thr s x) \<longrightarrow> inside (sy_thr s' x)))"

text \<open>The one step that hands a preparation over: the \<^verbatim>\<open>go\<close> statement of an asynchronous start.\<close>

definition hands_over :: "system \<Rightarrow> system \<Rightarrow> bool" where
  "hands_over s s' \<longleftrightarrow> vp_AsyncResolve (sy_v s) \<and>
     (\<exists>t u pref. sy_thr s t = RunC pref \<and> sy_thr s u = NotStarted \<and> s' = setpc u (PrepStart False pref) (setpc t RunPoint s))"

fun still :: "tpc \<Rightarrow> bool" where
  "still (RunWait _) = False"
| "still (RunA _) = False"
| "still (CloseRes _) = False"
| "still RunPoint = False"
| "still (StopWait _) = False"
| "still _ = True"

lemma go_frame: "still (sy_thr s t) \<Longrightarrow> go env t u s = Some s' \<Longrightarrow> frame s s'"
  by (cases "sy_thr s t")
    (auto simp: go_def spawn_def prep_lookup_def prep_wait_def watch_wait_def setpc_def frame_def Let_def
      split: if_splits sum.splits nat.splits)

lemma go_calm: "still (sy_thr s t) \<Longrightarrow> go env t u s = Some s' \<Longrightarrow> calm s s' \<or> hands_over s s'"
  by (cases "sy_thr s t")
    (auto simp: go_def spawn_def prep_lookup_def prep_wait_def watch_wait_def setpc_def calm_def hands_over_def Let_def
      split: if_splits sum.splits nat.splits)

lemma act_cases:
  assumes "act env a s = Some s'"
  obtains (frame) "frame s s'" "calm s s' \<or> hands_over s s'"
    | (enter) t u pref where "a = Go t u" "sy_thr s t = RunWait pref" "run_enter t pref s = Some s'"
    | (resolve) t pref where "sy_thr s t = RunA pref" "s' = setpc t (RunB pref) (PrepareResolveChan s)"
    | (close) t inrun where "sy_thr s t = CloseRes inrun" "s' = close_resolve t inrun s"
    | (point) t where "sy_thr s t = RunPoint" "s' = run_point env t s"
    | (stop) t w where "sy_thr s t = StopWait w" "stop_step t w s = Some s'"
proof (cases a)
  case (Go t u)
  then have g: "go env t u s = Some s'" using assms by (auto simp: act_def split: if_splits)
  show thesis
  proof (cases "still (sy_thr s t)")
    case True
    then show thesis using go_frame[OF _ g] go_calm[OF _ g] frame by blast
  next
    case False
    then show thesis using g enter[OF Go] resolve close point stop by (cases "sy_thr s t") (auto simp: go_def)
  qed
qed (use assms frame in \<open>auto simp: act_def spawn_def setpc_def dial_failed_def store_server_def frame_def calm_def split: if_splits option.splits gocall.splits\<close>)

lemma chan_inv_frame: "frame s s' \<Longrightarrow> chan_inv s \<Longrightarrow> chan_inv s'"
  by (simp add: frame_def chan_inv_def)

lemma core_inv_frame: "frame s s' \<Longrightarrow> core_inv s \<Longrightarrow> core_inv s'"
  by (simp add: frame_def core_inv_def)

lemma chan_inv_keep:
  assumes "chan_inv s" and "act env a s = Some s'"
  shows "chan_inv s'"
  using assms(2)
proof (cases rule: act_cases)
  case frame
  then show ?thesis using assms(1) chan_inv_frame by blast
next
  case (enter t u pref)
  then show ?thesis using assms(1) by (auto simp: run_enter_def setpc_def chan_inv_def less_Suc_eq split: if_splits)
next
  case (resolve t pref)
  then show ?thesis using assms(1) by (auto simp: PrepareResolveChan_def setpc_def chan_inv_def)
next
  case (close t inrun)
  then show ?thesis using assms(1)
    by (auto simp: close_resolve_def close_chan_def setpc_def panics_def chan_inv_def split: option.splits if_splits)
next
  case (point t)
  then show ?thesis using assms(1)
    by (auto simp: run_point_def pointloop_def setpc_def panics_def chan_inv_def split: core_outcome.splits)
next
  case (stop t w)
  then show ?thesis using assms(1)
    by (auto simp: stop_step_def StopLoop_def close_chan_def shutdownInit_def setpc_def panics_def chan_inv_def
        split: option.splits if_splits gocall.splits)
qed

lemma core_inv_keep:
  assumes "lock_inv s" and "chan_inv s" and "core_inv s" and "act env a s = Some s'"
  shows "core_inv s'"
proof -
  have l: "inside (sy_thr s t) \<Longrightarrow> sy_lock s = Some t" for t using assms(1) by (simp add: lock_inv_def)
  have n: "sy_lock s = Some t \<Longrightarrow> \<not> vp_IsRunning (sy_v s)" for t using assms(3) by (auto simp: core_inv_def)
  from assms(4) show ?thesis
  proof (cases rule: act_cases)
    case frame
    then show ?thesis using assms(3) core_inv_frame by blast
  next
    case (enter t u pref)
    then show ?thesis using assms(2,3) by (auto simp: run_enter_def setpc_def core_inv_def chan_inv_def split: if_splits)
  next
    case (resolve t pref)
    then have "sy_lock s = Some t" "\<not> vp_IsRunning (sy_v s)" using l[of t] n[of t] by auto
    then show ?thesis using resolve assms(3) by (auto simp: PrepareResolveChan_def setpc_def core_inv_def)
  next
    case (close t inrun)
    then show ?thesis using assms(2,3)
      by (auto simp: close_resolve_def close_chan_def setpc_def panics_def core_inv_def chan_inv_def split: option.splits if_splits)
  next
    case (point t)
    then have "sy_lock s = Some t" "\<not> vp_IsRunning (sy_v s)" using l[of t] n[of t] by auto
    then show ?thesis using point assms(3)
      by (auto simp: run_point_def pointloop_def setpc_def panics_def core_inv_def split: core_outcome.splits)
  next
    case (stop t w)
    then show ?thesis using assms(3)
      by (auto simp: stop_step_def StopLoop_def close_chan_def shutdownInit_def setpc_def panics_def core_inv_def
          split: option.splits if_splits gocall.splits)
  qed
qed


interpretation pt: invariant "act env" point_inv "init_system (new_point adns domain)"
proof unfold_locales
  show "point_inv (init_system (new_point adns domain))" by (rule point_inv_init)
  show "point_inv s'" if "point_inv s" and "act env a s = Some s'" for s a s'
    using that lock_inv_keep chan_inv_keep core_inv_keep unfolding point_inv_def by blast
qed

text \<open>
  C15: stopping is always safe. In every state that any interleaving of starts, stops, watchers and asynchronous preparations
  can reach, a call of StopLoop that gets the mutex completes without a panic: it closes an open channel and a live core, and
  afterwards the core is not running.
\<close>

theorem StopLoop_never_panics:
  assumes "reach env (new_point adns domain) s" and "\<not> sy_panic s" and "sy_thr s t = StopWait w" and "sy_lock s = None"
  shows "\<exists>s'. act env (Go t u) s = Some s' \<and> \<not> sy_panic s' \<and> \<not> vp_IsRunning (sy_v s')"
proof -
  have "core_inv s" using pt.always[OF assms(1)] by (simp add: point_inv_def)
  then obtain v cl evs where "StopLoop (sy_v s) (sy_closed s) = Ret (v, cl, evs)" using StopLoop_safe by blast
  moreover from this have "\<not> vp_IsRunning v"
    by (auto simp: StopLoop_def shutdownInit_def split: if_splits gocall.splits option.splits)
  ultimately show ?thesis using assms(2-4) by (simp add: act_def go_def stop_step_def setpc_def)
qed

section \<open>One preparation at a time\<close>

text \<open>
  The application is patient when it lets no \<^verbatim>\<open>RunLoop\<close> past the mutex while the preparation of an earlier start is
  still running.
\<close>

definition patient :: "action \<Rightarrow> system \<Rightarrow> bool" where
  "patient a s \<longleftrightarrow> (\<forall>t u pref. a = Go t u \<and> sy_thr s t = RunWait pref \<longrightarrow> (\<forall>x. \<not> preparing (sy_thr s x)))"

definition prep_inv :: "system \<Rightarrow> bool" where
  "prep_inv s \<longleftrightarrow> \<not> sy_panic s
     \<and> (\<forall>t u. preparing (sy_thr s t) \<longrightarrow> preparing (sy_thr s u) \<longrightarrow> t = u)
     \<and> (\<forall>t. before_close (sy_thr s t) \<longrightarrow> (\<exists>c. vp_resolveChan (sy_v s) = Some c \<and> c \<notin> sy_closed s))
     \<and> (\<forall>c. vp_resolveChan (sy_v s) = Some c \<longrightarrow> c \<in> sy_closed s \<or> busy (sy_thr s))"

lemma prep_inv_open: "prep_inv s \<Longrightarrow> before_close (sy_thr s t) \<Longrightarrow> \<exists>c. vp_resolveChan (sy_v s) = Some c \<and> c \<notin> sy_closed s"
  by (simp add: prep_inv_def) blast

lemma prep_inv_frame:
  assumes "prep_inv s" and "frame s s'" and "calm s s' \<or> hands_over s s'"
  shows "prep_inv s'"
  using assms(3)
proof
  assume "calm s s'"
  then show ?thesis using assms(1,2) by (simp add: prep_inv_def frame_def calm_def busy_def)
next
  assume "hands_over s s'"
  then obtain t u pref where h: "sy_thr s t = RunC pref" "sy_thr s u = NotStarted" "s' = setpc u (PrepStart False pref) (setpc t RunPoint s)"
    by (auto simp: hands_over_def)
  have "preparing (sy_thr s x) \<Longrightarrow> x = t" for x using assms(1) h(1) by (simp add: prep_inv_def)
  then have "preparing (sy_thr s' x) \<Longrightarrow> x = u" for x using h by (auto simp: setpc_def split: if_splits)
  moreover have "before_close (sy_thr s' u)" "sy_panic s' = sy_panic s" "sy_closed s' = sy_closed s" "sy_v s' = sy_v s" using h by (auto simp: setpc_def)
  moreover have "\<exists>c. vp_resolveChan (sy_v s) = Some c \<and> c \<notin> sy_closed s" "\<not> sy_panic s"
    using assms(1) prep_inv_open[OF assms(1), of t] h(1) by (simp_all add: prep_inv_def)
  ultimately show ?thesis unfolding prep_inv_def busy_def by metis
qed

lemma prep_inv_close:
  assumes "prep_inv s" and "sy_thr s t = CloseRes inrun" and "s' = close_resolve t inrun s"
  shows "prep_inv s'"
proof -
  obtain c where c: "vp_resolveChan (sy_v s) = Some c" "c \<notin> sy_closed s" using prep_inv_open[OF assms(1), of t] assms(2) by auto
  then have s': "s' = setpc t (if inrun then RunPoint else Finished) (s\<lparr>sy_closed := insert c (sy_closed s)\<rparr>)"
    using assms(3) by (simp add: close_resolve_def close_chan_def)
  have "\<not> preparing (sy_thr s x)" if "x \<noteq> t" for x using assms(1,2) that unfolding prep_inv_def by fastforce
  then have "\<not> preparing (sy_thr s' x)" for x using s' by (simp add: setpc_def)
  moreover from this have "\<not> before_close (sy_thr s' x)" for x using before_close_preparing by blast
  moreover have "sy_panic s' = sy_panic s" "sy_v s' = sy_v s" "c \<in> sy_closed s'" using s' by (simp_all add: setpc_def)
  ultimately show ?thesis using assms(1) c(1) by (simp add: prep_inv_def)
qed

lemma prep_inv_keep:
  assumes "point_inv s" and "prep_inv s" and "patient a s" and "\<And>n. pe_core env n \<noteq> NoStats" and "act env a s = Some s'"
  shows "prep_inv s'"
proof -
  have ch: "chan_inv s" and co: "core_inv s" using assms(1) by (simp_all add: point_inv_def)
  have one: "preparing (sy_thr s x) \<Longrightarrow> preparing (sy_thr s y) \<Longrightarrow> x = y" for x y using assms(2) by (simp add: prep_inv_def)
  from assms(5) show ?thesis
  proof (cases rule: act_cases)
    case frame
    then show ?thesis using prep_inv_frame[OF assms(2)] by blast
  next
    case (enter t u pref)
    then have "\<not> preparing (sy_thr s x)" for x using assms(3) by (simp add: patient_def)
    then show ?thesis using assms(2) enter by (auto simp: run_enter_def setpc_def prep_inv_def split: if_splits)
  next
    case (resolve t pref)
    then have "preparing (sy_thr s x) \<Longrightarrow> x = t" for x using one[of x t] by simp
    then show ?thesis using resolve assms(2) ch by (auto simp: PrepareResolveChan_def setpc_def prep_inv_def chan_inv_def)
  next
    case (close t inrun)
    then show ?thesis using prep_inv_close[OF assms(2)] by blast
  next
    case (point t)
    then show ?thesis using assms(2,4)
      by (auto simp: run_point_def pointloop_def setpc_def prep_inv_def split: core_outcome.splits)
  next
    case (stop t w)
    have "vp_resolveChan (sy_v s) = Some c \<Longrightarrow> vp_closeChan (sy_v s) \<noteq> Some c" for c using ch by (auto simp: chan_inv_def)
    then show ?thesis using stop assms(2) StopLoop_safe[OF co]
      by (auto simp: stop_step_def StopLoop_def close_chan_def shutdownInit_def setpc_def prep_inv_def
          split: option.splits if_splits gocall.splits)
  qed
qed

definition patient_safe :: "point_env \<Rightarrow> system \<Rightarrow> bool" where
  "patient_safe env s \<longleftrightarrow> point_inv s \<and> ((\<forall>n. pe_core env n \<noteq> NoStats) \<longrightarrow> prep_inv s)"

lemma patient_safe_init: "patient_safe env (init_system (new_point adns domain))"
  using point_inv_init by (simp add: patient_safe_def prep_inv_def init_system_def NewV2RayPoint_def)

lemma patient_safe_keep: "patient_safe env s \<Longrightarrow> patient a s \<Longrightarrow> act env a s = Some s' \<Longrightarrow> patient_safe env s'"
  using pt.keep prep_inv_keep unfolding patient_safe_def by blast

interpretation calmly: invariant "guarded patient (act env)" "patient_safe env" "init_system (new_point adns domain)"
  by unfold_locales (auto simp: guarded_def patient_safe_init split: if_splits intro: patient_safe_keep)

section \<open>Synchronous starts\<close>

text \<open>A synchronous start prepares under the mutex, so the application cannot but be patient.\<close>

definition sync_inv :: "system \<Rightarrow> bool" where
  "sync_inv s \<longleftrightarrow> \<not> vp_AsyncResolve (sy_v s) \<and> (\<forall>t. before_close (sy_thr s t) \<longrightarrow> inside (sy_thr s t))"

lemma sync_inv_keep:
  assumes "sync_inv s" and "act env a s = Some s'"
  shows "sync_inv s'"
  using assms(2)
proof (cases rule: act_cases)
  case frame
  then have "calm s s'" using assms(1) by (auto simp: hands_over_def sync_inv_def)
  then show ?thesis using frame(1) assms(1) by (auto simp: frame_def calm_def sync_inv_def)
next
  case (enter t u pref)
  then show ?thesis using assms(1) by (auto simp: run_enter_def setpc_def sync_inv_def split: if_splits)
next
  case (resolve t pref)
  then show ?thesis using assms(1) by (auto simp: PrepareResolveChan_def setpc_def sync_inv_def)
next
  case (close t inrun)
  then show ?thesis using assms(1) by (auto simp: close_resolve_def setpc_def panics_def sync_inv_def split: gocall.splits)
next
  case (point t)
  then show ?thesis using assms(1)
    by (auto simp: run_point_def pointloop_def setpc_def panics_def sync_inv_def split: core_outcome.splits)
next
  case (stop t w)
  then show ?thesis using assms(1)
    by (auto simp: stop_step_def StopLoop_def shutdownInit_def setpc_def panics_def sync_inv_def
        split: option.splits if_splits gocall.splits)
qed

lemma sync_patient:
  assumes "point_inv s" and "sync_inv s" and "act env a s = Some s'"
  shows "patient a s"
proof -
  have "\<not> preparing (sy_thr s x)" if "a = Go t u" "sy_thr s t = RunWait pref" for t u pref x
  proof -
    have "sy_lock s = None" using assms(3) that by (auto simp: act_def go_def run_enter_def split: if_splits)
    then have "\<not> inside (sy_thr s x)" using assms(1) by (simp add: point_inv_def lock_inv_def)
    moreover from this have "\<not> before_close (sy_thr s x)" using assms(2) by (auto simp: sync_inv_def)
    ultimately show ?thesis by (cases "sy_thr s x") simp_all
  qed
  then show ?thesis by (simp add: patient_def)
qed

definition sync_safe :: "point_env \<Rightarrow> system \<Rightarrow> bool" where
  "sync_safe env s \<longleftrightarrow> patient_safe env s \<and> sync_inv s"

interpretation sync: invariant "act env" "sync_safe env" "init_system (new_point False domain)"
proof unfold_locales
  show "sync_safe env (init_system (new_point False domain))"
    using patient_safe_init by (simp add: sync_safe_def sync_inv_def init_system_def NewV2RayPoint_def)
  show "sync_safe env s'" if "sync_safe env s" and "act env a s = Some s'" for s a s'
    using that sync_inv_keep sync_patient patient_safe_keep unfolding sync_safe_def patient_safe_def by blast
qed

text \<open>
  With synchronous resolution the library never panics. Starting and stopping in any order and from any number of threads,
  with any outcome of the core and of the resolver, never closes a channel twice nor uses a missing core, as long as the core has
  a statistics feature.
\<close>

theorem sync_never_panics:
  assumes "reach env (new_point False domain) s" and "\<And>n. pe_core env n \<noteq> NoStats"
  shows "\<not> sy_panic s"
  using sync.always[OF assms(1)] assms(2) by (simp add: sync_safe_def patient_safe_def prep_inv_def)

section \<open>The messages to the application\<close>

text \<open>The status messages come in pairs, and the last one tells whether the core runs.\<close>

fun alternating :: "string list \<Rightarrow> bool" where
  "alternating [] = True"
| "alternating [m] = (m = ''Running'')"
| "alternating (m # n # ms) = (m = ''Running'' \<and> n = ''Closed'' \<and> alternating ms)"

lemma alternating_snoc:
  "alternating ms \<Longrightarrow> even (length ms) \<Longrightarrow> alternating (ms @ [''Running''])"
  "alternating ms \<Longrightarrow> odd (length ms) \<Longrightarrow> alternating (ms @ [''Closed''])"
  by (induction ms rule: alternating.induct) auto

definition status_inv :: "system \<Rightarrow> bool" where
  "status_inv s \<longleftrightarrow> point_inv s \<and> alternating (statuses (sy_log s)) \<and> (vp_IsRunning (sy_v s) \<longleftrightarrow> odd (length (statuses (sy_log s))))"

lemma status_inv_keep:
  assumes "status_inv s" and "act env a s = Some s'"
  shows "status_inv s'"
proof -
  have P: "point_inv s" "point_inv s'" using assms pt.keep by (auto simp: status_inv_def)
  have l: "sy_thr s t = RunPoint \<Longrightarrow> sy_lock s = Some t" for t using P(1) by (auto simp: point_inv_def lock_inv_def dest: spec[of _ t])
  have nr: "sy_lock s \<noteq> None \<Longrightarrow> \<not> vp_IsRunning (sy_v s)" using P(1) by (auto simp: point_inv_def core_inv_def)
  have "alternating (statuses (sy_log s')) \<and> (vp_IsRunning (sy_v s') \<longleftrightarrow> odd (length (statuses (sy_log s'))))"
    using assms(2)
  proof (cases rule: act_cases)
    case frame
    then show ?thesis using assms(1) by (simp add: frame_def status_inv_def)
  next
    case (enter t u pref)
    then show ?thesis using assms(1) by (auto simp: run_enter_def setpc_def status_inv_def split: if_splits)
  next
    case (resolve t pref)
    then show ?thesis using assms(1) by (simp add: PrepareResolveChan_def setpc_def status_inv_def)
  next
    case (close t inrun)
    then show ?thesis using assms(1) by (auto simp: close_resolve_def setpc_def panics_def status_inv_def split: gocall.splits)
  next
    case (point t)
    then have "\<not> vp_IsRunning (sy_v s)" using l nr by blast
    then show ?thesis using point assms(1)
      by (auto simp: run_point_def pointloop_def setpc_def panics_def status_inv_def alternating_snoc split: core_outcome.splits)
  next
    case (stop t w)
    then show ?thesis using assms(1)
      by (auto simp: stop_step_def StopLoop_def shutdownInit_def setpc_def panics_def status_inv_def alternating_snoc
          split: option.splits if_splits gocall.splits)
  qed
  with P(2) show ?thesis by (simp add: status_inv_def)
qed

interpretation status: invariant "act env" status_inv "init_system (new_point adns domain)"
proof unfold_locales
  show "status_inv (init_system (new_point adns domain))"
    using point_inv_init by (simp add: status_inv_def init_system_def NewV2RayPoint_def)
qed (rule status_inv_keep)

text \<open>
  C16: the application is told the truth. In every reachable state the status messages sent so far are Running and Closed in turn,
  starting with Running, and the core runs exactly when the last message was Running.
\<close>

theorem status_alternates:
  assumes "reach env (new_point adns domain) s"
  shows "alternating (statuses (sy_log s)) \<and> (vp_IsRunning (sy_v s) \<longleftrightarrow> statuses (sy_log s) \<noteq> [] \<and> last (statuses (sy_log s)) = ''Running'')"
proof -
  have a: "alternating (statuses (sy_log s))" "vp_IsRunning (sy_v s) \<longleftrightarrow> odd (length (statuses (sy_log s)))"
    using status.always[OF assms] by (simp_all add: status_inv_def)
  have "alternating ms \<Longrightarrow> odd (length ms) \<longleftrightarrow> ms \<noteq> [] \<and> last ms = ''Running''" for ms
    by (induction ms rule: alternating.induct) auto
  with a show ?thesis by blast
qed

section \<open>Asynchronous starts and failed starts\<close>

text \<open>A core that always starts, and a resolver that never answers.\<close>

definition demo_point :: point_env where
  "demo_point = \<lparr>pe_core = (\<lambda>_. Starts), pe_lookup = (\<lambda>_. \<lparr>le_port = (\<lambda>_. Inr 443), le_ips = (\<lambda>_. Inl (ExtErr ''down'')), le_now = 0\<rparr>)\<rparr>"

text \<open>
  Start, stop and start again while the preparation of the first start still waits. Threads 1, 4 and 5 are the calls, 2 and 6 the
  watchers, 3 and 7 the preparations.
\<close>

definition restart_schedule :: "action list" where
  "restart_schedule =
     [CallRun 1 False, Go 1 0, Go 1 0, Go 1 2, Go 1 3, Go 1 0, Go 3 0, Go 3 0,
      CallStop 4, Go 4 0, CallRun 5 False, Go 5 0, Go 5 0, Go 5 6, Go 5 7, Go 5 0,
      Go 3 0, Go 3 0, Go 7 0, Go 7 0, CallStop 8, Go 8 0, Go 7 0, Go 7 0]"

text \<open>
  C21: with asynchronous resolution a restart can crash the process, even when the core always starts. The goroutine of a start closes whatever the resolve channel
  of the dialer is at that time; after a stop and a second start that is the channel of the second start, and when the second
  goroutine closes it again the program panics.
\<close>

theorem async_double_close:
  "\<exists>s. reach demo_point (new_point True ''a:443'') s \<and> sy_panic s \<and> sy_thr s 7 = CloseRes False"
proof -
  have "case run_schedule demo_point restart_schedule (init_system (new_point True ''a:443'')) of None \<Rightarrow> False
      | Some s \<Rightarrow> sy_panic s \<and> sy_thr s 7 = CloseRes False"
    by code_simp
  then obtain s where s: "run_schedule demo_point restart_schedule (init_system (new_point True ''a:443'')) = Some s"
    and "sy_panic s" "sy_thr s 7 = CloseRes False" by (auto split: option.splits)
  moreover have "reach demo_point (new_point True ''a:443'') s" by (rule run_steps_reachable[OF reachable.start s])
  ultimately show ?thesis by blast
qed

text \<open>The life of each instance of the core, by what the log says of it.\<close>

definition life_inv :: "system \<Rightarrow> bool" where
  "life_inv s \<longleftrightarrow> point_inv s
     \<and> (\<forall>i b. CoreStart i b \<in> set (sy_log s) \<longrightarrow> i < sy_runs s)
     \<and> (\<forall>i. CoreStart i False \<in> set (sy_log s) \<longrightarrow> CoreStart i True \<notin> set (sy_log s))
     \<and> (\<forall>i. CoreClose i \<in> set (sy_log s) \<longrightarrow> CoreStart i True \<in> set (sy_log s))
     \<and> (\<forall>i. CoreStart i True \<in> set (sy_log s) \<longrightarrow>
          (CoreClose i \<in> set (sy_log s) \<longleftrightarrow> \<not> (vp_IsRunning (sy_v s) \<and> vp_Vpoint (sy_v s) = Some i)))
     \<and> (\<forall>i. vp_IsRunning (sy_v s) \<and> vp_Vpoint (sy_v s) = Some i \<longrightarrow> CoreStart i True \<in> set (sy_log s))"

text \<open>A step that leaves the log (but for a shutdown), the counter and the running core alone.\<close>

lemma life_inv_same:
  assumes "life_inv s" and "point_inv s'" and "sy_log s' = sy_log s \<or> sy_log s' = sy_log s @ [SvcShutdown]" and "sy_runs s' = sy_runs s"
    and "vp_IsRunning (sy_v s') = vp_IsRunning (sy_v s)" and "vp_Vpoint (sy_v s') = vp_Vpoint (sy_v s)"
  shows "life_inv s'"
proof -
  have "CoreStart i b \<in> set (sy_log s') \<longleftrightarrow> CoreStart i b \<in> set (sy_log s)" "CoreClose i \<in> set (sy_log s') \<longleftrightarrow> CoreClose i \<in> set (sy_log s)" for i b
    using assms(3) by auto
  then show ?thesis using assms(1,2,4-6) by (simp add: life_inv_def)
qed

lemma life_inv_point:
  assumes "life_inv s" and "point_inv s'" and "\<not> vp_IsRunning (sy_v s)" and "s' = run_point env t s"
  shows "life_inv s'"
proof -
  have f: "CoreStart (sy_runs s) b \<notin> set (sy_log s)" "CoreClose (sy_runs s) \<notin> set (sy_log s)" for b
    using assms(1) by (auto simp: life_inv_def)
  have lt: "CoreStart i b \<in> set (sy_log s) \<Longrightarrow> i < Suc (sy_runs s)" for i b using assms(1) by (auto simp: life_inv_def less_Suc_eq)
  show ?thesis
  proof (cases "pe_core env (sy_runs s)")
    case NoStats
    then show ?thesis using assms by (auto simp: run_point_def pointloop_def panics_def life_inv_def)
  qed (use assms f lt in \<open>auto simp: run_point_def pointloop_def setpc_def life_inv_def\<close>)
qed

lemma life_inv_stop:
  assumes "life_inv s" and "point_inv s'" and "stop_step t w s = Some s'"
  shows "life_inv s'"
proof (cases "vp_IsRunning (sy_v s)")
  case False
  then show ?thesis using assms(3)
    by (intro life_inv_same[OF assms(1,2)]) (auto simp: stop_step_def StopLoop_def setpc_def split: if_splits)
next
  case True
  have P: "point_inv s" using assms(1) by (simp add: life_inv_def)
  obtain i where i: "vp_Vpoint (sy_v s) = Some i" using P True by (auto simp: point_inv_def core_inv_def)
  obtain v cl evs where "StopLoop (sy_v s) (sy_closed s) = Ret (v, cl, evs)"
    using StopLoop_safe P unfolding point_inv_def by blast
  then have s': "sy_log s' = sy_log s @ [CoreClose i, EmitStatus ''Closed'']" "\<not> vp_IsRunning (sy_v s')" "sy_runs s' = sy_runs s"
    using assms(3) True i by (auto simp: stop_step_def StopLoop_def shutdownInit_def setpc_def split: if_splits gocall.splits)
  have "CoreStart j b \<in> set (sy_log s') \<longleftrightarrow> CoreStart j b \<in> set (sy_log s)"
    "CoreClose j \<in> set (sy_log s') \<longleftrightarrow> CoreClose j \<in> set (sy_log s) \<or> j = i" for j b using s'(1) by auto
  then show ?thesis using assms(1,2) s'(2,3) i True by (simp add: life_inv_def)
qed

lemma life_inv_keep:
  assumes "life_inv s" and "act env a s = Some s'"
  shows "life_inv s'"
proof -
  have P: "point_inv s" "point_inv s'" using assms pt.keep by (auto simp: life_inv_def)
  have l: "sy_thr s t = RunPoint \<Longrightarrow> sy_lock s = Some t" for t using P(1) by (auto simp: point_inv_def lock_inv_def dest: spec[of _ t])
  have nr: "sy_lock s \<noteq> None \<Longrightarrow> \<not> vp_IsRunning (sy_v s)" using P(1) by (auto simp: point_inv_def core_inv_def)
  note same = life_inv_same[OF assms(1) P(2)]
  from assms(2) show ?thesis
  proof (cases rule: act_cases)
    case frame
    then show ?thesis by (intro same) (simp_all add: frame_def)
  next
    case (enter t u pref)
    then show ?thesis by (intro same) (auto simp: run_enter_def setpc_def split: if_splits)
  next
    case (resolve t pref)
    then show ?thesis by (intro same) (simp_all add: PrepareResolveChan_def setpc_def)
  next
    case (close t inrun)
    then show ?thesis by (intro same) (auto simp: close_resolve_def setpc_def panics_def split: gocall.splits)
  next
    case (point t)
    then have "\<not> vp_IsRunning (sy_v s)" using l nr by blast
    then show ?thesis using life_inv_point[OF assms(1) P(2)] point by blast
  next
    case (stop t w)
    then show ?thesis using life_inv_stop[OF assms(1) P(2)] by blast
  qed
qed

interpretation life: invariant "act env" life_inv "init_system (new_point adns domain)"
proof unfold_locales
  show "life_inv (init_system (new_point adns domain))"
    using point_inv_init by (simp add: life_inv_def init_system_def NewV2RayPoint_def)
qed (rule life_inv_keep)

text \<open>
  C17: A core that started is closed unless it is the one that runs, but a core that failed to start is never closed. The failed
  RunLoop keeps the instance with IsRunning false, StopLoop passes over it, and the next start replaces it.
\<close>

theorem core_lifecycle:
  assumes "reach env (new_point adns domain) s"
  shows "(CoreStart i True \<in> set (sy_log s) \<longrightarrow> (CoreClose i \<in> set (sy_log s) \<longleftrightarrow> \<not> (vp_IsRunning (sy_v s) \<and> vp_Vpoint (sy_v s) = Some i)))
    \<and> (CoreStart i False \<in> set (sy_log s) \<longrightarrow> CoreClose i \<notin> set (sy_log s))"
  using life.always[OF assms] unfolding life_inv_def by blast

text \<open>
  C18: an unresolved server stops the core. Once the resolve channel its watcher waits on is closed and no server was found, the watcher
  by itself, in four steps, closes the core if it runs, asks the service to shut down and ends.
\<close>

theorem watcher_stops_core:
  assumes "reach env (new_point adns domain) s" and "\<not> sy_panic s" and "sy_thr s t = WatchWait rc cc" and "ready_chan rc s"
    and "\<not> IsVServerReady (vp_dialer (sy_v s))" and "sy_lock s = None"
  shows "\<exists>s'. run_schedule env [Go t 0, Go t 0, Go t 0, Go t 0] s = Some s' \<and> \<not> sy_panic s' \<and> \<not> vp_IsRunning (sy_v s')
    \<and> sy_thr s' t = Finished \<and> last (sy_log s') = SvcShutdown"
proof -
  have "core_inv s" using pt.always[OF assms(1)] by (simp add: point_inv_def)
  then obtain v cl evs where "StopLoop (sy_v s) (sy_closed s) = Ret (v, cl, evs)" using StopLoop_safe by blast
  moreover from this have "\<not> vp_IsRunning v"
    by (auto simp: StopLoop_def shutdownInit_def split: if_splits gocall.splits option.splits)
  ultimately show ?thesis using assms(2-6) by (simp add: act_def go_def watch_wait_def stop_step_def setpc_def)
qed

section \<open>Sample runs\<close>

definition start_schedule :: "action list" where
  "start_schedule = [CallRun 1 False, Go 1 0, Go 1 0, Go 1 2, Go 1 3, Go 1 0]"

theorem StopLoop_never_panics_witness:
  "\<exists>s s'. run_schedule demo_point (start_schedule @ [CallStop 4]) (init_system (new_point True ''a:443'')) = Some s
     \<and> vp_IsRunning (sy_v s) \<and> act demo_point (Go 4 0) s = Some s' \<and> \<not> sy_panic s' \<and> \<not> vp_IsRunning (sy_v s')"
proof -
  have "case run_schedule demo_point (start_schedule @ [CallStop 4]) (init_system (new_point True ''a:443'')) of None \<Rightarrow> False
      | Some s \<Rightarrow> vp_IsRunning (sy_v s) \<and> \<not> sy_panic s \<and> sy_thr s 4 = StopWait False \<and> sy_lock s = None" by code_simp
  then obtain s where s: "run_schedule demo_point (start_schedule @ [CallStop 4]) (init_system (new_point True ''a:443'')) = Some s"
    "reach demo_point (new_point True ''a:443'') s"
    "vp_IsRunning (sy_v s) \<and> \<not> sy_panic s \<and> sy_thr s 4 = StopWait False \<and> sy_lock s = None" by (rule sample_run)
  then obtain s' where "act demo_point (Go 4 0) s = Some s' \<and> \<not> sy_panic s' \<and> \<not> vp_IsRunning (sy_v s')"
    using StopLoop_never_panics[OF s(2), of 4 False 0] by auto
  then show ?thesis using s(1,3) by (intro exI[of _ s] exI[of _ s']) simp
qed

theorem sync_never_panics_witness:
  "\<exists>s. run_schedule (demo_point\<lparr>pe_core := \<lambda>_. StartFails IOTimeout\<rparr>) [CallRun 1 False, Go 1 0, Go 1 0, Go 1 2, Go 1 0, Go 1 0]
       (init_system (new_point False ''a:443'')) = Some s \<and> \<not> sy_panic s"
proof -
  let ?env = "demo_point\<lparr>pe_core := \<lambda>_. StartFails IOTimeout\<rparr>" and ?as = "[CallRun 1 False, Go 1 0, Go 1 0, Go 1 2, Go 1 0, Go 1 0]"
  have "case run_schedule ?env ?as (init_system (new_point False ''a:443'')) of None \<Rightarrow> False | Some s \<Rightarrow> True" by code_simp
  then obtain s where s: "run_schedule ?env ?as (init_system (new_point False ''a:443'')) = Some s" "reach ?env (new_point False ''a:443'') s"
    by (rule sample_run)
  have "pe_core ?env n \<noteq> NoStats" for n by simp
  from sync_never_panics[OF s(2) this] s(1) show ?thesis by blast
qed

theorem status_alternates_witness:
  "\<exists>s. run_schedule demo_point (take 10 restart_schedule) (init_system (new_point True ''a:443'')) = Some s
     \<and> statuses (sy_log s) = [''Running'', ''Closed''] \<and> alternating (statuses (sy_log s)) \<and> \<not> vp_IsRunning (sy_v s)"
proof -
  have "case run_schedule demo_point (take 10 restart_schedule) (init_system (new_point True ''a:443'')) of None \<Rightarrow> False
      | Some s \<Rightarrow> statuses (sy_log s) = [''Running'', ''Closed'']" by code_simp
  then obtain s where s: "run_schedule demo_point (take 10 restart_schedule) (init_system (new_point True ''a:443'')) = Some s"
    "reach demo_point (new_point True ''a:443'') s" "statuses (sy_log s) = [''Running'', ''Closed'']" by (rule sample_run)
  from status_alternates[OF s(2)] s(1,3) show ?thesis by auto
qed

theorem core_lifecycle_witness:
  "\<exists>s. run_schedule (demo_point\<lparr>pe_core := \<lambda>n. if n = 0 then StartFails IOTimeout else Starts\<rparr>)
       (start_schedule @ [CallRun 5 False, Go 5 0, Go 5 0, Go 5 6, Go 5 7, Go 5 0, CallStop 8, Go 8 0]) (init_system (new_point True ''a:443'')) = Some s
     \<and> CoreStart 0 False \<in> set (sy_log s) \<and> CoreClose 0 \<notin> set (sy_log s) \<and> CoreStart 1 True \<in> set (sy_log s) \<and> CoreClose 1 \<in> set (sy_log s)"
proof -
  let ?env = "demo_point\<lparr>pe_core := \<lambda>n. if n = 0 then StartFails IOTimeout else Starts\<rparr>"
  let ?as = "start_schedule @ [CallRun 5 False, Go 5 0, Go 5 0, Go 5 6, Go 5 7, Go 5 0, CallStop 8, Go 8 0]"
  have "case run_schedule ?env ?as (init_system (new_point True ''a:443'')) of None \<Rightarrow> False
      | Some s \<Rightarrow> CoreStart 0 False \<in> set (sy_log s) \<and> CoreStart 1 True \<in> set (sy_log s) \<and> \<not> vp_IsRunning (sy_v s)" by code_simp
  then obtain s where s: "run_schedule ?env ?as (init_system (new_point True ''a:443'')) = Some s" "reach ?env (new_point True ''a:443'') s"
    "CoreStart 0 False \<in> set (sy_log s) \<and> CoreStart 1 True \<in> set (sy_log s) \<and> \<not> vp_IsRunning (sy_v s)" by (rule sample_run)
  from core_lifecycle[OF s(2), of 0] core_lifecycle[OF s(2), of 1] s(1,3) show ?thesis by blast
qed

theorem watcher_stops_core_witness:
  "\<exists>s s'. run_schedule demo_point (take 10 restart_schedule @ [Go 2 0, Go 3 0, Go 3 0, CallRun 5 False, Go 5 0, Go 5 0, Go 5 6, Go 5 7, Go 5 0])
       (init_system (new_point True ''a:443'')) = Some s
     \<and> vp_IsRunning (sy_v s) \<and> run_schedule demo_point [Go 2 0, Go 2 0, Go 2 0, Go 2 0] s = Some s' \<and> \<not> vp_IsRunning (sy_v s')
     \<and> last (sy_log s') = SvcShutdown"
proof -
  let ?as = "take 10 restart_schedule @ [Go 2 0, Go 3 0, Go 3 0, CallRun 5 False, Go 5 0, Go 5 0, Go 5 6, Go 5 7, Go 5 0]"
  have "case run_schedule demo_point ?as (init_system (new_point True ''a:443'')) of None \<Rightarrow> False
      | Some s \<Rightarrow> vp_IsRunning (sy_v s) \<and> \<not> sy_panic s \<and> sy_thr s 2 = WatchWait (Some 1) (Some 0) \<and> ready_chan (Some 1) s
          \<and> \<not> IsVServerReady (vp_dialer (sy_v s)) \<and> sy_lock s = None" by code_simp
  then obtain s where s: "run_schedule demo_point ?as (init_system (new_point True ''a:443'')) = Some s"
    "reach demo_point (new_point True ''a:443'') s"
    "vp_IsRunning (sy_v s) \<and> \<not> sy_panic s \<and> sy_thr s 2 = WatchWait (Some 1) (Some 0) \<and> ready_chan (Some 1) s
      \<and> \<not> IsVServerReady (vp_dialer (sy_v s)) \<and> sy_lock s = None" by (rule sample_run)
  then obtain s' where "run_schedule demo_point [Go 2 0, Go 2 0, Go 2 0, Go 2 0] s = Some s' \<and> \<not> vp_IsRunning (sy_v s')
      \<and> last (sy_log s') = SvcShutdown"
    using watcher_stops_core[OF s(2), of 2 "Some 1" "Some 0"] by auto
  then show ?thesis using s(1,3) by (intro exI[of _ s] exI[of _ s']) (simp del: run_steps.simps)
qed

end
