(* ===== verification/Core_Dials.thy ===== *)
theory Core_Dials
  imports Point
begin

text \<open>
  The core and its dialer at work together: while \<^verbatim>\<open>RunLoop\<close>, \<^verbatim>\<open>StopLoop\<close> and the preparations of \<open>Point\<close> run, the goroutines of the
  core call \<^verbatim>\<open>Dial\<close> of \<^verbatim>\<open>libv2ray_support.go\<close> (lines 231 to 286) on the same dialer. \<open>Support\<close> has that function as one atomic operation;
  here every read of a field of the dialer is a step of its own, because a preparation may store a new server and another
  dial may switch the address between any two of them. System calls touch nothing shared, so \<^verbatim>\<open>fdConn\<close> stays one step.
\<close>

section \<open>The threads of dials\<close>

text \<open>
  Program counters of a dial: called; the address is that of the server; no server is there; waiting on the resolve channel; woken
  up; the server is there; the socket is open; its address is read; the connection failed with an error; the address is
  another one; returned. The last says whether the dial went to the prepared server.
\<close>

datatype dpc =
    DNone
  | DCall network string
  | DServer network
  | DPend network
  | DWait network "nat option"
  | DAgain network
  | DSocket network
  | DAddr network int
  | DConnect network int "ip option"
  | DRotate go_error
  | DOther network string
  | DDone bool "conn res"

record dials =
  cd_sys :: system
  cd_thr :: "nat \<Rightarrow> dpc"
  cd_calls :: "(nat \<times> syscall) list"
  cd_crash :: bool

record dials_env =
  de_point :: point_env
  de_sock :: "nat \<Rightarrow> sock_env"
  de_lookup :: "nat \<Rightarrow> lookup_env"

definition init_dials :: "V2RayPoint \<Rightarrow> dials" where
  "init_dials v = \<lparr>cd_sys = init_system v, cd_thr = (\<lambda>_. DNone), cd_calls = [], cd_crash = False\<rparr>"

definition setd :: "nat \<Rightarrow> dpc \<Rightarrow> dials \<Rightarrow> dials" where
  "setd t p s = s\<lparr>cd_thr := (cd_thr s)(t := p)\<rparr>"

definition syscalls :: "nat \<Rightarrow> syscall list \<Rightarrow> dials \<Rightarrow> dials" where
  "syscalls t cs s = s\<lparr>cd_calls := cd_calls s @ map (Pair t) cs\<rparr>"

definition crash :: "dials \<Rightarrow> dials" where
  "crash s = s\<lparr>cd_crash := True\<rparr>"

abbreviation shared :: "dials \<Rightarrow> ProtectedDialer" where
  "shared s \<equiv> vp_dialer (sy_v (cd_sys s))"

text \<open>The switch to the next address after a failed connection (line 264).\<close>

definition dial_rotate :: "gotime \<Rightarrow> nat \<Rightarrow> go_error \<Rightarrow> dials \<Rightarrow> dials" where
  "dial_rotate now t err s =
     (case pd_vServer (shared s) of
        None \<Rightarrow> crash s
      | Some r \<Rightarrow>
          (case NextIP now r of
             Panic \<Rightarrow> crash s
           | Ret r' \<Rightarrow> setd t (DDone True (Inl err)) (s\<lparr>cd_sys := store_server r' (cd_sys s)\<rparr>)))"

text \<open>A dial to any other address (lines 271 to 285).\<close>

definition dial_other :: "lookup_env \<Rightarrow> sock_env \<Rightarrow> nat \<Rightarrow> network \<Rightarrow> string \<Rightarrow> dials \<Rightarrow> dials" where
  "dial_other lenv env t net Address s =
     (case lookupAddr lenv (shared s) Address of
        Inl err \<Rightarrow> setd t (DDone False (Inl err)) s
      | Inr r \<Rightarrow>
          (case getFd env net of
             Inl err \<Rightarrow> setd t (DDone False (Inl err)) s
           | Inr fd \<Rightarrow>
               (case go_index (rs_IPs r) 0 of
                  Panic \<Rightarrow> crash s
                | Ret a \<Rightarrow> (case fdConn env (Some a) (rs_Port r) fd net of
                             (c, tr) \<Rightarrow> setd t (DDone False c) (syscalls t (Socket net fd # tr) s)))))"

definition dial_go :: "dials_env \<Rightarrow> nat \<Rightarrow> dials \<Rightarrow> dials option" where
  "dial_go env t s =
     (case cd_thr s t of
        DNone \<Rightarrow> None
      | DDone _ _ \<Rightarrow> None
      | DCall net Address \<Rightarrow> Some (setd t (if Address = pd_currentServer (shared s) then DServer net else DOther net Address) s)
      | DServer net \<Rightarrow> Some (setd t (if pd_vServer (shared s) = None then DPend net else DSocket net) s)
      | DPend net \<Rightarrow> Some (setd t (DWait net (vp_resolveChan (sy_v (cd_sys s)))) s)
      | DWait net c \<Rightarrow> if ready_chan c (cd_sys s) then Some (setd t (DAgain net) s) else None
      | DAgain net \<Rightarrow>
          Some (setd t (if pd_vServer (shared s) = None
                        then DDone True (Inl (Errorf ''fail to prepare domain %s'' [S (pd_currentServer (shared s))]))
                        else DSocket net) s)
      | DSocket net \<Rightarrow>
          (case getFd (de_sock env t) net of
             Inl err \<Rightarrow> Some (setd t (DDone True (Inl err)) s)
           | Inr fd \<Rightarrow> Some (setd t (DAddr net fd) (syscalls t [Socket net fd] s)))
      | DAddr net fd \<Rightarrow>
          (case currentIP (pd_vServer (shared s)) of
             Panic \<Rightarrow> Some (crash s)
           | Ret curIP \<Rightarrow> Some (setd t (DConnect net fd curIP) s))
      | DConnect net fd curIP \<Rightarrow>
          (case pd_vServer (shared s) of
             None \<Rightarrow> Some (crash s)
           | Some r \<Rightarrow>
               (case fdConn (de_sock env t) curIP (rs_Port r) fd net of
                  (Inl err, tr) \<Rightarrow> Some (setd t (DRotate err) (syscalls t tr s))
                | (Inr c, tr) \<Rightarrow> Some (setd t (DDone True (Inr c)) (syscalls t tr s))))
      | DRotate err \<Rightarrow> Some (dial_rotate (se_now (de_sock env t)) t err s)
      | DOther net Address \<Rightarrow> Some (dial_other (de_lookup env t) (de_sock env t) t net Address s))"

datatype dial_action = Core action | CallDial nat network string | DialGo nat

definition dial_act :: "dials_env \<Rightarrow> dial_action \<Rightarrow> dials \<Rightarrow> dials option" where
  "dial_act env a s =
     (if sy_panic (cd_sys s) \<or> cd_crash s then None
      else case a of
          Core (DialFailed _) \<Rightarrow> None
        | Core b \<Rightarrow> (case act (de_point env) b (cd_sys s) of None \<Rightarrow> None | Some s1 \<Rightarrow> Some (s\<lparr>cd_sys := s1\<rparr>))
        | CallDial t net Address \<Rightarrow> if cd_thr s t = DNone then Some (setd t (DCall net Address) s) else None
        | DialGo t \<Rightarrow> dial_go env t s)"

abbreviation dreach :: "dials_env \<Rightarrow> V2RayPoint \<Rightarrow> dials \<Rightarrow> bool" where
  "dreach env v \<equiv> reachable (init_dials v) (dial_act env)"

text \<open>The machine whose application is patient.\<close>

definition dial_patient :: "dial_action \<Rightarrow> dials \<Rightarrow> bool" where
  "dial_patient a s = (case a of Core b \<Rightarrow> patient b (cd_sys s) | _ \<Rightarrow> True)"

section \<open>The core does not notice\<close>

lemmas dial_defs = setd_def syscalls_def crash_def

lemma dial_other_sys [simp]: "cd_sys (dial_other lenv env t net a s) = cd_sys s"
  by (simp add: dial_other_def dial_defs split: sum.splits gocall.splits prod.splits)

lemma dial_rotate_sys:
  "cd_sys (dial_rotate now t err s) = cd_sys s \<or> dial_failed now (cd_sys s) = Some (cd_sys (dial_rotate now t err s))"
  by (simp add: dial_rotate_def dial_failed_def dial_defs split: option.splits gocall.splits)

lemma dial_go_sys:
  assumes "dial_go env t s = Some s'"
  shows "cd_sys s' = cd_sys s \<or> (\<exists>now. dial_failed now (cd_sys s) = Some (cd_sys s'))"
proof (cases "cd_thr s t")
  case (DRotate err)
  then show ?thesis using assms dial_rotate_sys[of "se_now (de_sock env t)" t err s] by (auto simp: dial_go_def)
qed (use assms in \<open>auto simp: dial_go_def dial_defs split: if_splits sum.splits gocall.splits option.splits prod.splits\<close>)

lemma dial_act_sys:
  assumes "dial_act env a s = Some s'"
  shows "cd_sys s' = cd_sys s \<or> (\<exists>b. act (de_point env) b (cd_sys s) = Some (cd_sys s') \<and> (dial_patient a s \<longrightarrow> patient b (cd_sys s)))"
proof (cases a)
  case (Core b)
  then show ?thesis using assms by (cases b) (auto simp: dial_act_def dial_patient_def split: if_splits option.splits)
next
  case (CallDial t net Address)
  then show ?thesis using assms by (auto simp: dial_act_def setd_def split: if_splits)
next
  case (DialGo t)
  then have "dial_go env t s = Some s'" "\<not> sy_panic (cd_sys s)" using assms by (auto simp: dial_act_def split: if_splits)
  then have "cd_sys s' = cd_sys s \<or> (\<exists>now. act (de_point env) (DialFailed now) (cd_sys s) = Some (cd_sys s'))"
    using dial_go_sys by (auto simp: act_def)
  moreover have "patient (DialFailed now) x" for now x by (simp add: patient_def)
  ultimately show ?thesis by blast
qed

interpretation dsim: simulation "dial_act env" "act (de_point env)" cd_sys
  using dial_act_sys by unfold_locales blast

interpretation dsim_patient: simulation "guarded dial_patient (dial_act env)" "guarded patient (act (de_point env))" cd_sys
proof unfold_locales
  show "cd_sys s' = cd_sys s \<or> (\<exists>b. guarded patient (act (de_point env)) b (cd_sys s) = Some (cd_sys s'))"
    if "guarded dial_patient (dial_act env) a s = Some s'" for a s s'
  proof -
    have "dial_patient a s" "dial_act env a s = Some s'" using that by (auto simp: guarded_def split: if_splits)
    then show ?thesis using dial_act_sys by (fastforce simp: guarded_def)
  qed
qed

lemma cd_sys_init [simp]: "cd_sys (init_dials v) = init_system v"
  by (simp add: init_dials_def)

section \<open>The server in use\<close>

text \<open>The record comes from lookup \<open>k\<close> of the domain, up to switches of the address.\<close>

definition from_lookup :: "point_env \<Rightarrow> string \<Rightarrow> nat \<Rightarrow> resolved \<Rightarrow> bool" where
  "from_lookup env domain k r \<longleftrightarrow>
     (\<exists>d r0. lookupAddr (pe_lookup env k) d domain = Inr r0 \<and> rs_IPs r = rs_IPs r0 \<and> rs_Port r = rs_Port r0)"

text \<open>The server that is stored is usable and comes from a lookup of the configured domain that was made.\<close>

definition served :: "point_env \<Rightarrow> string \<Rightarrow> system \<Rightarrow> bool" where
  "served env domain s \<longleftrightarrow> vp_DomainName (sy_v s) = domain
     \<and> (\<forall>r. pd_vServer (vp_dialer (sy_v s)) = Some r \<longrightarrow> resolved_ok r \<and> (\<exists>k < sy_looks s. from_lookup env domain k r))"

lemma NextIP_Port: "NextIP now r = Ret r' \<Longrightarrow> rs_Port r' = rs_Port r"
  by (auto simp: NextIP_def Let_def split: if_splits gocall.splits)

lemma from_lookup_next: "resolved_ok r \<Longrightarrow> NextIP now r = Ret r' \<Longrightarrow> from_lookup env domain k r \<Longrightarrow> resolved_ok r' \<and> from_lookup env domain k r'"
  using NextIP_safe[of r now] NextIP_Port[of now r r'] by (auto simp: from_lookup_def)

text \<open>How the fields a dial reads can change in a step of the core.\<close>

lemma pointloop_dialer: "pointloop c i v = Ret (e, v', evs) \<Longrightarrow> vp_dialer v' = vp_dialer v \<and> vp_DomainName v' = vp_DomainName v"
  by (auto simp: pointloop_def split: core_outcome.splits)

lemma StopLoop_dialer: "StopLoop v cl = Ret (v', cl', evs) \<Longrightarrow> vp_dialer v' = vp_dialer v \<and> vp_DomainName v' = vp_DomainName v"
  by (auto simp: StopLoop_def shutdownInit_def split: if_splits gocall.splits option.splits)

lemma go_server:
  assumes "go env t u s = Some s'"
  shows "vp_DomainName (sy_v s') = vp_DomainName (sy_v s) \<and>
    (pd_vServer (vp_dialer (sy_v s')) = pd_vServer (vp_dialer (sy_v s)) \<and> sy_looks s \<le> sy_looks s'
     \<or> (\<exists>r. pd_vServer (vp_dialer (sy_v s')) = Some r \<and> sy_looks s' = Suc (sy_looks s)
         \<and> lookupAddr (pe_lookup env (sy_looks s)) (vp_dialer (sy_v s)) (vp_DomainName (sy_v s)) = Inr r))"
proof (cases "sy_thr s t")
  case (Lookup inrun cc k)
  then show ?thesis using assms by (auto simp: go_def prep_lookup_def setpc_def Let_def split: nat.splits sum.splits)
next
  case RunPoint
  then show ?thesis using assms by (auto simp: go_def run_point_def setpc_def panics_def split: gocall.splits dest: pointloop_dialer)
next
  case (StopWait w)
  then show ?thesis using assms
    by (auto simp: go_def stop_step_def setpc_def panics_def split: gocall.splits if_splits dest: StopLoop_dialer)
qed (use assms in \<open>auto simp: go_def run_enter_def PrepareResolveChan_def spawn_def prep_wait_def close_resolve_def watch_wait_def
  setpc_def panics_def begin_prepare_def Let_def split: if_splits gocall.splits\<close>)

lemma served_keep:
  assumes "served env domain s" and "act env a s = Some s'"
  shows "served env domain s'"
proof (cases a)
  case (Go t u)
  then have "go env t u s = Some s'" using assms(2) by (auto simp: act_def split: if_splits)
  from go_server[OF this] show ?thesis
  proof (elim conjE disjE exE)
    assume "vp_DomainName (sy_v s') = vp_DomainName (sy_v s)" "pd_vServer (vp_dialer (sy_v s')) = pd_vServer (vp_dialer (sy_v s))"
      and "sy_looks s \<le> sy_looks s'"
    then show ?thesis using assms(1) unfolding served_def by (metis less_le_trans)
  next
    fix r assume n: "vp_DomainName (sy_v s') = vp_DomainName (sy_v s)" "pd_vServer (vp_dialer (sy_v s')) = Some r" "sy_looks s' = Suc (sy_looks s)"
      and l: "lookupAddr (pe_lookup env (sy_looks s)) (vp_dialer (sy_v s)) (vp_DomainName (sy_v s)) = Inr r"
    have "from_lookup env domain (sy_looks s) r" using l assms(1) by (auto simp: from_lookup_def served_def)
    then show ?thesis using n assms(1) lookupAddr_resolved_ok[OF l] by (auto simp: served_def)
  qed
next
  case (DialFailed now)
  then obtain r r' where r: "pd_vServer (vp_dialer (sy_v s)) = Some r" "NextIP now r = Ret r'" "s' = store_server r' s"
    using assms(2) by (auto simp: act_def dial_failed_def split: if_splits option.splits gocall.splits)
  then show ?thesis using assms(1) from_lookup_next[OF _ r(2)] by (fastforce simp: served_def store_server_def)
qed (use assms in \<open>auto simp: act_def spawn_def setpc_def served_def split: if_splits\<close>)

interpretation srv: invariant "act env" "served env domain" "init_system (new_point adns domain)"
proof unfold_locales
  show "served env domain (init_system (new_point adns domain))"
    by (simp add: served_def init_system_def NewV2RayPoint_def NewPreotectedDialer_def)
qed (rule served_keep)

section \<open>No dial crashes\<close>

definition resolved_ip :: "point_env \<Rightarrow> string \<Rightarrow> nat \<Rightarrow> ip option \<Rightarrow> bool" where
  "resolved_ip env domain n a \<longleftrightarrow> (\<exists>b k r. a = Some b \<and> k < n \<and> from_lookup env domain k r \<and> b \<in> set (rs_IPs r))"

definition resolved_port :: "point_env \<Rightarrow> string \<Rightarrow> nat \<Rightarrow> int \<Rightarrow> bool" where
  "resolved_port env domain n p \<longleftrightarrow> (\<exists>k r. k < n \<and> from_lookup env domain k r \<and> p = rs_Port r)"

fun conn_ok :: "point_env \<Rightarrow> string \<Rightarrow> nat \<Rightarrow> conn \<Rightarrow> bool" where
  "conn_ok env domain n (TCPConn a p) = (resolved_ip env domain n a \<and> resolved_port env domain n p)"
| "conn_ok env domain n (PacketConnWrapper a p) = (resolved_ip env domain n a \<and> resolved_port env domain n p)"

text \<open>What a dial may rely on at each point: once it has seen a server there is one, and the address it read was resolved.\<close>

fun dial_ok :: "point_env \<Rightarrow> string \<Rightarrow> nat \<Rightarrow> bool \<Rightarrow> dpc \<Rightarrow> bool" where
  "dial_ok env domain n ready (DSocket _) = ready"
| "dial_ok env domain n ready (DAddr _ _) = ready"
| "dial_ok env domain n ready (DConnect _ _ a) = (ready \<and> resolved_ip env domain n a)"
| "dial_ok env domain n ready (DRotate _) = ready"
| "dial_ok env domain n ready (DDone True (Inr c)) = conn_ok env domain n c"
| "dial_ok env domain n ready _ = True"

definition dial_inv :: "dials_env \<Rightarrow> string \<Rightarrow> dials \<Rightarrow> bool" where
  "dial_inv env domain s \<longleftrightarrow> served (de_point env) domain (cd_sys s) \<and> \<not> cd_crash s
     \<and> (\<forall>t. dial_ok (de_point env) domain (sy_looks (cd_sys s)) (IsVServerReady (shared s)) (cd_thr s t))"

lemma resolved_mono: "n \<le> m \<Longrightarrow> resolved_ip env domain n a \<Longrightarrow> resolved_ip env domain m a"
  "n \<le> m \<Longrightarrow> resolved_port env domain n p \<Longrightarrow> resolved_port env domain m p"
  unfolding resolved_ip_def resolved_port_def by (metis less_le_trans)+

lemma dial_ok_mono: "n \<le> m \<Longrightarrow> (ready \<longrightarrow> ready') \<Longrightarrow> dial_ok env domain n ready p \<Longrightarrow> dial_ok env domain m ready' p"
  by (induction env domain n ready p rule: dial_ok.induct) (auto intro: resolved_mono elim!: conn_ok.elims)

lemma fdConn_conn: "fdConn env a port fd net = (Inr c, tr) \<Longrightarrow> c = TCPConn a port \<or> c = PacketConnWrapper a port"
  by (auto simp: fdConn_def Let_def split: if_splits option.splits prod.splits)

text \<open>Steps of the core only add lookups and servers.\<close>

lemma act_server_grows:
  assumes "act env a s = Some s'"
  shows "sy_looks s \<le> sy_looks s' \<and> (IsVServerReady (vp_dialer (sy_v s)) \<longrightarrow> IsVServerReady (vp_dialer (sy_v s')))"
proof (cases a)
  case (Go t u)
  then have "go env t u s = Some s'" using assms by (auto simp: act_def split: if_splits)
  from go_server[OF this] show ?thesis by (auto simp: IsVServerReady_def)
qed (use assms in \<open>auto simp: act_def spawn_def setpc_def dial_failed_def store_server_def IsVServerReady_def split: if_splits option.splits gocall.splits\<close>)

lemma dial_inv_core:
  assumes "dial_inv env domain s" and "act (de_point env) b (cd_sys s) = Some s1"
  shows "dial_inv env domain (s\<lparr>cd_sys := s1\<rparr>)"
  using assms served_keep[OF _ assms(2)] act_server_grows[OF assms(2)] by (auto simp: dial_inv_def intro: dial_ok_mono)

text \<open>Steps of one dial.\<close>

lemma dial_inv_thread:
  assumes "dial_inv env domain s" and "dial_ok (de_point env) domain (sy_looks (cd_sys s)) (IsVServerReady (shared s)) p"
  shows "dial_inv env domain (setd t p (syscalls t cs s))" "dial_inv env domain (setd t p s)"
  using assms by (auto simp: dial_inv_def dial_defs)

lemma dial_inv_other: "dial_inv env domain s \<Longrightarrow> dial_inv env domain (dial_other lenv senv t net a s)"
proof -
  assume i: "dial_inv env domain s"
  have "go_index (rs_IPs r) 0 \<noteq> Panic" if "lookupAddr lenv (shared s) a = Inr r" for r
    using lookupAddr_resolved_ok[OF that] by (auto simp: resolved_ok_def go_index_def)
  then show ?thesis using i by (auto simp: dial_other_def dial_inv_thread split: sum.splits gocall.splits prod.splits)
qed

lemma dial_inv_rotate:
  assumes "dial_inv env domain s" and "IsVServerReady (shared s)"
  shows "dial_inv env domain (dial_rotate now t err s)"
proof -
  obtain r where r: "pd_vServer (shared s) = Some r" using assms(2) by (auto simp: IsVServerReady_def)
  then have ok: "resolved_ok r" using assms(1) by (auto simp: dial_inv_def served_def)
  then obtain r' where r': "NextIP now r = Ret r'" using NextIP_safe by blast
  let ?s1 = "s\<lparr>cd_sys := store_server r' (cd_sys s)\<rparr>"
  have "served (de_point env) domain (store_server r' (cd_sys s))"
    using assms(1) r from_lookup_next[OF ok r'] by (fastforce simp: dial_inv_def served_def store_server_def)
  then have "dial_inv env domain ?s1" using assms by (simp add: dial_inv_def store_server_def IsVServerReady_def)
  then show ?thesis using r r' by (simp add: dial_rotate_def dial_inv_thread)
qed

lemma dial_inv_go:
  assumes "dial_inv env domain s" and "dial_go env t s = Some s'"
  shows "dial_inv env domain s'"
proof -
  let ?n = "sy_looks (cd_sys s)" and ?rd = "IsVServerReady (shared s)"
  have ok: "dial_ok (de_point env) domain ?n ?rd (cd_thr s t)" using assms(1) by (simp add: dial_inv_def)
  have srv: "resolved_ok r \<and> (\<exists>k < ?n. from_lookup (de_point env) domain k r)" if "pd_vServer (shared s) = Some r" for r
    using assms(1) that by (simp add: dial_inv_def served_def)
  note th = dial_inv_thread[OF assms(1)]
  show ?thesis
  proof (cases "cd_thr s t")
    case (DAddr net fd)
    then obtain r where r: "pd_vServer (shared s) = Some r" using ok by (auto simp: IsVServerReady_def)
    then obtain a where "currentIP (Some r) = Ret (Some a)" "a \<in> set (rs_IPs r)" using currentIP_safe srv by blast
    moreover from this have "resolved_ip (de_point env) domain ?n (Some a)" using srv[OF r] by (auto simp: resolved_ip_def)
    ultimately show ?thesis using assms(2) DAddr r ok by (auto simp: dial_go_def intro!: th)
  next
    case (DConnect net fd a)
    then obtain r where r: "pd_vServer (shared s) = Some r" using ok by (auto simp: IsVServerReady_def)
    then have "resolved_port (de_point env) domain ?n (rs_Port r)" using srv by (auto simp: resolved_port_def)
    then show ?thesis using assms(2) DConnect r ok
      by (auto simp: dial_go_def split: prod.splits sum.splits dest!: fdConn_conn intro!: th)
  next
    case (DRotate err)
    then show ?thesis using assms(2) ok dial_inv_rotate[OF assms(1)] by (auto simp: dial_go_def)
  next
    case (DOther net addr)
    then show ?thesis using assms(2) dial_inv_other[OF assms(1)] by (auto simp: dial_go_def)
  qed (use assms(2) ok in \<open>auto simp: dial_go_def IsVServerReady_def split: if_splits sum.splits intro!: th\<close>)
qed

lemma dial_inv_keep:
  assumes "dial_inv env domain s" and "dial_act env a s = Some s'"
  shows "dial_inv env domain s'"
proof (cases a)
  case (Core b)
  then obtain s1 where "act (de_point env) b (cd_sys s) = Some s1" "s' = s\<lparr>cd_sys := s1\<rparr>"
    using assms(2) by (cases b) (auto simp: dial_act_def split: if_splits option.splits)
  then show ?thesis using dial_inv_core[OF assms(1)] by simp
next
  case (CallDial t net addr)
  then show ?thesis using assms by (auto simp: dial_act_def intro: dial_inv_thread split: if_splits)
next
  case (DialGo t)
  then show ?thesis using assms dial_inv_go by (auto simp: dial_act_def split: if_splits)
qed

interpretation dl: invariant "dial_act env" "dial_inv env domain" "init_dials (new_point adns domain)"
proof unfold_locales
  show "dial_inv env domain (init_dials (new_point adns domain))"
    using srv.init by (simp add: dial_inv_def init_dials_def)
qed (rule dial_inv_keep)

interpretation dcalm: simulated_invariant "guarded dial_patient (dial_act env)" "guarded patient (act (de_point env))" cd_sys
  "patient_safe (de_point env)" "init_dials (new_point adns domain)"
  using calmly.keep calmly.init by unfold_locales (auto simp del: point_defs)

text \<open>
  The core, its watchers, its preparations and its dials together never crash. However starts, stops and dials interleave, as long as the
  application is patient and the core has a statistics feature, no channel is closed twice, no missing core or server is used, and no
  index is out of range.
\<close>

theorem dials_never_crash:
  assumes "reachable (init_dials (new_point adns domain)) (guarded dial_patient (dial_act env)) s" and "\<And>n. pe_core (de_point env) n \<noteq> NoStats"
  shows "\<not> sy_panic (cd_sys s) \<and> \<not> cd_crash s"
  using dcalm.lifted.always[OF assms(1)] dl.always[OF guarded_reachable[OF assms(1)]] assms(2)
  by (simp add: patient_safe_def prep_inv_def dial_inv_def)


section \<open>A dial alone is Dial\<close>

lemma dial_act_go: "\<not> sy_panic (cd_sys s) \<Longrightarrow> \<not> cd_crash s \<Longrightarrow> dial_act env (DialGo t) s = dial_go env t s"
  by (simp add: dial_act_def)

lemma dial_connect_steps:
  assumes "Dial (de_lookup env t) (de_sock env t) None (shared s) net Address = Ret (r, d, tr)" and "Address = pd_currentServer (shared s)"
    and "pd_vServer (shared s) = Some srv" and "getFd (de_sock env t) net = Inr fd"
    and "cd_thr s t = DCall net Address" and "\<not> sy_panic (cd_sys s)" and "\<not> cd_crash s"
  shows "\<exists>n s'. run_steps (dial_act env) (replicate n (DialGo t)) s = Some s' \<and> cd_thr s' t = DDone True r
    \<and> shared s' = d \<and> cd_calls s' = cd_calls s @ map (Pair t) tr"
proof -
  obtain a where a: "currentIP (Some srv) = Ret a" using assms(1-4) by (auto simp: Dial_def Let_def split: gocall.splits)
  obtain c tr1 where f: "fdConn (de_sock env t) a (rs_Port srv) fd net = (c, tr1)" by (rule prod.exhaust)
  show ?thesis
  proof (cases c)
    case (Inr c')
    then show ?thesis using a f assms
      by (intro exI[of _ 5]) (auto simp: eval_nat_numeral dial_act_go dial_go_def dial_defs Dial_def)
  next
    case (Inl err)
    then show ?thesis using a f assms
      by (intro exI[of _ 6]) (auto simp: eval_nat_numeral dial_act_go dial_go_def dial_rotate_def store_server_def dial_defs Dial_def split: gocall.splits)
  qed
qed

text \<open>
  C14: the atomic operation is the run of one dial that nothing interrupts: same result, same dialer, same system calls. If there
  is no server, this is the dial whose preparation has ended without one.
\<close>

theorem Dial_refines_steps:
  assumes "Dial (de_lookup env t) (de_sock env t) None (shared s) net Address = Ret (r, d, tr)" and "cd_thr s t = DCall net Address"
    and "\<not> sy_panic (cd_sys s)" and "\<not> cd_crash s" 
    and "Address = pd_currentServer (shared s) \<Longrightarrow> pd_vServer (shared s) = None \<Longrightarrow> ready_chan (vp_resolveChan (sy_v (cd_sys s))) (cd_sys s)"
  shows "\<exists>n s'. run_steps (dial_act env) (replicate n (DialGo t)) s = Some s' \<and> cd_thr s' t = DDone (Address = pd_currentServer (shared s)) r
    \<and> shared s' = d \<and> cd_calls s' = cd_calls s @ map (Pair t) tr"
proof (cases "Address = pd_currentServer (shared s)")
  case False
  then have "dial_other (de_lookup env t) (de_sock env t) t net Address (setd t (DOther net Address) s)
      = setd t (DDone False r) (syscalls t tr (setd t (DOther net Address) s)) \<and> d = shared s"
    using assms(1) by (auto simp: Dial_def dial_other_def dial_defs split: sum.splits gocall.splits prod.splits)
  then show ?thesis using False assms(2-4)
    by (intro exI[of _ 2]) (simp add: numeral_2_eq_2 dial_act_go dial_go_def dial_defs)
next
  case True
  show ?thesis
  proof (cases "pd_vServer (shared s)")
    case None
    then show ?thesis using True assms
      by (intro exI[of _ 5]) (auto simp: eval_nat_numeral dial_act_go dial_go_def dial_defs Dial_def)
  next
    case (Some srv)
    show ?thesis
    proof (cases "getFd (de_sock env t) net")
      case (Inl err)
      then show ?thesis using True Some assms
        by (intro exI[of _ 3]) (auto simp: eval_nat_numeral dial_act_go dial_go_def dial_defs Dial_def)
    next
      case (Inr fd)
      then show ?thesis using dial_connect_steps[OF assms(1) True Some Inr assms(2-4)] True by auto
    qed
  qed
qed

section \<open>A waiting dial is released\<close>

text \<open>The steps a preparation has left until the resolve channel is closed.\<close>

fun prep_left :: "tpc \<Rightarrow> nat" where
  "prep_left (RunB _) = 25"
| "prep_left (RunC _) = 24"
| "prep_left (PrepStart _ _) = 23"
| "prep_left (Lookup _ _ k) = 2 * k + 2"
| "prep_left (Retry _ _ k) = 2 * k + 3"
| "prep_left (CloseRes _) = 1"
| "prep_left _ = 0"

definition some_fresh :: "system \<Rightarrow> bool" where
  "some_fresh s \<longleftrightarrow> finite {t. sy_thr s t \<noteq> NotStarted}"

definition prep_bound :: "system \<Rightarrow> bool" where
  "prep_bound s \<longleftrightarrow> (\<forall>t. prep_left (sy_thr s t) \<le> 25)"

lemma go_threads: "go env t u s = Some s' \<Longrightarrow> x \<noteq> t \<Longrightarrow> x \<noteq> u \<Longrightarrow> sy_thr s' x = sy_thr s x"
  by (cases "sy_thr s t")
    (auto simp: go_def run_enter_def PrepareResolveChan_def spawn_def prep_lookup_def prep_wait_def close_resolve_def run_point_def
      stop_step_def watch_wait_def setpc_def panics_def Let_def split: if_splits nat.splits sum.splits gocall.splits)

lemma some_fresh_keep:
  assumes "some_fresh s" and "act env a s = Some s'"
  shows "some_fresh s'"
proof -
  have "\<exists>t u. \<forall>x. x \<noteq> t \<and> x \<noteq> u \<longrightarrow> sy_thr s' x = sy_thr s x"
  proof (cases a)
    case (Go t u)
    then show ?thesis using assms(2) go_threads by (intro exI[of _ t] exI[of _ u]) (auto simp: act_def split: if_splits)
  qed (use assms(2) in \<open>auto simp: act_def spawn_def setpc_def dial_failed_def store_server_def split: if_splits option.splits gocall.splits\<close>)
  then obtain t u where "\<And>x. x \<noteq> t \<Longrightarrow> x \<noteq> u \<Longrightarrow> sy_thr s' x = sy_thr s x" by blast
  then have "{x. sy_thr s' x \<noteq> NotStarted} \<subseteq> insert t (insert u {x. sy_thr s x \<noteq> NotStarted})" by auto
  then show ?thesis using assms(1) finite_subset unfolding some_fresh_def by blast
qed

lemma prep_bound_keep:
  assumes "prep_bound s" and "act env a s = Some s'"
  shows "prep_bound s'"
proof (cases a)
  case (Go t u)
  then have g: "go env t u s = Some s'" using assms(2) by (auto simp: act_def split: if_splits)
  have "prep_left (sy_thr s t) \<le> 25" using assms(1) by (simp add: prep_bound_def)
  then have "prep_left (sy_thr s' t) \<le> 25 \<and> (u = t \<or> prep_left (sy_thr s' u) \<le> 25)"
    using g assms(1) by (cases "sy_thr s t")
      (auto simp: prep_bound_def go_def run_enter_def PrepareResolveChan_def spawn_def prep_lookup_def prep_wait_def close_resolve_def run_point_def
        stop_step_def watch_wait_def setpc_def panics_def Let_def split: if_splits nat.splits sum.splits gocall.splits)
  then show ?thesis using go_threads[OF g] assms(1) unfolding prep_bound_def by metis
qed (use assms in \<open>auto simp: act_def spawn_def setpc_def dial_failed_def store_server_def prep_bound_def split: if_splits option.splits gocall.splits\<close>)

interpretation bound: invariant "act env" prep_bound "init_system v"
proof unfold_locales
  show "prep_bound (init_system v)" by (simp add: prep_bound_def init_system_def)
qed (rule prep_bound_keep)

interpretation fresh: invariant "act env" some_fresh "init_system v"
proof unfold_locales
  show "some_fresh (init_system v)" by (simp add: some_fresh_def init_system_def)
qed (rule some_fresh_keep)

text \<open>The next step of a preparation.\<close>

lemma prep_step:
  assumes "before_close (sy_thr s t)" and "some_fresh s" and "\<not> sy_panic s"
    and "vp_resolveChan (sy_v s) = Some c" and "c \<notin> sy_closed s"
  shows "\<exists>u s'. act env (Go t u) s = Some s' \<and> vp_resolveChan (sy_v s') = Some c \<and>
    (c \<in> sy_closed s' \<or> (\<exists>t'. before_close (sy_thr s' t') \<and> prep_left (sy_thr s' t') < prep_left (sy_thr s t)))"
proof -
  obtain u where u: "sy_thr s u = NotStarted" using assms(2) ex_new_if_finite[of "{t. sy_thr s t \<noteq> NotStarted}"] by (auto simp: some_fresh_def)
  then have ut: "u \<noteq> t" using assms(1) by auto
  show ?thesis
  proof (cases "sy_thr s t")
    case (RunB pref)
    then show ?thesis using assms u ut by (intro exI[of _ u]) (auto simp: act_def go_def spawn_def setpc_def intro!: exI[of _ t])
  next
    case (RunC pref)
    then show ?thesis using assms u ut
      by (intro exI[of _ u]) (auto simp: act_def go_def spawn_def setpc_def intro!: exI[of _ "if vp_AsyncResolve (sy_v s) then u else t"])
  next
    case (Lookup inrun cc k)
    then show ?thesis using assms
      by (intro exI[of _ 0]) (auto simp: act_def go_def prep_lookup_def setpc_def Let_def split: nat.splits sum.splits intro!: exI[of _ t])
  next
    case (Retry inrun cc k)
    then show ?thesis using assms by (intro exI[of _ 1]) (auto simp: act_def go_def prep_wait_def setpc_def intro!: exI[of _ t])
  qed (use assms in \<open>auto simp: act_def go_def close_resolve_def close_chan_def setpc_def Let_def begin_prepare_def intro!: exI[of _ t]\<close>)
qed

lemma prep_ends:
  assumes "before_close (sy_thr s t)" and "some_fresh s" and "patient_safe env s" and "\<And>n. pe_core env n \<noteq> NoStats"
    and "vp_resolveChan (sy_v s) = Some c" and "c \<notin> sy_closed s"
  shows "\<exists>as s'. run_steps (guarded patient (act env)) as s = Some s' \<and> length as \<le> prep_left (sy_thr s t) \<and> c \<in> sy_closed s'
    \<and> (\<forall>a \<in> set as. \<exists>x u. a = Go x u)"
  using assms
proof (induction "prep_left (sy_thr s t)" arbitrary: s t rule: less_induct)
  case less
  have np: "\<not> sy_panic s" using less.prems(3,4) by (simp add: patient_safe_def prep_inv_def)
  obtain u s1 where a: "act env (Go t u) s = Some s1" "vp_resolveChan (sy_v s1) = Some c"
    and d: "c \<in> sy_closed s1 \<or> (\<exists>t'. before_close (sy_thr s1 t') \<and> prep_left (sy_thr s1 t') < prep_left (sy_thr s t))"
    using prep_step[OF less.prems(1,2) np less.prems(5,6)] by blast
  have p: "patient (Go t u) s" using less.prems(1) by (auto simp: patient_def)
  then have g: "guarded patient (act env) (Go t u) s = Some s1" using a(1) by (simp add: guarded_def)
  have l: "0 < prep_left (sy_thr s t)" using less.prems(1) by (cases "sy_thr s t") auto
  show ?case
  proof (cases "c \<in> sy_closed s1")
    case True
    then show ?thesis using g l by (intro exI[of _ "[Go t u]"] exI[of _ s1]) auto
  next
    case False
    then obtain t' where t': "before_close (sy_thr s1 t')" "prep_left (sy_thr s1 t') < prep_left (sy_thr s t)" using d by blast
    from less.hyps[OF t'(2,1) some_fresh_keep[OF less.prems(2) a(1)] patient_safe_keep[OF less.prems(3) p a(1)] less.prems(4) a(2) False]
    obtain as s2 where "run_steps (guarded patient (act env)) as s1 = Some s2" "length as \<le> prep_left (sy_thr s1 t')" "c \<in> sy_closed s2"
      "\<forall>a \<in> set as. \<exists>x u. a = Go x u" by blast
    then show ?thesis using g t'(2) by (intro exI[of _ "Go t u # as"] exI[of _ s2]) auto
  qed
qed

text \<open>A dial waits on a closed channel or on that of the latest start.\<close>

definition wait_inv :: "dials \<Rightarrow> bool" where
  "wait_inv s \<longleftrightarrow> (\<forall>t net c. cd_thr s t = DWait net (Some c) \<longrightarrow> c \<in> sy_closed (cd_sys s) \<or> vp_resolveChan (sy_v (cd_sys s)) = Some c)"

lemma act_resolveChan:
  assumes "prep_inv s" and "act env a s = Some s'" and "vp_resolveChan (sy_v s) = Some c"
  shows "sy_closed s \<subseteq> sy_closed s' \<and> (c \<in> sy_closed s' \<or> vp_resolveChan (sy_v s') = Some c)"
  using assms(2)
proof (cases rule: act_cases)
  case (resolve t pref)
  have "\<not> before_close (sy_thr s x)" for x
  proof
    assume "before_close (sy_thr s x)"
    moreover from this have "x = t" using assms(1) resolve(1) by (simp add: prep_inv_def)
    ultimately show False using resolve(1) by simp
  qed
  then have "c \<in> sy_closed s" using assms(1,3) by (auto simp: prep_inv_def busy_def)
  then show ?thesis using resolve by (simp add: PrepareResolveChan_def setpc_def)
qed (use assms(3) in \<open>auto simp: frame_def run_enter_def close_resolve_def close_chan_def run_point_def pointloop_def stop_step_def StopLoop_def
    shutdownInit_def setpc_def panics_def split: if_splits option.splits gocall.splits core_outcome.splits\<close>)

lemma act_closed_mono: "act env a s = Some s' \<Longrightarrow> sy_closed s \<subseteq> sy_closed s'"
  by (erule act_cases) (auto simp: frame_def run_enter_def PrepareResolveChan_def close_resolve_def close_chan_def run_point_def stop_step_def
    StopLoop_def setpc_def panics_def split: if_splits option.splits gocall.splits)

lemma dial_failed_chans:
  "dial_failed now s = Some s' \<Longrightarrow> vp_resolveChan (sy_v s') = vp_resolveChan (sy_v s) \<and> sy_closed s' = sy_closed s"
  by (auto simp: dial_failed_def store_server_def split: option.splits gocall.splits)

lemma wait_inv_go:
  assumes "wait_inv s" and "dial_go env t s = Some s'"
  shows "wait_inv s'"
proof -
  have same: "vp_resolveChan (sy_v (cd_sys s')) = vp_resolveChan (sy_v (cd_sys s)) \<and> sy_closed (cd_sys s') = sy_closed (cd_sys s)"
    using dial_go_sys[OF assms(2)] dial_failed_chans by fastforce
  have "cd_thr s' x = cd_thr s x \<or> (\<exists>net. cd_thr s' x = DWait net (vp_resolveChan (sy_v (cd_sys s)))) \<or> (\<forall>net c. cd_thr s' x \<noteq> DWait net c)" for x
    using assms(2)
    by (cases "cd_thr s t") (auto simp: dial_go_def dial_rotate_def dial_other_def dial_defs split: if_splits sum.splits gocall.splits option.splits prod.splits)
  then show ?thesis using assms(1) same unfolding wait_inv_def by (metis dpc.inject(4))
qed

lemma wait_inv_keep:
  assumes "wait_inv s" and "prep_inv (cd_sys s)" and "dial_act env a s = Some s'"
  shows "wait_inv s'"
proof (cases a)
  case (Core b)
  then obtain s1 where s1: "act (de_point env) b (cd_sys s) = Some s1" "s' = s\<lparr>cd_sys := s1\<rparr>"
    using assms(3) by (cases b) (auto simp: dial_act_def split: if_splits option.splits)
  then show ?thesis using assms(1) act_closed_mono[OF s1(1)] act_resolveChan[OF assms(2) s1(1)] unfolding wait_inv_def by fastforce
next
  case (CallDial t net addr)
  then show ?thesis using assms(1,3) by (fastforce simp: dial_act_def wait_inv_def setd_def split: if_splits)
next
  case (DialGo t)
  then show ?thesis using assms wait_inv_go by (auto simp: dial_act_def split: if_splits)
qed

definition patient_dials :: "dials_env \<Rightarrow> dials \<Rightarrow> bool" where
  "patient_dials env s \<longleftrightarrow> patient_safe (de_point env) (cd_sys s) \<and> ((\<forall>n. pe_core (de_point env) n \<noteq> NoStats) \<longrightarrow> wait_inv s)"

interpretation dwait: invariant "guarded dial_patient (dial_act env)" "patient_dials env" "init_dials (new_point adns domain)"
proof unfold_locales
  show "patient_dials env (init_dials (new_point adns domain))"
    using patient_safe_init by (simp add: patient_dials_def wait_inv_def init_dials_def)
  show "patient_dials env s'" if "patient_dials env s" and "guarded dial_patient (dial_act env) a s = Some s'" for s a s'
    using that dcalm.lifted.keep[OF _ that(2)] wait_inv_keep unfolding patient_dials_def patient_safe_def guarded_def
    by (metis option.distinct(1))
qed

text \<open>Steps of the core, seen in the whole machine.\<close>

lemma core_steps:
  assumes "run_steps (guarded patient (act (de_point env))) as (cd_sys s) = Some s1" and "\<forall>a \<in> set as. \<exists>x u. a = Go x u" and "\<not> cd_crash s"
  shows "run_steps (guarded dial_patient (dial_act env)) (map Core as) s = Some (s\<lparr>cd_sys := s1\<rparr>)"
  using assms
proof (induction as arbitrary: s)
  case (Cons a as)
  then obtain x u s2 where a: "a = Go x u" "guarded patient (act (de_point env)) (Go x u) (cd_sys s) = Some s2"
    by (auto split: option.splits)
  then have "guarded dial_patient (dial_act env) (Core a) s = Some (s\<lparr>cd_sys := s2\<rparr>)"
    using Cons.prems(3) by (auto simp: guarded_def dial_patient_def dial_act_def act_def split: if_splits)
  then show ?case using Cons.IH[of "s\<lparr>cd_sys := s2\<rparr>"] Cons.prems a by simp
qed simp

text \<open>The steps a dial that no longer waits has left.\<close>

fun dial_left :: "dpc \<Rightarrow> nat" where
  "dial_left (DAgain _) = 5"
| "dial_left (DSocket _) = 4"
| "dial_left (DAddr _ _) = 3"
| "dial_left (DConnect _ _ _) = 2"
| "dial_left (DRotate _) = 1"
| "dial_left _ = 0"

lemma dial_next:
  assumes "dial_inv env domain s" and "0 < dial_left (cd_thr s t)"
  shows "\<exists>s'. dial_go env t s = Some s' \<and> sy_panic (cd_sys s') = sy_panic (cd_sys s)
    \<and> ((\<exists>r. cd_thr s' t = DDone True r) \<or> 0 < dial_left (cd_thr s' t) \<and> dial_left (cd_thr s' t) < dial_left (cd_thr s t))"
proof -
  have "dial_ok (de_point env) domain (sy_looks (cd_sys s)) (IsVServerReady (shared s)) (cd_thr s t)" using assms(1) by (simp add: dial_inv_def)
  moreover have "\<exists>a. currentIP (Some r) = Ret (Some a)" "\<exists>r'. NextIP now r = Ret r'" if "pd_vServer (shared s) = Some r" for r now
    using assms(1) that currentIP_safe[of r] NextIP_safe[of r now] by (auto simp: dial_inv_def served_def)
  ultimately consider (none) net where "cd_thr s t = DAgain net" "pd_vServer (shared s) = None"
    | (some) r where "pd_vServer (shared s) = Some r" "\<exists>a. currentIP (Some r) = Ret (Some a)" "\<exists>r'. NextIP (se_now (de_sock env t)) r = Ret r'"
    using assms(2) by (cases "cd_thr s t") (auto simp: IsVServerReady_def)
  then show ?thesis
  proof cases
    case none
    then show ?thesis by (simp add: dial_go_def dial_defs)
  next
    case some
    then obtain a r' where "currentIP (Some r) = Ret (Some a)" "NextIP (se_now (de_sock env t)) r = Ret r'" by blast
    then show ?thesis using some(1) assms(2)
      by (cases "cd_thr s t") (simp_all add: dial_go_def dial_rotate_def store_server_def dial_defs split: sum.splits prod.splits)
  qed
qed

lemma dial_ends:
  assumes "dial_inv env domain s" and "\<not> sy_panic (cd_sys s)" and "0 < dial_left (cd_thr s t)"
  shows "\<exists>n s' r. n \<le> dial_left (cd_thr s t) \<and> run_steps (guarded dial_patient (dial_act env)) (replicate n (DialGo t)) s = Some s' \<and> cd_thr s' t = DDone True r"
  using assms
proof (induction "dial_left (cd_thr s t)" arbitrary: s rule: less_induct)
  case less
  obtain s1 where s1: "dial_go env t s = Some s1" "sy_panic (cd_sys s1) = sy_panic (cd_sys s)"
    and d: "(\<exists>r. cd_thr s1 t = DDone True r) \<or> 0 < dial_left (cd_thr s1 t) \<and> dial_left (cd_thr s1 t) < dial_left (cd_thr s t)"
    using dial_next[OF less.prems(1,3)] by blast
  have g: "guarded dial_patient (dial_act env) (DialGo t) s = Some s1"
    using s1(1) less.prems(1,2) by (simp add: guarded_def dial_patient_def dial_act_def dial_inv_def)
  show ?case
  proof (cases "\<exists>r. cd_thr s1 t = DDone True r")
    case True
    then show ?thesis using g less.prems(3) by (intro exI[of _ 1] exI[of _ s1]) auto
  next
    case False
    then have l: "dial_left (cd_thr s1 t) < dial_left (cd_thr s t)" "0 < dial_left (cd_thr s1 t)" using d by auto
    have "\<not> sy_panic (cd_sys s1)" using s1(2) less.prems(2) by simp
    from less.hyps[OF l(1) dial_inv_go[OF less.prems(1) s1(1)] this l(2)]
    obtain n s' r where "n \<le> dial_left (cd_thr s1 t)" "run_steps (guarded dial_patient (dial_act env)) (replicate n (DialGo t)) s1 = Some s'"
      "cd_thr s' t = DDone True r" by blast
    then show ?thesis using g l(1) by (intro exI[of _ "Suc n"] exI[of _ s']) auto
  qed
qed

lemma resolution_ends:
  assumes "patient_safe env s" and "\<And>n. pe_core env n \<noteq> NoStats" and "some_fresh s" and "prep_bound s"
    and "c \<in> sy_closed s \<or> vp_resolveChan (sy_v s) = Some c"
  shows "\<exists>as s1. run_steps (guarded patient (act env)) as s = Some s1 \<and> length as \<le> 25 \<and> c \<in> sy_closed s1 \<and> (\<forall>a \<in> set as. \<exists>x u. a = Go x u)"
proof (cases "c \<in> sy_closed s")
  case True
  then show ?thesis by (intro exI[of _ "[]"]) simp
next
  case False
  then have c: "vp_resolveChan (sy_v s) = Some c" using assms(5) by simp
  then obtain x where x: "before_close (sy_thr s x)" using False assms(1,2) by (auto simp: patient_safe_def prep_inv_def busy_def)
  have "prep_left (sy_thr s x) \<le> 25" using assms(4) by (simp add: prep_bound_def)
  then show ?thesis using prep_ends[OF x assms(3,1,2) c False] by (meson order_trans)
qed


section \<open>Sample runs\<close>

text \<open>The first lookup fails, the later ones answer; the core starts without waiting.\<close>

definition demo_dials :: dials_env where
  "demo_dials = \<lparr>de_point = demo_point\<lparr>pe_lookup := \<lambda>n. if n = 0 then pe_lookup demo_point 0 else demo_env\<rparr>, de_sock = (\<lambda>_. demo_sock), de_lookup = (\<lambda>_. demo_env)\<rparr>"

text \<open>Steps that let no \<^verbatim>\<open>RunLoop\<close> past the mutex are patient, and so is the first start.\<close>

definition no_start :: "dial_action \<Rightarrow> dials \<Rightarrow> bool" where
  "no_start a s = (case a of Core (Go t u) \<Rightarrow> (case sy_thr (cd_sys s) t of RunWait _ \<Rightarrow> False | _ \<Rightarrow> True) | _ \<Rightarrow> True)"

definition started :: dials where
  "started = (init_dials (new_point True ''a:443''))\<lparr>cd_sys := (init_system (new_point True ''a:443''))
     \<lparr>sy_thr := (\<lambda>_. NotStarted)(1 := RunA False), sy_lock := Some 1, sy_fresh := 1,
      sy_v := (new_point True ''a:443'')\<lparr>vp_closeChan := Some 0\<rparr>\<rparr>\<rparr>"

lemma no_start_patient: "no_start a s \<Longrightarrow> dial_patient a s"
  by (auto simp: no_start_def dial_patient_def patient_def split: dial_action.splits action.splits tpc.splits)

lemma started_run: "run_steps (guarded dial_patient (dial_act env)) [Core (CallRun 1 False), Core (Go 1 0)] (init_dials (new_point True ''a:443'')) = Some started"
  by (auto simp: guarded_def dial_patient_def patient_def dial_act_def act_def go_def spawn_def run_enter_def setpc_def started_def init_dials_def
    init_system_def NewV2RayPoint_def)

lemma sample_dials:
  assumes "case run_steps (guarded no_start (dial_act env)) as started of None \<Rightarrow> False | Some s \<Rightarrow> Q s"
  obtains s where "run_steps (guarded dial_patient (dial_act env)) as started = Some s"
    "reachable (init_dials (new_point True ''a:443'')) (guarded dial_patient (dial_act env)) s" "Q s"
proof -
  obtain s where s: "run_steps (guarded no_start (dial_act env)) as started = Some s" "Q s" using assms by (auto split: option.splits)
  from guarded_weaken[OF this(1) no_start_patient] have r: "run_steps (guarded dial_patient (dial_act env)) as started = Some s" .
  show thesis using that[OF r _ s(2)] run_steps_reachable[OF run_steps_reachable[OF reachable.start started_run] r] by blast
qed

text \<open>The core runs, the first lookup failed, and a dial to the server waits.\<close>

definition wait_schedule :: "dial_action list" where
  "wait_schedule = map Core [Go 1 0, Go 1 2, Go 1 3, Go 1 0, Go 3 0, Go 3 0] @
     [CallDial 9 Network_TCP ''a:443'', DialGo 9, DialGo 9, DialGo 9]"

theorem dials_never_crash_witness:
  "\<exists>s. run_steps (guarded dial_patient (dial_act demo_dials)) wait_schedule started = Some s \<and> vp_IsRunning (sy_v (cd_sys s)) \<and> \<not> sy_panic (cd_sys s) \<and> \<not> cd_crash s"
proof -
  have "case run_steps (guarded no_start (dial_act demo_dials)) wait_schedule started of None \<Rightarrow> False | Some s \<Rightarrow> vp_IsRunning (sy_v (cd_sys s))" by code_simp
  then obtain s where s: "run_steps (guarded dial_patient (dial_act demo_dials)) wait_schedule started = Some s"
    "reachable (init_dials (new_point True ''a:443'')) (guarded dial_patient (dial_act demo_dials)) s" "vp_IsRunning (sy_v (cd_sys s))" by (rule sample_dials)
  have "pe_core (de_point demo_dials) n \<noteq> NoStats" for n by (simp add: demo_dials_def demo_point_def)
  from dials_never_crash[OF s(2) this] s(1,3) show ?thesis by blast
qed



theorem Dial_refines_steps_witness:
  "\<exists>n s'. run_steps (dial_act demo_dials) (replicate n (DialGo 9)) (setd 9 (DCall Network_TCP ''b:80'') started) = Some s'
     \<and> cd_thr s' 9 = DDone False (Inr (TCPConn (Some [9, 9, 9, 9]) 443))"
proof -
  let ?s = "setd 9 (DCall Network_TCP ''b:80'') started"
  have "\<exists>d tr. Dial (de_lookup demo_dials 9) (de_sock demo_dials 9) None (shared ?s) Network_TCP ''b:80'' = Ret (Inr (TCPConn (Some [9, 9, 9, 9]) 443), d, tr)"
    (is "\<exists>d tr. ?D = _")
  proof -
    have "case ?D of Panic \<Rightarrow> False | Ret (r, _) \<Rightarrow> r = Inr (TCPConn (Some [9, 9, 9, 9]) 443)" by code_simp
    then show ?thesis by (auto split: gocall.splits)
  qed
  then obtain d tr where D: "?D = Ret (Inr (TCPConn (Some [9, 9, 9, 9]) 443), d, tr)" by blast
  have n: "cd_thr ?s 9 = DCall Network_TCP ''b:80''" "\<not> sy_panic (cd_sys ?s)" "\<not> cd_crash ?s" "(''b:80'' = pd_currentServer (shared ?s)) = False"
    by (simp_all add: setd_def started_def init_dials_def init_system_def NewV2RayPoint_def NewPreotectedDialer_def)
  from Dial_refines_steps[OF D n(1-3)] n(4) show ?thesis by auto
qed

end
