(* ===== verification/Core_Measure.thy ===== *)
theory Core_Measure
  imports Core_Dials
begin

text \<open>
  Measuring delays (\<^verbatim>\<open>libv2ray_main.go\<close>): \<open>measureInstDelay\<close>, \<open>MeasureOutboundDelay\<close> on a core of its own, and \<open>MeasureDelay\<close> on the running core. The last
  starts a goroutine that cancels the request when the core is stopped, so it is a machine on top of \<open>Core_Dials\<close>: the measurements,
  their goroutines and their contexts run beside the core and its dials.
\<close>

section \<open>One measurement\<close>

text \<open>The request, with the settings of its client and transport.\<close>

record measure_request =
  mq_inst :: nat
  mq_URL :: string
  mq_TLSHandshakeTimeout :: duration
  mq_DisableKeepAlives :: bool
  mq_Timeout :: duration

text \<open>
  What a measurement asks of others: \<^verbatim>\<open>NewRequestWithContext\<close>; \<^verbatim>\<open>v2net.ParseDestination\<close> and \<^verbatim>\<open>v2core.Dial\<close>; \<^verbatim>\<open>Do\<close> of the HTTP client, which is
  given the dial function of the transport and answers with the status code and its text; and the time it took.
\<close>

record measure_env =
  me_new_request :: "string \<Rightarrow> go_error option"
  me_ParseDestination :: "string \<Rightarrow> string res"
  me_core_Dial :: "nat \<Rightarrow> string \<Rightarrow> nat res"
  me_do :: "(string \<Rightarrow> string \<Rightarrow> nat res) \<Rightarrow> measure_request \<Rightarrow> (int \<times> string) res"
  me_elapsed :: duration

datatype measure_event = MNew nat | MStart nat | MDo measure_request | MBodyClose | MClose nat

definition measure_DialContext :: "measure_env \<Rightarrow> nat \<Rightarrow> string \<Rightarrow> string \<Rightarrow> nat res" where
  "measure_DialContext env inst network addr =
     (case me_ParseDestination env (network @ '':'' @ addr) of
        Inl err \<Rightarrow> Inl err
      | Inr dest \<Rightarrow> me_core_Dial env inst dest)"

text \<open>\<^verbatim>\<open>Milliseconds\<close> of a duration truncates towards zero.\<close>

definition Milliseconds :: "duration \<Rightarrow> int" where
  "Milliseconds d = (if d < 0 then - ((- d) div millisecond) else d div millisecond)"

text \<open>
  Up to the request (lines 385 to 410). The error of \<^verbatim>\<open>NewRequestWithContext\<close> is dropped, and \<^verbatim>\<open>Do\<close> panics on the nil request it comes with.
\<close>

definition measure_begin :: "measure_env \<Rightarrow> nat option \<Rightarrow> string \<Rightarrow> (go_error + measure_request) gocall" where
  "measure_begin env inst url0 =
     (case inst of
        None \<Rightarrow> Ret (Inl (Errorf ''core instance nil'' []))
      | Some i \<Rightarrow>
          let url = (if length url0 \<le> 0 then ''https://www.google.com/generate_204'' else url0) in
          (case me_new_request env url of
             Some _ \<Rightarrow> Panic
           | None \<Rightarrow> Ret (Inr \<lparr>mq_inst = i, mq_URL = url, mq_TLSHandshakeTimeout = 6 * second, mq_DisableKeepAlives = True, mq_Timeout = 12 * second\<rparr>)))"

text \<open>From the answer on (lines 413 to 421).\<close>

definition measure_answer :: "measure_env \<Rightarrow> (int \<times> string) res \<Rightarrow> (int \<times> go_error option) \<times> measure_event list" where
  "measure_answer env ans =
     (case ans of
        Inl err \<Rightarrow> ((-1, Some err), [])
      | Inr (code, status) \<Rightarrow>
          if code \<noteq> 200 \<and> code \<noteq> 204 then ((-1, Some (Errorf ''status != 20x: %s'' [S status])), [])
          else ((Milliseconds (me_elapsed env), None), [MBodyClose]))"

definition measure_do :: "measure_env \<Rightarrow> measure_request \<Rightarrow> (int \<times> string) res" where
  "measure_do env q = me_do env (measure_DialContext env (mq_inst q)) q"

definition measureInstDelay :: "measure_env \<Rightarrow> nat option \<Rightarrow> string \<Rightarrow> (int \<times> go_error option) gocall \<times> measure_event list" where
  "measureInstDelay env inst url =
     (case measure_begin env inst url of
        Panic \<Rightarrow> (Panic, [])
      | Ret (Inl err) \<Rightarrow> (Ret (-1, Some err), [])
      | Ret (Inr q) \<Rightarrow> (case measure_answer env (measure_do env q) of (r, evs) \<Rightarrow> (Ret r, MDo q # evs)))"

text \<open>
  A loaded configuration: the inbounds, the list of features and the capacity of the slice that holds it. Cutting a slice past
  its length but within its capacity gives nil entries; past its capacity it panics.
\<close>

record core_config =
  cc_Inbound :: "string list"
  cc_App :: "string option list"
  cc_cap :: nat

definition reslice :: "nat \<Rightarrow> nat \<Rightarrow> 'a option list \<Rightarrow> 'a option list gocall" where
  "reslice n cp xs = (if n \<le> cp then Ret (take n (xs @ replicate n None)) else Panic)"

definition MeasureOutboundDelay :: "measure_env \<Rightarrow> (string \<Rightarrow> core_config res) \<Rightarrow> (core_config \<Rightarrow> nat res) \<Rightarrow> string \<Rightarrow> string
    \<Rightarrow> (int \<times> go_error option) gocall \<times> measure_event list" where
  "MeasureOutboundDelay env load new content url =
     (case load content of
        Inl err \<Rightarrow> (Ret (-1, Some err), [])
      | Inr config \<Rightarrow>
          (case reslice 5 (cc_cap config) (cc_App config) of
             Panic \<Rightarrow> (Panic, [])
           | Ret app \<Rightarrow>
               (case new (config\<lparr>cc_Inbound := [], cc_App := app\<rparr>) of
                  Inl err \<Rightarrow> (Ret (-1, Some err), [])
                | Inr i \<Rightarrow>
                    (case measureInstDelay env (Some i) url of
                       (Panic, evs) \<Rightarrow> (Panic, [MNew i, MStart i] @ evs)
                     | (Ret r, evs) \<Rightarrow> (Ret r, [MNew i, MStart i] @ evs @ [MClose i])))))"

section \<open>Measurements of the running core\<close>

text \<open>
  A measurement has its caller, the goroutine that watches the close channel, and a context, which is done when it was cancelled or when its
  twelve seconds are over. The caller is called, waits for the answer to its request, or has returned; the goroutine is
  started, waits on the channel it found in the object, or has ended.
\<close>

datatype ctx = Active | Cancelled | Expired
datatype mpc = MNone | MCalled string | MDoing measure_request | MReturned "int \<times> go_error option"
datatype wpc = WNone | WStart | WWait "nat option" | WDone

record measuring =
  cm_dials :: dials
  cm_call :: "nat \<Rightarrow> mpc"
  cm_watch :: "nat \<Rightarrow> wpc"
  cm_ctx :: "nat \<Rightarrow> ctx"
  cm_log :: "(nat \<times> measure_event) list"
  cm_crash :: bool

record measuring_env =
  mv_dials :: dials_env
  mv_meas :: "nat \<Rightarrow> measure_env"

definition init_measuring :: "V2RayPoint \<Rightarrow> measuring" where
  "init_measuring v = \<lparr>cm_dials = init_dials v, cm_call = (\<lambda>_. MNone), cm_watch = (\<lambda>_. WNone), cm_ctx = (\<lambda>_. Active), cm_log = [], cm_crash = False\<rparr>"

abbreviation point_of :: "measuring \<Rightarrow> V2RayPoint" where
  "point_of s \<equiv> sy_v (cd_sys (cm_dials s))"

text \<open>The call of \<^verbatim>\<open>MeasureDelay\<close>: the context is made and the goroutine started.\<close>

definition MeasureDelay_call :: "nat \<Rightarrow> string \<Rightarrow> measuring \<Rightarrow> measuring option" where
  "MeasureDelay_call m url s =
     (if cm_call s m = MNone
      then Some (s\<lparr>cm_call := (cm_call s)(m := MCalled url), cm_watch := (cm_watch s)(m := WStart), cm_ctx := (cm_ctx s)(m := Active)\<rparr>)
      else None)"

definition measure_returns :: "nat \<Rightarrow> (int \<times> go_error option) \<times> measure_event list \<Rightarrow> measuring \<Rightarrow> measuring" where
  "measure_returns m r s = s\<lparr>cm_call := (cm_call s)(m := MReturned (fst r)), cm_log := cm_log s @ map (Pair m) (snd r)\<rparr>"

text \<open>A step of the caller: \<^verbatim>\<open>v.Vpoint\<close> is read without the mutex, then the client answers.\<close>

definition measure_caller :: "measuring_env \<Rightarrow> nat \<Rightarrow> measuring \<Rightarrow> measuring option" where
  "measure_caller env m s =
     (case cm_call s m of
        MCalled url \<Rightarrow>
          (case measure_begin (mv_meas env m) (vp_Vpoint (point_of s)) url of
             Panic \<Rightarrow> Some (s\<lparr>cm_crash := True\<rparr>)
           | Ret (Inl err) \<Rightarrow> Some (measure_returns m ((-1, Some err), []) s)
           | Ret (Inr q) \<Rightarrow> Some (s\<lparr>cm_call := (cm_call s)(m := MDoing q), cm_log := cm_log s @ [(m, MDo q)]\<rparr>))
      | MDoing q \<Rightarrow> Some (measure_returns m (measure_answer (mv_meas env m) (measure_do (mv_meas env m) q)) s)
      | _ \<Rightarrow> None)"

text \<open>The client gives a request up when its context is done; it wraps the reason.\<close>

definition ctx_err :: "ctx \<Rightarrow> go_error option" where
  "ctx_err c = (case c of Active \<Rightarrow> None | Cancelled \<Rightarrow> Some CtxCanceled | Expired \<Rightarrow> Some CtxDeadlineExceeded)"

definition measure_gives_up :: "nat \<Rightarrow> measuring \<Rightarrow> measuring option" where
  "measure_gives_up m s =
     (case cm_call s m of
        MDoing q \<Rightarrow>
          (case ctx_err (cm_ctx s m) of
             None \<Rightarrow> None
           | Some err \<Rightarrow> Some (measure_returns m ((-1, Some (Wrapf ''Get %q: %w'' [S (mq_URL q)] err)), []) s))
      | _ \<Rightarrow> None)"

text \<open>A step of the goroutine (lines 302 to 309): the close channel of the object is looked up when the goroutine first runs.\<close>

definition measure_watch :: "nat \<Rightarrow> bool \<Rightarrow> measuring \<Rightarrow> measuring option" where
  "measure_watch m done s =
     (case cm_watch s m of
        WStart \<Rightarrow> Some (s\<lparr>cm_watch := (cm_watch s)(m := WWait (vp_closeChan (point_of s)))\<rparr>)
      | WWait c \<Rightarrow>
          if done then (if cm_ctx s m \<noteq> Active then Some (s\<lparr>cm_watch := (cm_watch s)(m := WDone)\<rparr>) else None)
          else if ready_chan c (cd_sys (cm_dials s)) then
            Some (s\<lparr>cm_watch := (cm_watch s)(m := WDone), cm_ctx := (cm_ctx s)(m := if cm_ctx s m = Active then Cancelled else cm_ctx s m)\<rparr>)
          else None
      | _ \<Rightarrow> None)"

definition measure_expire :: "nat \<Rightarrow> measuring \<Rightarrow> measuring option" where
  "measure_expire m s =
     (if cm_call s m \<noteq> MNone \<and> cm_ctx s m = Active then Some (s\<lparr>cm_ctx := (cm_ctx s)(m := Expired)\<rparr>) else None)"

datatype measure_action =
    Below dial_action
  | CallMeasure nat string
  | Caller nat
  | GiveUp nat
  | Watch nat bool
  | Expire nat

definition measure_act :: "measuring_env \<Rightarrow> measure_action \<Rightarrow> measuring \<Rightarrow> measuring option" where
  "measure_act env a s =
     (if sy_panic (cd_sys (cm_dials s)) \<or> cd_crash (cm_dials s) \<or> cm_crash s then None
      else case a of
          Below b \<Rightarrow> (case dial_act (mv_dials env) b (cm_dials s) of None \<Rightarrow> None | Some d \<Rightarrow> Some (s\<lparr>cm_dials := d\<rparr>))
        | CallMeasure m url \<Rightarrow> MeasureDelay_call m url s
        | Caller m \<Rightarrow> measure_caller env m s
        | GiveUp m \<Rightarrow> measure_gives_up m s
        | Watch m done \<Rightarrow> measure_watch m done s
        | Expire m \<Rightarrow> measure_expire m s)"

definition measure_patient :: "measure_action \<Rightarrow> measuring \<Rightarrow> bool" where
  "measure_patient a s = (case a of Below b \<Rightarrow> dial_patient b (cm_dials s) | _ \<Rightarrow> True)"

abbreviation mreach :: "measuring_env \<Rightarrow> V2RayPoint \<Rightarrow> measuring \<Rightarrow> bool" where
  "mreach env v \<equiv> reachable (init_measuring v) (measure_act env)"

section \<open>The core and the dials do not notice\<close>

lemmas measure_defs = MeasureDelay_call_def measure_caller_def measure_returns_def measure_gives_up_def measure_watch_def measure_expire_def

lemma measure_act_dials:
  assumes "measure_act env a s = Some s'"
  shows "cm_dials s' = cm_dials s \<or> (\<exists>b. dial_act (mv_dials env) b (cm_dials s) = Some (cm_dials s') \<and> (measure_patient a s \<longrightarrow> dial_patient b (cm_dials s)))"
  using assms
  by (cases a) (auto simp: measure_act_def measure_defs measure_patient_def split: if_splits option.splits gocall.splits sum.splits mpc.splits wpc.splits)

interpretation msim: simulation "measure_act env" "dial_act (mv_dials env)" cm_dials
  using measure_act_dials by unfold_locales blast

interpretation msim_patient: simulation "guarded measure_patient (measure_act env)" "guarded dial_patient (dial_act (mv_dials env))" cm_dials
proof unfold_locales
  show "cm_dials s' = cm_dials s \<or> (\<exists>b. guarded dial_patient (dial_act (mv_dials env)) b (cm_dials s) = Some (cm_dials s'))"
    if "guarded measure_patient (measure_act env) a s = Some s'" for a s s'
  proof -
    have "measure_patient a s" "measure_act env a s = Some s'" using that by (auto simp: guarded_def split: if_splits)
    then show ?thesis using measure_act_dials by (fastforce simp: guarded_def)
  qed
qed

lemma cm_dials_init [simp]: "cm_dials (init_measuring v) = init_dials v"
  by (simp add: init_measuring_def)

interpretation mdl: simulated_invariant "measure_act env" "dial_act (mv_dials env)" cm_dials "dial_inv (mv_dials env) domain" "init_measuring (new_point adns domain)"
  using dl.keep dl.init by unfold_locales auto

interpretation mcalm: simulated_invariant "guarded measure_patient (measure_act env)" "guarded dial_patient (dial_act (mv_dials env))" cm_dials
  "patient_dials (mv_dials env)" "init_measuring (new_point adns domain)"
  using dwait.keep dwait.init by unfold_locales auto

text \<open>Every measurement asks for a URL that a request can be made of.\<close>

definition urls_ok :: "measuring_env \<Rightarrow> bool" where
  "urls_ok env \<longleftrightarrow> (\<forall>m url. me_new_request (mv_meas env m) url = None)"

lemma no_measure_crash: "urls_ok env \<Longrightarrow> \<not> cm_crash s \<Longrightarrow> measure_act env a s = Some s' \<Longrightarrow> \<not> cm_crash s'"
  by (cases a)
    (auto simp: measure_act_def measure_defs measure_begin_def urls_ok_def Let_def split: if_splits option.splits gocall.splits sum.splits mpc.splits wpc.splits)

interpretation mcrash: invariant "measure_act env" "\<lambda>s. urls_ok env \<longrightarrow> \<not> cm_crash s" "init_measuring v"
  using no_measure_crash by unfold_locales (auto simp: init_measuring_def)


section \<open>A stop cancels the measurements\<close>

text \<open>From a running core on, its close channel is the current one or closed.\<close>

definition core_chan :: "nat \<Rightarrow> system \<Rightarrow> bool" where
  "core_chan c s \<longleftrightarrow> point_inv s \<and> (vp_IsRunning (sy_v s) \<and> vp_closeChan (sy_v s) = Some c \<or> c \<in> sy_closed s)"

lemma core_chan_keep:
  assumes "core_chan c s" and "act env a s = Some s'"
  shows "core_chan c s'"
proof -
  have P: "point_inv s" "point_inv s'" using assms pt.keep by (auto simp: core_chan_def)
  have m: "sy_closed s \<subseteq> sy_closed s'" by (rule act_closed_mono[OF assms(2)])
  have l: "sy_lock s \<noteq> None \<Longrightarrow> \<not> vp_IsRunning (sy_v s)" "\<And>t. inside (sy_thr s t) \<Longrightarrow> sy_lock s = Some t"
    using P(1) by (auto simp: point_inv_def core_inv_def lock_inv_def)
  have "vp_IsRunning (sy_v s') \<and> vp_closeChan (sy_v s') = Some c \<or> c \<in> sy_closed s'" if r: "vp_IsRunning (sy_v s)" "vp_closeChan (sy_v s) = Some c"
    using assms(2)
  proof (cases rule: act_cases)
    case (resolve t pref)
    then show ?thesis using l(1) l(2)[of t] r by auto
  next
    case (point t)
    then show ?thesis using l(1) l(2)[of t] r by auto
  next
    case (stop t w)
    then show ?thesis using r StopLoop_safe[of s] P(1)
      by (auto simp: stop_step_def StopLoop_def close_chan_def setpc_def point_inv_def split: if_splits gocall.splits)
  qed (use r in \<open>auto simp: frame_def run_enter_def close_resolve_def setpc_def panics_def split: if_splits gocall.splits\<close>)
  then show ?thesis using assms(1) P(2) m by (auto simp: core_chan_def)
qed

text \<open>A measurement that watches the channel of a running core, from then on.\<close>

definition watching :: "nat \<Rightarrow> nat \<Rightarrow> measuring \<Rightarrow> bool" where
  "watching m c s \<longleftrightarrow> core_chan c (cd_sys (cm_dials s)) \<and>
     ((\<exists>r. cm_call s m = MReturned r)
      \<or> (\<exists>q. cm_call s m = MDoing q) \<and> (cm_watch s m = WWait (Some c) \<or> cm_watch s m = WDone \<and> cm_ctx s m \<noteq> Active))"

lemma watching_keep:
  assumes "watching m c s" and "measure_act env a s = Some s'"
  shows "watching m c s'"
proof -
  have "cd_sys (cm_dials s') = cd_sys (cm_dials s) \<or> (\<exists>b. act (de_point (mv_dials env)) b (cd_sys (cm_dials s)) = Some (cd_sys (cm_dials s')))"
    using msim.simulates[OF assms(2)] dsim.simulates by fastforce
  then have "core_chan c (cd_sys (cm_dials s'))" using assms(1) core_chan_keep by (auto simp: watching_def)
  moreover have "(\<exists>r. cm_call s' m = MReturned r)
      \<or> (\<exists>q. cm_call s' m = MDoing q) \<and> (cm_watch s' m = WWait (Some c) \<or> cm_watch s' m = WDone \<and> cm_ctx s' m \<noteq> Active)"
    using assms by (cases a) (auto simp del: split_paired_Ex simp: watching_def measure_act_def measure_defs split: if_splits option.splits gocall.splits sum.splits mpc.splits wpc.splits)
  ultimately show ?thesis by (simp add: watching_def)
qed

interpretation watched: stable "measure_act env" "watching m c"
  by unfold_locales (rule watching_keep)

definition alive :: "measuring \<Rightarrow> bool" where
  "alive s \<longleftrightarrow> \<not> sy_panic (cd_sys (cm_dials s)) \<and> \<not> cd_crash (cm_dials s) \<and> \<not> cm_crash s"

lemma ctx_done_returns:
  assumes "alive s" and "cm_call s m = MDoing q" and "cm_ctx s m \<noteq> Active"
  obtains s' err where "measure_act env (GiveUp m) s = Some s'" "cm_call s' m = MReturned (-1, Some err)"
    "errors_is err CtxCanceled \<or> errors_is err CtxDeadlineExceeded"
proof -
  obtain e where "ctx_err (cm_ctx s m) = Some e" "e = CtxCanceled \<or> e = CtxDeadlineExceeded"
    using assms(3) by (cases "cm_ctx s m") (auto simp: ctx_err_def)
  then show thesis using assms(1,2)
    by (intro that[of "measure_returns m ((-1, Some (Wrapf ''Get %q: %w'' [S (mq_URL q)] e)), []) s" "Wrapf ''Get %q: %w'' [S (mq_URL q)] e"])
      (auto simp: measure_act_def measure_gives_up_def measure_returns_def alive_def errors_is_def)
qed

text \<open>
  C19: A stop ends the measurements. If the goroutine of a measurement has come to wait on the close channel of the running core, then whatever
  happens until the core no longer runs, and whatever happened after that, two steps of the measurement alone bring it back to the application: it had its answer
  already, or it returns -1 and a cancelled or expired context.
\<close>

theorem stop_ends_measurement:
  assumes "mreach env (new_point adns domain) s" and "cm_call s m = MDoing q" and "cm_watch s m = WWait (vp_closeChan (point_of s))"
    and "vp_IsRunning (point_of s)" and "run_steps (measure_act env) as s = Some s'" and "alive s'" and "\<not> vp_IsRunning (point_of s')"
  shows "\<exists>bs s'' r err. run_steps (measure_act env) bs s' = Some s'' \<and> length bs \<le> 2 \<and> set bs \<subseteq> {Watch m False, GiveUp m}
    \<and> cm_call s'' m = MReturned r \<and> (cm_call s' m = MReturned r \<or> r = (-1, Some err) \<and> (errors_is err CtxCanceled \<or> errors_is err CtxDeadlineExceeded))"
proof -
  have "reach (de_point (mv_dials env)) (new_point adns domain) (cd_sys (cm_dials s))"
    using dsim.abs_reachable[OF msim.abs_reachable[OF assms(1)]] by simp
  then have P: "point_inv (cd_sys (cm_dials s))" by (rule pt.always)
  then obtain c where c: "vp_closeChan (point_of s) = Some c" using assms(4) by (auto simp: point_inv_def core_inv_def)
  then have "watching m c s" using P assms(2-4) by (auto simp: watching_def core_chan_def)
  from watched.along[OF this assms(5)] have w: "watching m c s'" .
  show ?thesis
  proof (cases "\<exists>r. cm_call s' m = MReturned r")
    case True
    then show ?thesis by (intro exI[of _ "[]"]) auto
  next
    case False
    then obtain q' where q': "cm_call s' m = MDoing q'" and cl: "c \<in> sy_closed (cd_sys (cm_dials s'))"
      and d: "cm_watch s' m = WWait (Some c) \<or> cm_ctx s' m \<noteq> Active" using w assms(7) by (auto simp: watching_def core_chan_def)
    show ?thesis
    proof (cases "cm_ctx s' m = Active")
      case False
      from ctx_done_returns[OF assms(6) q' this, of env] obtain s2 err where "measure_act env (GiveUp m) s' = Some s2"
        "cm_call s2 m = MReturned (-1, Some err)" "errors_is err CtxCanceled \<or> errors_is err CtxDeadlineExceeded" .
      then show ?thesis by (intro exI[of _ "[GiveUp m]"] exI[of _ s2] exI[of _ "(-1, Some err)"] exI[of _ err]) auto
    next
      case True
      then have "cm_watch s' m = WWait (Some c)" using d by simp
      let ?s1 = "s'\<lparr>cm_watch := (cm_watch s')(m := WDone), cm_ctx := (cm_ctx s')(m := Cancelled)\<rparr>"
      have w1: "measure_act env (Watch m False) s' = Some ?s1"
        using assms(6) True cl \<open>cm_watch s' m = _\<close> by (simp add: measure_act_def measure_watch_def alive_def ready_chan_def)
      have "alive ?s1" "cm_call ?s1 m = MDoing q'" "cm_ctx ?s1 m \<noteq> Active" using assms(6) q' by (simp_all add: alive_def)
      from ctx_done_returns[OF this, of env] obtain s2 err where "measure_act env (GiveUp m) ?s1 = Some s2"
        "cm_call s2 m = MReturned (-1, Some err)" "errors_is err CtxCanceled \<or> errors_is err CtxDeadlineExceeded" .
      then show ?thesis using w1 by (intro exI[of _ "[Watch m False, GiveUp m]"] exI[of _ s2] exI[of _ "(-1, Some err)"] exI[of _ err]) auto
    qed
  qed
qed

section \<open>Only a stop cancels\<close>

text \<open>A close channel: it is not the resolve channel, and it is closed only by a stop.\<close>

definition stop_chan :: "nat \<Rightarrow> system \<Rightarrow> bool" where
  "stop_chan c s \<longleftrightarrow> c < sy_fresh s \<and> vp_resolveChan (sy_v s) \<noteq> Some c \<and> (c \<in> sy_closed s \<longrightarrow> (\<exists>i. CoreClose i \<in> set (sy_log s)))"

lemma stop_chan_keep: "stop_chan c s \<Longrightarrow> act env a s = Some s' \<Longrightarrow> stop_chan c s'"
  by (erule act_cases)
    (auto simp: stop_chan_def frame_def run_enter_def PrepareResolveChan_def close_resolve_def close_chan_def run_point_def pointloop_def
      stop_step_def StopLoop_def shutdownInit_def setpc_def panics_def split: if_splits option.splits gocall.splits core_outcome.splits)

definition close_chan_inv :: "system \<Rightarrow> bool" where
  "close_chan_inv s \<longleftrightarrow> chan_inv s \<and> (\<forall>c. vp_closeChan (sy_v s) = Some c \<longrightarrow> stop_chan c s)"

lemma close_chan_inv_keep:
  assumes "close_chan_inv s" and "act env a s = Some s'"
  shows "close_chan_inv s'"
proof -
  have c: "chan_inv s" "chan_inv s'" using assms chan_inv_keep by (auto simp: close_chan_inv_def)
  have "vp_closeChan (sy_v s') = vp_closeChan (sy_v s) \<or> vp_closeChan (sy_v s') = Some (sy_fresh s) \<and> sy_closed s' = sy_closed s"
    using assms(2)
    by (cases rule: act_cases)
      (auto simp: frame_def run_enter_def PrepareResolveChan_def close_resolve_def run_point_def pointloop_def stop_step_def StopLoop_def shutdownInit_def
        setpc_def panics_def split: if_splits option.splits gocall.splits core_outcome.splits)
  then show ?thesis
  proof
    assume "vp_closeChan (sy_v s') = vp_closeChan (sy_v s)"
    then show ?thesis using assms(1) c(2) stop_chan_keep[OF _ assms(2)] by (auto simp: close_chan_inv_def)
  next
    assume n: "vp_closeChan (sy_v s') = Some (sy_fresh s) \<and> sy_closed s' = sy_closed s"
    then have "sy_fresh s \<notin> sy_closed s'" using c(1) by (auto simp: chan_inv_def)
    then show ?thesis using n c(2) by (auto simp: close_chan_inv_def stop_chan_def chan_inv_def)
  qed
qed

definition cancel_inv :: "measuring \<Rightarrow> bool" where
  "cancel_inv s \<longleftrightarrow> close_chan_inv (cd_sys (cm_dials s)) \<and> (\<forall>m c. cm_watch s m = WWait (Some c) \<longrightarrow> stop_chan c (cd_sys (cm_dials s)))
     \<and> (\<forall>m. cm_ctx s m = Cancelled \<longrightarrow> (\<exists>i. CoreClose i \<in> set (sy_log (cd_sys (cm_dials s)))))"

lemma act_log: "act env a s = Some s' \<Longrightarrow> set (sy_log s) \<subseteq> set (sy_log s')"
  by (erule act_cases)
    (auto simp: frame_def run_enter_def PrepareResolveChan_def close_resolve_def run_point_def stop_step_def setpc_def panics_def
      split: if_splits option.splits gocall.splits)

text \<open>What a step of a measurement itself can change.\<close>

lemma measure_own_step:
  assumes "measure_act env a s = Some s'" and "\<And>b. a \<noteq> Below b"
  shows "cm_dials s' = cm_dials s"
    and "cm_watch s' m = WWait c \<Longrightarrow> cm_watch s m = WWait c \<or> c = vp_closeChan (point_of s)"
    and "cm_ctx s' m = Cancelled \<Longrightarrow> cm_ctx s m = Cancelled \<or> (\<exists>c. cm_watch s m = WWait (Some c) \<and> c \<in> sy_closed (cd_sys (cm_dials s)))"
  using assms
  by (cases a; fastforce simp: measure_act_def measure_defs ready_chan_def
    split: if_splits option.splits gocall.splits sum.splits mpc.splits wpc.splits)+

lemma cancel_inv_keep:
  assumes "cancel_inv s" and "measure_act env a s = Some s'"
  shows "cancel_inv s'"
proof (cases "\<exists>b. a = Below b")
  case True
  then obtain b d where b: "dial_act (mv_dials env) b (cm_dials s) = Some d" "s' = s\<lparr>cm_dials := d\<rparr>"
    using assms(2) by (auto simp: measure_act_def split: if_splits option.splits)
  from dsim.simulates[OF b(1)] show ?thesis
  proof
    assume "cd_sys d = cd_sys (cm_dials s)"
    then show ?thesis using assms(1) b(2) by (simp add: cancel_inv_def)
  next
    assume "\<exists>x. act (de_point (mv_dials env)) x (cd_sys (cm_dials s)) = Some (cd_sys d)"
    then obtain x where x: "act (de_point (mv_dials env)) x (cd_sys (cm_dials s)) = Some (cd_sys d)" by blast
    show ?thesis using assms(1) b(2) stop_chan_keep[OF _ x] close_chan_inv_keep[OF _ x] act_log[OF x] by (auto simp: cancel_inv_def)
  qed
next
  case False
  then have a: "a \<noteq> Below b" for b by blast
  have "stop_chan c (cd_sys (cm_dials s))" if "cm_watch s' m = WWait (Some c)" for m c
    using measure_own_step(2)[OF assms(2) a that] assms(1) by (auto simp: cancel_inv_def close_chan_inv_def)
  moreover have "\<exists>i. CoreClose i \<in> set (sy_log (cd_sys (cm_dials s)))" if "cm_ctx s' m = Cancelled" for m
    using measure_own_step(3)[OF assms(2) a that] assms(1) by (auto simp: cancel_inv_def stop_chan_def)
  ultimately show ?thesis using assms(1) measure_own_step(1)[OF assms(2) a] by (simp add: cancel_inv_def)
qed

interpretation cancel: invariant "measure_act env" cancel_inv "init_measuring (new_point adns domain)"
proof unfold_locales
  show "cancel_inv (init_measuring (new_point adns domain))"
    by (simp add: cancel_inv_def close_chan_inv_def chan_inv_def init_measuring_def init_dials_def init_system_def NewV2RayPoint_def)
qed (rule cancel_inv_keep)

text \<open>
  Nothing but a stop cancels a measurement: while no core was ever closed, no context is cancelled, so a measurement fails
  only by its own time limit or by the answer of the client.
\<close>

theorem cancelled_only_by_stop:
  assumes "mreach env (new_point adns domain) s" and "cm_ctx s m = Cancelled"
  shows "\<exists>i. CoreClose i \<in> set (sy_log (cd_sys (cm_dials s)))"
  using cancel.always[OF assms(1)] assms(2) by (auto simp: cancel_inv_def)

section \<open>A measurement alone\<close>


text \<open>A measured delay is reported with its instance closed; a measurement that panics leaves it running.\<close>

lemma measureInstDelay_result:
  "measureInstDelay env inst url = (Ret (d, err), evs) \<Longrightarrow> (err \<noteq> None \<longrightarrow> d = -1) \<and> (err = None \<longrightarrow> d = Milliseconds (me_elapsed env) \<and> MBodyClose \<in> set evs)"
  by (auto simp: measureInstDelay_def measure_answer_def split: sum.splits gocall.splits prod.splits if_splits)

lemma MeasureOutboundDelay_closes:
  assumes "MeasureOutboundDelay env load new content url = (Ret (d, err), evs)"
  shows "(evs = [] \<or> (\<exists>i mid. evs = [MNew i, MStart i] @ mid @ [MClose i])) \<and> (err \<noteq> None \<longrightarrow> d = -1) \<and> (err = None \<longrightarrow> d = Milliseconds (me_elapsed env))"
  using assms measureInstDelay_result[of env _ url d err]
  by (auto simp: MeasureOutboundDelay_def split: sum.splits gocall.splits prod.splits)

lemma MeasureOutboundDelay_panics:
  "fst (MeasureOutboundDelay env load new content url) = Panic \<longleftrightarrow>
     (\<exists>config. load content = Inr config \<and> (cc_cap config < 5
        \<or> is_ok (new (config\<lparr>cc_Inbound := [], cc_App := take 5 (cc_App config @ replicate 5 None)\<rparr>))
          \<and> me_new_request env (if url = [] then ''https://www.google.com/generate_204'' else url) \<noteq> None))"
  by (auto simp: MeasureOutboundDelay_def measureInstDelay_def measure_begin_def reslice_def Let_def
      split: sum.splits gocall.splits option.splits if_splits prod.splits)

section \<open>Sample runs\<close>

definition demo_measure :: measure_env where
  "demo_measure = \<lparr>me_new_request = (\<lambda>_. None), me_ParseDestination = Inr, me_core_Dial = (\<lambda>i _. Inr i),
     me_do = (\<lambda>dial q. case dial ''tcp'' ''www.google.com:443'' of Inl e \<Rightarrow> Inl e | Inr _ \<Rightarrow> Inr (204, ''204 No Content'')), me_elapsed = 83 * millisecond\<rparr>"

definition demo_measuring :: measuring_env where
  "demo_measuring = \<lparr>mv_dials = demo_dials\<lparr>de_point := demo_point\<lparr>pe_lookup := \<lambda>_. demo_env\<rparr>\<rparr>, mv_meas = (\<lambda>_. demo_measure)\<rparr>"

text \<open>A synchronous start by thread 1 with watcher 2, and one by thread 5 with watcher 6.\<close>

definition first_start :: "measure_action list" where
  "first_start = map (Below \<circ> Core) [CallRun 1 False, Go 1 0, Go 1 0, Go 1 2, Go 1 0, Go 1 0, Go 1 0, Go 1 0, Go 1 0]"

definition second_start :: "measure_action list" where
  "second_start = map (Below \<circ> Core) [CallRun 5 False, Go 5 0, Go 5 0, Go 5 6, Go 5 0, Go 5 0, Go 5 0, Go 5 0, Go 5 0]"

text \<open>
  A stop can miss a measurement. The goroutine looks the close channel up when it first runs; if the core was stopped and started again before
  that, it waits on the channel of the new core, and the request through the closed core goes on until its time is over.
\<close>

theorem restart_hides_stop:
  "\<exists>s q. mreach demo_measuring (new_point False ''a:443'') s \<and> cm_call s 7 = MDoing q \<and> CoreClose (mq_inst q) \<in> set (sy_log (cd_sys (cm_dials s)))
     \<and> cm_ctx s 7 = Active \<and> cm_watch s 7 = WWait (Some 2) \<and> (\<forall>b. measure_act demo_measuring (Watch 7 b) s = None)"
proof -
  let ?as = "first_start @ [CallMeasure 7 [], Caller 7] @ map (Below \<circ> Core) [CallStop 4, Go 4 0] @ second_start @ [Watch 7 False]"
  let ?Q = "\<lambda>s. (case cm_call s 7 of MDoing q \<Rightarrow> CoreClose (mq_inst q) \<in> set (sy_log (cd_sys (cm_dials s))) | _ \<Rightarrow> False)
      \<and> cm_ctx s 7 = Active \<and> cm_watch s 7 = WWait (Some 2) \<and> (case measure_act demo_measuring (Watch 7 True) s of None \<Rightarrow> True | _ \<Rightarrow> False)
      \<and> (case measure_act demo_measuring (Watch 7 False) s of None \<Rightarrow> True | _ \<Rightarrow> False)"
  have "case run_steps (measure_act demo_measuring) ?as (init_measuring (new_point False ''a:443'')) of None \<Rightarrow> False | Some s \<Rightarrow> ?Q s" by code_simp
  then obtain s where s: "run_steps (measure_act demo_measuring) ?as (init_measuring (new_point False ''a:443'')) = Some s"
    "mreach demo_measuring (new_point False ''a:443'') s" "?Q s" by (rule sample_run)
  from s(3) have "measure_act demo_measuring (Watch 7 b) s = None" for b by (cases b) (auto split: option.splits)
  with s(2,3) show ?thesis by (auto split: mpc.splits)
qed

text \<open>A measurement of the first core that its goroutine watches.\<close>

definition watched_schedule :: "measure_action list" where
  "watched_schedule = first_start @ [CallMeasure 7 [], Caller 7, Watch 7 False]"

definition stop_schedule :: "measure_action list" where
  "stop_schedule = map (Below \<circ> Core) [CallStop 4, Go 4 0]"

abbreviation init_demo :: measuring where
  "init_demo \<equiv> init_measuring (new_point False ''a:443'')"

theorem stop_ends_measurement_witness:
  "\<exists>s s' bs s'' r. run_steps (measure_act demo_measuring) watched_schedule init_demo = Some s \<and> vp_IsRunning (point_of s)
     \<and> run_steps (measure_act demo_measuring) stop_schedule s = Some s' \<and> run_steps (measure_act demo_measuring) bs s' = Some s''
     \<and> length bs \<le> 2 \<and> cm_call s'' 7 = MReturned r"
proof -
  let ?Q = "\<lambda>s. (case cm_call s 7 of MDoing q \<Rightarrow> True | _ \<Rightarrow> False) \<and> cm_watch s 7 = WWait (vp_closeChan (point_of s)) \<and> vp_IsRunning (point_of s)
    \<and> (case run_steps (measure_act demo_measuring) stop_schedule s of None \<Rightarrow> False | Some s' \<Rightarrow> alive s' \<and> \<not> vp_IsRunning (point_of s'))"
  have "case run_steps (measure_act demo_measuring) watched_schedule init_demo of None \<Rightarrow> False | Some s \<Rightarrow> ?Q s" by code_simp
  then obtain s where s: "run_steps (measure_act demo_measuring) watched_schedule init_demo = Some s" "mreach demo_measuring (new_point False ''a:443'') s" "?Q s"
    by (rule sample_run)
  then obtain q s' where q: "cm_call s 7 = MDoing q" "run_steps (measure_act demo_measuring) stop_schedule s = Some s'" "alive s'" "\<not> vp_IsRunning (point_of s')"
    by (auto split: mpc.splits option.splits)
  from stop_ends_measurement[OF s(2) q(1) _ _ q(2-4)] s(1,3) q(2) show ?thesis by blast
qed

theorem cancelled_only_by_stop_witness:
  "\<exists>s. run_steps (measure_act demo_measuring) (watched_schedule @ stop_schedule @ [Watch 7 False]) init_demo = Some s \<and> cm_ctx s 7 = Cancelled
     \<and> (\<exists>i. CoreClose i \<in> set (sy_log (cd_sys (cm_dials s))))"
proof -
  let ?as = "watched_schedule @ stop_schedule @ [Watch 7 False]"
  have "case run_steps (measure_act demo_measuring) ?as init_demo of None \<Rightarrow> False | Some s \<Rightarrow> cm_ctx s 7 = Cancelled" by code_simp
  then obtain s where s: "run_steps (measure_act demo_measuring) ?as init_demo = Some s" "mreach demo_measuring (new_point False ''a:443'') s" "cm_ctx s 7 = Cancelled"
    by (rule sample_run)
  from cancelled_only_by_stop[OF s(2,3)] s(1,3) show ?thesis by blast
qed


text \<open>Runs of the patient application: after the first start nothing else enters \<^verbatim>\<open>RunLoop\<close>.\<close>

definition m_no_start :: "measure_action \<Rightarrow> measuring \<Rightarrow> bool" where
  "m_no_start a s = (case a of Below b \<Rightarrow> no_start b (cm_dials s) | _ \<Rightarrow> True)"

lemma m_no_start_patient: "m_no_start a s \<Longrightarrow> measure_patient a s"
  using no_start_patient by (auto simp: m_no_start_def measure_patient_def split: measure_action.splits)

lemma m_started_run:
  "run_steps (guarded measure_patient (measure_act env)) (map Below [Core (CallRun 1 False), Core (Go 1 0)]) (init_measuring (new_point True ''a:443''))
     = Some ((init_measuring (new_point True ''a:443''))\<lparr>cm_dials := started\<rparr>)"
  using started_run[of "mv_dials env"]
  by (auto simp: guarded_def measure_patient_def measure_act_def init_measuring_def dial_act_def split: option.splits if_splits)


end
