(* ===== verification/Spec2Isabelle.thy ===== *)
theory Spec2Isabelle
  imports Fetch_Ech Ech_Flight Wireguard Cert Point_Api Core_Measure
begin

text \<open>
  A verification development for AndroidLibXrayLite, the Go library through which Android applications
  run xray: it starts and stops the core, gives the core a dialer whose sockets the VPN service
  protects, and offers a web client with encrypted client hello (ECH), DNS over HTTPS, a certificate
  probe and a WireGuard probe. The whole of the library's own logic is in the eight Go files at the top of
  \<^verbatim>\<open>src/\<close>; the development follows them function by function and keeps their names.

  \<^bold>\<open>The program and its model.\<close>

  \<^item> Library. \<open>Prelude\<close> has bytes, errors, results, panics, durations with the wrap-around of \<^verbatim>\<open>int64\<close> and
    the entropy behind \<^verbatim>\<open>crypto/rand\<close>. \<open>Go_Strings\<close>, \<open>Go_Net\<close> and \<open>Go_Codec\<close> model what the code uses of
    \<^verbatim>\<open>strings\<close>, \<^verbatim>\<open>strconv\<close>, \<^verbatim>\<open>net\<close>, \<^verbatim>\<open>encoding/hex\<close>, \<^verbatim>\<open>encoding/base64\<close> and \<^verbatim>\<open>encoding/binary\<close>, with the round trips
    of the codecs.

  \<^item> Options. \<open>Transport_Options\<close> has the option structs of \<^verbatim>\<open>libv2ray_fetch.go\<close> as records. \<open>Validate\<close> has
    \<open>validate\<close> with its guards in order, the protocol modes, and \<open>quicAttempts\<close> of \<^verbatim>\<open>libv2ray_fetch_h3.go\<close>. Shown:
    \<open>validate\<close> accepts exactly the options of a declarative specification, \<open>options_ok\<close>.

  \<^item> Noise. \<open>Noise\<close> is \<^verbatim>\<open>libv2ray_fetch_noise.go\<close>: the parser of the plan, the datagrams of every mode byte for
    byte, the send loop. Shown: an accepted plan is within its caps, and a burst has the drawn number of
    datagrams, each of the shape of its mode.

  \<^item> Connections. \<open>Dialing\<close> has \<open>rawDial\<close>, \<open>dialViaProxy\<close> and \<open>proxyConnect\<close>; \<open>Tls_Dial\<close> the TLS configuration, the
    state of a request (\<open>connState\<close>, the handed over connection), the handshakes, the QUIC dial, and
    \<open>echProbe\<close> of \<^verbatim>\<open>libv2ray_fetch_probe.go\<close>. Both thread a history, the list of everything the program did to the
    network. Shown: a dial leaks nothing, a pinned address is the only one dialed, and a list obtained from
    a probe comes from a rejection in a handshake that was verified unless the options ask otherwise.
    The interface between the layers is the locale \<open>dialer\<close>: what a dial function opens it either returns,
    closes, or keeps among the connections its state holds. It is interpreted for the raw dial, the two TLS
    dials, the handed over connection, the QUIC dial and the dial of a redirect hop.

  \<^item> ECH keys. \<open>Ech_Probe\<close> has the probe notation, the bogus list a probe offers and the structural check of
    lists. \<open>Ech_Cache\<close> has the cache and \<open>echAcquire\<close> as one caller runs it (locale \<open>expiring_cache\<close>: what a load
    returns after a store, until it expires). \<open>Ech_Flight\<close> has the same function as a step relation of any number
    of goroutines with the mutex of each key. Shown by rule induction: one fetch per key at a time, no
    second fetch by those who waited, and an answer for every caller; the sequential function is a run of the concurrent one. \<open>Dns_Answers\<close> reads
    keys and addresses out of DNS replies.

  \<^item> Requests. \<open>Http_Stack\<close> has the headers, the transports of every path and the HTTP client; \<open>Ech_Lookup\<close> the three
    functions that call each other, \<open>echConfigList\<close>, \<open>roundTripper\<close> and \<open>dnsExchange\<close>; \<open>Fetch_Conns\<close> what each of them
    leaves open; \<open>Fetch\<close> the entry points \<open>FetchWeb\<close> and \<open>ResolveDoH\<close>; \<open>Fetch_Ech\<close> how a rejection acts on the cache on
    each path. Shown: with ECH enabled no handshake goes without the acquired list, \<open>FetchWeb\<close> leaves nothing open,
    and its result has an error or the response.

  \<^item> Certificates. \<open>Cert\<close> is \<^verbatim>\<open>libv2ray_fetch_cert.go\<close>: \<open>ProbeCert\<close> with the sink of the verify callback as state.
    Shown: what the peer sent is reported whatever the outcome of the handshake, and nothing stays open.

  \<^item> WireGuard. \<open>Wg_Keys\<close>, \<open>Wg_Handshake\<close> and \<open>Wireguard\<close> are \<^verbatim>\<open>libv2ray_wireguard_probe.go\<close>: keys and reserved bytes,
    the initiator's half of the handshake, and the receive loop with the attempts. A responder that
    follows the protocol is specified beside it. Shown: a peer that answers is found alive whatever
    else arrives first, and only an authenticated answer from the probed address gives that verdict.

  \<^item> Protected dialer. \<open>Support\<close> is \<^verbatim>\<open>libv2ray_support.go\<close>: the cached server addresses with their rotation (locale
    \<open>address_cache\<close>), the preparation with its retries, and \<open>Dial\<close> with the system calls it makes. Shown: failures go
    round the addresses, preparation ends, and each descriptor is protected before it connects and is closed.

  \<^item> Core. Three machines stand on each other; \<open>Machine\<close> has what they share: runs, reachable states, the locales \<open>stable\<close> and \<open>invariant\<close> for
    what every step keeps, and \<open>simulation\<close>, through which an invariant of one machine becomes one of the machine above it.
    \<open>Point\<close> is the life cycle in \<^verbatim>\<open>libv2ray_main.go\<close>: its state has the shared object, its mutex, the channels and a program counter per
    goroutine (\<open>go\<close> is one step of one of them, \<open>act\<close> adds the calls of the application). Its invariants are about the mutex and the channels, the
    one preparation at a time, the status messages, and which cores are closed. \<open>Core_Dials\<close> adds the goroutines of the core that call
    \<open>Dial\<close>, with every read of the shared dialer a step; \<open>Core_Measure\<close> adds the delay measurements with their contexts and the goroutines
    that cancel them. Shown: nothing crashes in any interleaving when the application starts only after the previous preparation
    has ended (which a synchronous start forces, and without which an asynchronous one can close a channel twice); a dial that waits is
    always released and reaches an address the resolver gave; a stop brings a watched measurement back; and the atomic \<open>Dial\<close> and the
    sequential measurement are the runs that nothing interrupts.

  \<^item> Library calls. \<open>Point_Api\<close> has the other calls of \<^verbatim>\<open>libv2ray_main.go\<close>: the counters, the plain web request, the environment of the core, the
    log writer and the version text. Shown: the counters lose no traffic, and messages come out of the log line by line.

  \<^bold>\<open>Outside the model.\<close> The network, the clock, the resolver, the kernel and the VPN service, the TLS, QUIC and HTTP
  stacks, xray (its fragment writer, its fingerprints and its core), the DNS and SOCKS5 packages, X.509 and the
  cryptographic packages are arguments: fields of the records \<open>dial_env\<close>, \<open>tls_env\<close>, \<open>http_env\<close>, \<open>wg_lib\<close>, \<open>wg_env\<close>,
  \<open>point_env\<close>, \<open>dials_env\<close>, \<open>measure_env\<close> and of their extensions. An answer of the network may depend on the whole history, so a
  statement about every environment covers peers that change their behaviour. What the code relies on is
  a named hypothesis: \<open>wg_crypto_ok\<close> (X25519 commutes, an AEAD opens what it sealed), \<open>wg_layout_ok\<close> (the message
  layouts of the protocol), \<open>h3_keeps_ech\<close> (the HTTP/3 client hands the dial function the ECH list it was
  configured with), and the length prefixes of the \<^verbatim>\<open>cryptobyte\<close> builder. Each has a concrete instance
  in the witness of the theorem that uses it.

  \<^bold>\<open>Bounds.\<close> There is no fuel. The loops are structural or have a termination proof: the retries of a
  preparation are at most ten, the attempts of a WireGuard probe are counted, the reads of an attempt are the
  finite list of what arrives before the deadline that every turn sets again, and the recursion of
  the ECH lookup ends because a lookup is made with ECH switched off. Random bytes are a finite list consumed in
  the order of the code's reads; when it is too short the read fails, as \<^verbatim>\<open>crypto/rand\<close> may.

  \<^bold>\<open>Not modelled.\<close> Decoding and encoding of JSON (the entry points take what \<^verbatim>\<open>json.Unmarshal\<close> makes of their text, and
  answer with the record that is marshalled); the texts of errors, which are kept as values; the lines the code writes to its own log; \<^verbatim>\<open>TerminateByExit\<close>, which ends the process; data races
  below the level of one read or write of a field; the tests, the build files and the data files.
\<close>

end
